(* ===== verification/AmdvPrelude.thy ===== *)
theory AmdvPrelude
  imports Main "HOL-Library.Word"
begin

text \<open>
  Shared vocabulary of the development: the fixed-width integer types of the C++ sources, the
  collections of simplification rules the component theories fill, and the generic lemmas on
  words, lists and functional arrays that more than one component uses.
\<close>

unbundle bit_operations_syntax

section \<open>Integer types\<close>

type_synonym u8 = "8 word"
type_synonym u16 = "16 word"
type_synonym u32 = "32 word"
type_synonym u64 = "64 word"

text \<open>
  \<open>hw_consts\<close> collects the defining equations of the hardware constants (bit masks, MSR
  numbers, exit codes), \<open>layout\<close> the computed offsets of the packed structures, and
  \<open>bit_reads\<close> the facts that turn a masked test into a single bit.
\<close>

named_theorems hw_consts
named_theorems layout
named_theorems bit_reads

section \<open>Single-bit masks\<close>

definition flag :: "nat \<Rightarrow> 'a::len word" where
  "flag n = push_bit n 1"

lemma bit_flag_iff [bit_simps]:
  "bit (flag n :: 'a::len word) k \<longleftrightarrow> n = k \<and> k < LENGTH('a)"
  by (auto simp: flag_def bit_simps dest: bit_imp_le_length)

lemma and_flag_eq_0_iff [bit_reads]:
  "(w :: 'a::len word) AND flag n = 0 \<longleftrightarrow> \<not> bit w n"
  by (auto simp: bit_eq_iff [of "w AND flag n"] bit_simps dest: bit_imp_le_length)

lemma flag_and_eq_0_iff [bit_reads]:
  "flag n AND (w :: 'a::len word) = 0 \<longleftrightarrow> \<not> bit w n"
  by (simp add: and_flag_eq_0_iff and.commute)

lemma or_flag_and_not_flag:
  "(w OR flag n) AND NOT (flag n) = (w :: 'a::len word) AND NOT (flag n)"
  by (rule bit_word_eqI) (auto simp: bit_simps)

lemma and_not_flag_or_flag:
  "(w AND NOT (flag n)) OR flag n = (w :: 'a::len word) OR flag n"
  by (rule bit_word_eqI) (auto simp: bit_simps)

section \<open>Splitting words\<close>

lemma ucast_ucast_mask:
  fixes w :: "'b::len word"
  assumes "LENGTH('a::len) \<le> LENGTH('b)"
  shows "ucast (ucast w :: 'a word) = w AND mask LENGTH('a)"
  by (rule bit_word_eqI) (use assms in \<open>auto simp: bit_simps\<close>)

lemma ucast_ucast_up:
  fixes w :: "'a::len word"
  assumes "LENGTH('a) \<le> LENGTH('b::len)"
  shows "ucast (ucast w :: 'b word) = w"
  by (rule bit_word_eqI) (use assms in \<open>auto simp: bit_simps dest: bit_imp_le_length\<close>)

lemma div_mod_unique_nat:
  fixes q r k d :: nat
  assumes "r < d" and "k = d * q + r"
  shows "k div d = q" and "k mod d = r"
  using assms by auto

text \<open>The bytes of a 32-bit register as they lie in memory.\<close>

definition le_bytes :: "u32 \<Rightarrow> u8 list" where
  "le_bytes w = map (\<lambda>i. ucast (drop_bit (8 * i) w)) [0..<4]"

lemma le_bytes_eq_iff: "le_bytes v = le_bytes w \<longleftrightarrow> v = w"
proof
  assume "le_bytes v = le_bytes w"
  then have byte: "(ucast (drop_bit (8 * i) v) :: u8) = ucast (drop_bit (8 * i) w)" if "i < 4" for i
    using that by (simp add: le_bytes_def list_eq_iff_nth_eq)
  show "v = w"
  proof (rule bit_word_eqI)
    fix k :: nat assume "k < LENGTH(32)"
    then have k: "k div 8 < 4" "k mod 8 < 8" by auto
    have "bit v k = bit (ucast (drop_bit (8 * (k div 8)) v) :: u8) (k mod 8)"
      using k by (simp add: bit_simps)
    also have "\<dots> = bit w k"
      unfolding byte [OF k(1)] using k by (simp add: bit_simps)
    finally show "bit v k = bit w k" .
  qed
qed simp

section \<open>Lists and functional arrays\<close>

text \<open>A sequence of statements over a state, each given by an item of a list.\<close>

lemma fold_preserves:
  assumes "P s" and "\<And>x t. x \<in> set xs \<Longrightarrow> P t \<Longrightarrow> P (f x t)"
  shows "P (fold f xs s)"
  using assms by (induction xs arbitrary: s) auto

lemma fold_observe:
  assumes "\<And>x t. x \<in> set xs \<Longrightarrow> g (f x t) = g t"
  shows "g (fold f xs s) = g s"
  using assms by (induction xs arbitrary: s) auto

lemma map_of_append_Some:
  "map_of (xs @ ys) k = (case map_of xs k of None \<Rightarrow> map_of ys k | Some v \<Rightarrow> Some v)"
  by (simp add: map_add_def)

lemma map_of_take_Suc:
  assumes "n < length xs"
  shows "map_of (map f (take (Suc n) xs)) k =
         (case map_of (map f (take n xs)) k of
            None \<Rightarrow> if fst (f (xs ! n)) = k then Some (snd (f (xs ! n))) else None
          | Some v \<Rightarrow> Some v)"
  using assms
  by (cases "f (xs ! n)")
    (auto simp: take_Suc_conv_app_nth map_of_append_Some simp del: map_of_append split: option.splits)

section \<open>Sequences of calls that must not fault\<close>

text \<open>
  A component is a family of calls over a state, each of which may fault (\<open>None\<close>). A contract
  for such a family is an invariant under which no call faults and which every call keeps; then no
  sequence of calls faults, and the invariant holds at its end.
\<close>

primrec run_calls :: "('o \<Rightarrow> 's \<Rightarrow> 's option) \<Rightarrow> 'o list \<Rightarrow> 's \<Rightarrow> 's option" where
  "run_calls run [] s = Some s"
| "run_calls run (x # xs) s = (case run x s of None \<Rightarrow> None | Some s' \<Rightarrow> run_calls run xs s')"

locale safe_calls =
  fixes run :: "'o \<Rightarrow> 's \<Rightarrow> 's option"
    and inv :: "'s \<Rightarrow> bool"
  assumes call_safe: "inv s \<Longrightarrow> \<exists>s'. run x s = Some s' \<and> inv s'"
begin

lemma calls_safe: "inv s \<Longrightarrow> \<exists>s'. run_calls run xs s = Some s' \<and> inv s'"
proof (induction xs arbitrary: s)
  case Nil
  then show ?case by simp
next
  case (Cons x xs)
  then obtain s' where "run x s = Some s'" and "inv s'"
    using call_safe by blast
  with Cons.IH show ?case by simp
qed

lemma calls_observe:
  assumes "inv s" and "run_calls run xs s = Some s'"
    and "\<And>x s s'. x \<in> set xs \<Longrightarrow> inv s \<Longrightarrow> run x s = Some s' \<Longrightarrow> g s' = g s"
  shows "g s' = g s"
  using assms
proof (induction xs arbitrary: s)
  case Nil
  then show ?case by simp
next
  case (Cons x xs)
  from Cons.prems(1) obtain t where t: "run x s = Some t" "inv t"
    using call_safe by blast
  have "g s' = g t"
  proof (rule Cons.IH [OF t(2)])
    show "run_calls run xs t = Some s'"
      using Cons.prems(2) t(1) by simp
    show "g s2 = g s1" if "y \<in> set xs" "inv s1" "run y s1 = Some s2" for y s1 s2
      using Cons.prems(3) that by (metis list.set_intros(2))
  qed
  also have "\<dots> = g s"
    using Cons.prems(3) [of x s t] Cons.prems(1) t(1) by simp
  finally show ?case .
qed

end

end
