(* ===== verification/VmxModel.thy ===== *)
theory VmxModel
  imports AmdvPrelude
begin

text \<open>
  The Intel VMX vocabulary of \<^verbatim>\<open>src/kern_vmx.hpp\<close>: the VMCS field encodings, the execution
  control bits, the VM-entry interruption-information accessors, the exit reasons and the
  instruction classes of the \<open>#UD\<close> decoder. Every enumeration of the source is a datatype with
  the source's enumerators and a function that gives each its numeric value.
\<close>

section \<open>VMCS field encodings\<close>

datatype vmcs_field =
    VMCS_VIRTUAL_PROCESSOR_ID
  | VMCS_GUEST_ES_SELECTOR | VMCS_GUEST_CS_SELECTOR | VMCS_GUEST_SS_SELECTOR
  | VMCS_GUEST_DS_SELECTOR | VMCS_GUEST_FS_SELECTOR | VMCS_GUEST_GS_SELECTOR
  | VMCS_GUEST_LDTR_SELECTOR | VMCS_GUEST_TR_SELECTOR
  | VMCS_IO_BITMAP_A | VMCS_MSR_BITMAP | VMCS_LINK_POINTER | VMCS_EPT_POINTER
  | VMCS_GUEST_IA32_PAT | VMCS_GUEST_IA32_EFER
  | VMCS_PIN_EXEC_CONTROL | VMCS_CPU_EXEC_CONTROL | VMCS_EXCEPTION_BITMAP
  | VMCS_VM_EXIT_CONTROLS | VMCS_VM_ENTRY_CONTROLS | VMCS_VM_ENTRY_INTR_INFO
  | VMCS_VM_ENTRY_EXCEPTION_ERROR | VMCS_VM_ENTRY_INSTR_LEN | VMCS_SECONDARY_EXEC_CTL
  | VMCS_VM_EXIT_REASON | VMCS_VM_EXIT_INTR_INFO | VMCS_VM_EXIT_INTR_ERROR
  | VMCS_IDT_VECTORING_INFO | VMCS_VM_EXIT_INSTR_LEN
  | VMCS_GUEST_ES_LIMIT | VMCS_GUEST_CS_LIMIT | VMCS_GUEST_SS_LIMIT | VMCS_GUEST_DS_LIMIT
  | VMCS_GUEST_FS_LIMIT | VMCS_GUEST_GS_LIMIT | VMCS_GUEST_LDTR_LIMIT | VMCS_GUEST_TR_LIMIT
  | VMCS_GUEST_GDTR_LIMIT | VMCS_GUEST_IDTR_LIMIT
  | VMCS_GUEST_ES_AR | VMCS_GUEST_CS_AR | VMCS_GUEST_SS_AR | VMCS_GUEST_DS_AR
  | VMCS_GUEST_FS_AR | VMCS_GUEST_GS_AR | VMCS_GUEST_LDTR_AR | VMCS_GUEST_TR_AR
  | VMCS_GUEST_INTERRUPTIBILITY
  | VMCS_GUEST_CR0 | VMCS_GUEST_CR3 | VMCS_GUEST_CR4
  | VMCS_GUEST_ES_BASE | VMCS_GUEST_CS_BASE | VMCS_GUEST_SS_BASE | VMCS_GUEST_DS_BASE
  | VMCS_GUEST_FS_BASE | VMCS_GUEST_GS_BASE | VMCS_GUEST_LDTR_BASE | VMCS_GUEST_TR_BASE
  | VMCS_GUEST_GDTR_BASE | VMCS_GUEST_IDTR_BASE
  | VMCS_GUEST_RSP | VMCS_GUEST_RIP | VMCS_GUEST_RFLAGS | VMCS_GUEST_CR2

primrec vmcs_enc :: "vmcs_field \<Rightarrow> u32" where
  "vmcs_enc VMCS_VIRTUAL_PROCESSOR_ID = 0x0000"
| "vmcs_enc VMCS_GUEST_ES_SELECTOR = 0x0800"
| "vmcs_enc VMCS_GUEST_CS_SELECTOR = 0x0802"
| "vmcs_enc VMCS_GUEST_SS_SELECTOR = 0x0804"
| "vmcs_enc VMCS_GUEST_DS_SELECTOR = 0x0806"
| "vmcs_enc VMCS_GUEST_FS_SELECTOR = 0x0808"
| "vmcs_enc VMCS_GUEST_GS_SELECTOR = 0x080A"
| "vmcs_enc VMCS_GUEST_LDTR_SELECTOR = 0x080C"
| "vmcs_enc VMCS_GUEST_TR_SELECTOR = 0x080E"
| "vmcs_enc VMCS_IO_BITMAP_A = 0x2000"
| "vmcs_enc VMCS_MSR_BITMAP = 0x2004"
| "vmcs_enc VMCS_LINK_POINTER = 0x2800"
| "vmcs_enc VMCS_EPT_POINTER = 0x201A"
| "vmcs_enc VMCS_GUEST_IA32_PAT = 0x2804"
| "vmcs_enc VMCS_GUEST_IA32_EFER = 0x2806"
| "vmcs_enc VMCS_PIN_EXEC_CONTROL = 0x4000"
| "vmcs_enc VMCS_CPU_EXEC_CONTROL = 0x4002"
| "vmcs_enc VMCS_EXCEPTION_BITMAP = 0x4004"
| "vmcs_enc VMCS_VM_EXIT_CONTROLS = 0x400C"
| "vmcs_enc VMCS_VM_ENTRY_CONTROLS = 0x4012"
| "vmcs_enc VMCS_VM_ENTRY_INTR_INFO = 0x4016"
| "vmcs_enc VMCS_VM_ENTRY_EXCEPTION_ERROR = 0x4018"
| "vmcs_enc VMCS_VM_ENTRY_INSTR_LEN = 0x401A"
| "vmcs_enc VMCS_SECONDARY_EXEC_CTL = 0x401E"
| "vmcs_enc VMCS_VM_EXIT_REASON = 0x4402"
| "vmcs_enc VMCS_VM_EXIT_INTR_INFO = 0x4404"
| "vmcs_enc VMCS_VM_EXIT_INTR_ERROR = 0x4406"
| "vmcs_enc VMCS_IDT_VECTORING_INFO = 0x4408"
| "vmcs_enc VMCS_VM_EXIT_INSTR_LEN = 0x440C"
| "vmcs_enc VMCS_GUEST_ES_LIMIT = 0x4800"
| "vmcs_enc VMCS_GUEST_CS_LIMIT = 0x4802"
| "vmcs_enc VMCS_GUEST_SS_LIMIT = 0x4804"
| "vmcs_enc VMCS_GUEST_DS_LIMIT = 0x4806"
| "vmcs_enc VMCS_GUEST_FS_LIMIT = 0x4808"
| "vmcs_enc VMCS_GUEST_GS_LIMIT = 0x480A"
| "vmcs_enc VMCS_GUEST_LDTR_LIMIT = 0x480C"
| "vmcs_enc VMCS_GUEST_TR_LIMIT = 0x480E"
| "vmcs_enc VMCS_GUEST_GDTR_LIMIT = 0x4810"
| "vmcs_enc VMCS_GUEST_IDTR_LIMIT = 0x4812"
| "vmcs_enc VMCS_GUEST_ES_AR = 0x4814"
| "vmcs_enc VMCS_GUEST_CS_AR = 0x4816"
| "vmcs_enc VMCS_GUEST_SS_AR = 0x4818"
| "vmcs_enc VMCS_GUEST_DS_AR = 0x481A"
| "vmcs_enc VMCS_GUEST_FS_AR = 0x481C"
| "vmcs_enc VMCS_GUEST_GS_AR = 0x481E"
| "vmcs_enc VMCS_GUEST_LDTR_AR = 0x4820"
| "vmcs_enc VMCS_GUEST_TR_AR = 0x4822"
| "vmcs_enc VMCS_GUEST_INTERRUPTIBILITY = 0x4824"
| "vmcs_enc VMCS_GUEST_CR0 = 0x6800"
| "vmcs_enc VMCS_GUEST_CR3 = 0x6802"
| "vmcs_enc VMCS_GUEST_CR4 = 0x6804"
| "vmcs_enc VMCS_GUEST_ES_BASE = 0x6806"
| "vmcs_enc VMCS_GUEST_CS_BASE = 0x6808"
| "vmcs_enc VMCS_GUEST_SS_BASE = 0x680A"
| "vmcs_enc VMCS_GUEST_DS_BASE = 0x680C"
| "vmcs_enc VMCS_GUEST_FS_BASE = 0x680E"
| "vmcs_enc VMCS_GUEST_GS_BASE = 0x6810"
| "vmcs_enc VMCS_GUEST_LDTR_BASE = 0x6812"
| "vmcs_enc VMCS_GUEST_TR_BASE = 0x6814"
| "vmcs_enc VMCS_GUEST_GDTR_BASE = 0x6816"
| "vmcs_enc VMCS_GUEST_IDTR_BASE = 0x6818"
| "vmcs_enc VMCS_GUEST_RSP = 0x681C"
| "vmcs_enc VMCS_GUEST_RIP = 0x681E"
| "vmcs_enc VMCS_GUEST_RFLAGS = 0x6820"
| "vmcs_enc VMCS_GUEST_CR2 = 0x6822"

text \<open>
  The enumerators in the order of the source. With the type an instance of the library's
  \<open>enum\<close> class its quantifiers compute, and injectivity of the encoding reduces to the
  distinctness of one concrete list of numbers.
\<close>

instantiation vmcs_field :: enum
begin

definition enum_vmcs_field :: "vmcs_field list" where
  "enum_vmcs_field = [
    VMCS_VIRTUAL_PROCESSOR_ID, VMCS_GUEST_ES_SELECTOR, VMCS_GUEST_CS_SELECTOR,
    VMCS_GUEST_SS_SELECTOR, VMCS_GUEST_DS_SELECTOR, VMCS_GUEST_FS_SELECTOR,
    VMCS_GUEST_GS_SELECTOR, VMCS_GUEST_LDTR_SELECTOR, VMCS_GUEST_TR_SELECTOR, VMCS_IO_BITMAP_A,
    VMCS_MSR_BITMAP, VMCS_LINK_POINTER, VMCS_EPT_POINTER, VMCS_GUEST_IA32_PAT,
    VMCS_GUEST_IA32_EFER, VMCS_PIN_EXEC_CONTROL, VMCS_CPU_EXEC_CONTROL, VMCS_EXCEPTION_BITMAP,
    VMCS_VM_EXIT_CONTROLS, VMCS_VM_ENTRY_CONTROLS, VMCS_VM_ENTRY_INTR_INFO,
    VMCS_VM_ENTRY_EXCEPTION_ERROR, VMCS_VM_ENTRY_INSTR_LEN, VMCS_SECONDARY_EXEC_CTL,
    VMCS_VM_EXIT_REASON, VMCS_VM_EXIT_INTR_INFO, VMCS_VM_EXIT_INTR_ERROR,
    VMCS_IDT_VECTORING_INFO, VMCS_VM_EXIT_INSTR_LEN, VMCS_GUEST_ES_LIMIT, VMCS_GUEST_CS_LIMIT,
    VMCS_GUEST_SS_LIMIT, VMCS_GUEST_DS_LIMIT, VMCS_GUEST_FS_LIMIT, VMCS_GUEST_GS_LIMIT,
    VMCS_GUEST_LDTR_LIMIT, VMCS_GUEST_TR_LIMIT, VMCS_GUEST_GDTR_LIMIT, VMCS_GUEST_IDTR_LIMIT,
    VMCS_GUEST_ES_AR, VMCS_GUEST_CS_AR, VMCS_GUEST_SS_AR, VMCS_GUEST_DS_AR, VMCS_GUEST_FS_AR,
    VMCS_GUEST_GS_AR, VMCS_GUEST_LDTR_AR, VMCS_GUEST_TR_AR, VMCS_GUEST_INTERRUPTIBILITY,
    VMCS_GUEST_CR0, VMCS_GUEST_CR3, VMCS_GUEST_CR4, VMCS_GUEST_ES_BASE, VMCS_GUEST_CS_BASE,
    VMCS_GUEST_SS_BASE, VMCS_GUEST_DS_BASE, VMCS_GUEST_FS_BASE, VMCS_GUEST_GS_BASE,
    VMCS_GUEST_LDTR_BASE, VMCS_GUEST_TR_BASE, VMCS_GUEST_GDTR_BASE, VMCS_GUEST_IDTR_BASE,
    VMCS_GUEST_RSP, VMCS_GUEST_RIP, VMCS_GUEST_RFLAGS, VMCS_GUEST_CR2]"

definition enum_all_vmcs_field :: "(vmcs_field \<Rightarrow> bool) \<Rightarrow> bool" where
  "enum_all_vmcs_field P = list_all P enum_class.enum"

definition enum_ex_vmcs_field :: "(vmcs_field \<Rightarrow> bool) \<Rightarrow> bool" where
  "enum_ex_vmcs_field P = list_ex P enum_class.enum"

lemma set_enum_vmcs_field: "f \<in> set (enum_class.enum :: vmcs_field list)"
  by (cases f) (simp_all add: enum_vmcs_field_def)

instance
proof
  show "(UNIV :: vmcs_field set) = set enum_class.enum"
    using set_enum_vmcs_field by blast
  show "distinct (enum_class.enum :: vmcs_field list)"
    by (simp add: enum_vmcs_field_def)
  fix P :: "vmcs_field \<Rightarrow> bool"
  show "enum_class.enum_all P \<longleftrightarrow> Ball UNIV P"
    using set_enum_vmcs_field by (auto simp: enum_all_vmcs_field_def list_all_iff)
  show "enum_class.enum_ex P \<longleftrightarrow> Bex UNIV P"
    using set_enum_vmcs_field by (auto simp: enum_ex_vmcs_field_def list_ex_iff)
qed

end

lemma inj_vmcs_enc: "inj vmcs_enc"
proof -
  have "distinct (map vmcs_enc enum_class.enum)"
    by (simp add: enum_vmcs_field_def)
  then show ?thesis
    by (simp add: distinct_map flip: UNIV_enum)
qed

lemma vmcs_enc_eq_iff [simp]: "vmcs_enc f = vmcs_enc g \<longleftrightarrow> f = g"
  using inj_vmcs_enc by (rule inj_eq)

declare vmcs_enc.simps [simp del]

section \<open>Execution controls\<close>

definition CPU_CTL_HLT_EXITING :: u32 where [hw_consts]: "CPU_CTL_HLT_EXITING = flag 7"
definition CPU_CTL_CR3_LOAD_EXITING :: u32 where [hw_consts]: "CPU_CTL_CR3_LOAD_EXITING = flag 15"
definition CPU_CTL_CR3_STORE_EXITING :: u32 where [hw_consts]: "CPU_CTL_CR3_STORE_EXITING = flag 16"
definition CPU_CTL_USE_IO_BITMAPS :: u32 where [hw_consts]: "CPU_CTL_USE_IO_BITMAPS = flag 25"
definition CPU_CTL_USE_MSR_BITMAP :: u32 where [hw_consts]: "CPU_CTL_USE_MSR_BITMAP = flag 28"
definition CPU_CTL_SECONDARY_CTLS :: u32 where [hw_consts]: "CPU_CTL_SECONDARY_CTLS = flag 31"

definition PIN_CTL_EXT_INTR_EXITING :: u32 where [hw_consts]: "PIN_CTL_EXT_INTR_EXITING = flag 0"
definition PIN_CTL_NMI_EXITING :: u32 where [hw_consts]: "PIN_CTL_NMI_EXITING = flag 3"

definition SEC_CTL_ENABLE_EPT :: u32 where [hw_consts]: "SEC_CTL_ENABLE_EPT = flag 1"
definition SEC_CTL_ENABLE_VPID :: u32 where [hw_consts]: "SEC_CTL_ENABLE_VPID = flag 5"
definition SEC_CTL_UNRESTRICTED :: u32 where [hw_consts]: "SEC_CTL_UNRESTRICTED = flag 7"

section \<open>VM-entry interruption information\<close>

definition VMX_ENTRY_INTR_VALID :: u32 where [hw_consts]: "VMX_ENTRY_INTR_VALID = flag 31"
definition VMX_ENTRY_INTR_DELIVER_EC :: u32 where [hw_consts]: "VMX_ENTRY_INTR_DELIVER_EC = flag 11"

definition vmxEntryVector :: "u32 \<Rightarrow> u8" where
  "vmxEntryVector f = ucast (f AND 0xFF)"

definition vmxEntryType :: "u32 \<Rightarrow> u32" where
  "vmxEntryType f = drop_bit 8 f AND 0x7"

datatype vmx_entry_intr_type =
    VMX_INTR_TYPE_EXT | VMX_INTR_TYPE_NMI | VMX_INTR_TYPE_HW_EXCEP
  | VMX_INTR_TYPE_SW_INT | VMX_INTR_TYPE_PRIV_SW | VMX_INTR_TYPE_SW_EXCEP

primrec vmx_intr_type :: "vmx_entry_intr_type \<Rightarrow> u32" where
  "vmx_intr_type VMX_INTR_TYPE_EXT = 0"
| "vmx_intr_type VMX_INTR_TYPE_NMI = 2"
| "vmx_intr_type VMX_INTR_TYPE_HW_EXCEP = 3"
| "vmx_intr_type VMX_INTR_TYPE_SW_INT = 4"
| "vmx_intr_type VMX_INTR_TYPE_PRIV_SW = 5"
| "vmx_intr_type VMX_INTR_TYPE_SW_EXCEP = 6"

section \<open>Basic exit reasons\<close>

datatype vmx_exit_reason =
    EXIT_EXCEPTION_NMI | EXIT_EXTERNAL_INTERRUPT | EXIT_TRIPLE_FAULT | EXIT_CPUID | EXIT_HLT
  | EXIT_VMCALL | EXIT_CR_ACCESS | EXIT_IO_INSTRUCTION | EXIT_RDMSR | EXIT_WRMSR
  | EXIT_EPT_VIOLATION | EXIT_EPT_MISCONFIG | EXIT_UNKNOWN

primrec exit_reason_num :: "vmx_exit_reason \<Rightarrow> u32" where
  "exit_reason_num EXIT_EXCEPTION_NMI = 0"
| "exit_reason_num EXIT_EXTERNAL_INTERRUPT = 1"
| "exit_reason_num EXIT_TRIPLE_FAULT = 2"
| "exit_reason_num EXIT_CPUID = 10"
| "exit_reason_num EXIT_HLT = 12"
| "exit_reason_num EXIT_VMCALL = 18"
| "exit_reason_num EXIT_CR_ACCESS = 28"
| "exit_reason_num EXIT_IO_INSTRUCTION = 30"
| "exit_reason_num EXIT_RDMSR = 31"
| "exit_reason_num EXIT_WRMSR = 32"
| "exit_reason_num EXIT_EPT_VIOLATION = 48"
| "exit_reason_num EXIT_EPT_MISCONFIG = 49"
| "exit_reason_num EXIT_UNKNOWN = 0xFFFFFFFF"

lemma exit_reason_num_eq_iff [simp]: "exit_reason_num r = exit_reason_num r' \<longleftrightarrow> r = r'"
  by (cases r; cases r') simp_all

section \<open>Instruction classes of the decoder\<close>

datatype vmx_opcode =
    VMXOP_NONE | VMXOP_VMREAD | VMXOP_VMWRITE | VMXOP_VMPTRLD | VMXOP_VMPTRST | VMXOP_VMCLEAR
  | VMXOP_VMXON | VMXOP_VMLAUNCH | VMXOP_VMRESUME | VMXOP_VMXOFF | VMXOP_INVEPT | VMXOP_INVVPID

end
