(* ===== verification/ShadowVmcs.thy ===== *)
theory ShadowVmcs
  imports VmxModel
begin

text \<open>
  The class \<open>ShadowVMCS\<close> of \<^verbatim>\<open>src/kern_vmx.hpp\<close> and
  \<^verbatim>\<open>src/kern_vmcs_vmcb.cpp\<close>: a fixed array of (encoding, value) slots searched
  linearly up to \<open>count\<close>. The theory gives the class its abstract contract (a partial map
  from encodings to values with a capacity), proves that the array implements it, and states the
  contract as the locale \<open>encoding_store\<close>, on which the translation and the emulator rest.
\<close>

section \<open>The store\<close>

record slot =
  enc :: u32
  val :: u64

record shadow_vmcs =
  slots :: "slot list"
  count :: nat
  launched :: bool

definition MaxFields :: nat where
  "MaxFields = 256"

definition new_shadow :: shadow_vmcs where
  "new_shadow = \<lparr>slots = replicate MaxFields \<lparr>enc = 0, val = 0\<rparr>, count = 0, launched = False\<rparr>"

definition shadow_reset :: "shadow_vmcs \<Rightarrow> shadow_vmcs" where
  "shadow_reset s = s\<lparr>count := 0, launched := False\<rparr>"

definition isLaunched :: "shadow_vmcs \<Rightarrow> bool" where
  "isLaunched s = launched s"

definition setLaunched :: "shadow_vmcs \<Rightarrow> bool \<Rightarrow> shadow_vmcs" where
  "setLaunched s v = s\<lparr>launched := v\<rparr>"

text \<open>The linear search both operations share: the loop from \<open>i\<close> to \<open>count\<close>.\<close>

function find_slot :: "shadow_vmcs \<Rightarrow> u32 \<Rightarrow> nat \<Rightarrow> nat option" where
  "find_slot s e i =
     (if i < count s then
        if enc (slots s ! i) = e then Some i else find_slot s e (Suc i)
      else None)"
  by pat_completeness auto
termination
  by (relation "measure (\<lambda>(s, e, i). count s - i)") auto

declare find_slot.simps [simp del]

definition shadow_read :: "shadow_vmcs \<Rightarrow> u32 \<Rightarrow> u64" where
  "shadow_read s e =
     (case find_slot s e 0 of Some i \<Rightarrow> val (slots s ! i) | None \<Rightarrow> 0)"

definition shadow_write :: "shadow_vmcs \<Rightarrow> u32 \<Rightarrow> u64 \<Rightarrow> bool \<times> shadow_vmcs" where
  "shadow_write s e v =
     (case find_slot s e 0 of
        Some i \<Rightarrow> (True, s\<lparr>slots := (slots s)[i := (slots s ! i)\<lparr>val := v\<rparr>]\<rparr>)
      | None \<Rightarrow>
          if count s \<ge> MaxFields then (False, s)
          else (True, s\<lparr>slots := (slots s)[count s := \<lparr>enc = e, val = v\<rparr>],
                        count := Suc (count s)\<rparr>))"

section \<open>The abstract contents\<close>

definition slot_pair :: "slot \<Rightarrow> u32 \<times> u64" where
  "slot_pair f = (enc f, val f)"

definition shadow_map :: "shadow_vmcs \<Rightarrow> (u32 \<rightharpoonup> u64)" where
  "shadow_map s = map_of (map slot_pair (take (count s) (slots s)))"

definition shadow_wf :: "shadow_vmcs \<Rightarrow> bool" where
  "shadow_wf s \<longleftrightarrow> length (slots s) = MaxFields \<and> count s \<le> MaxFields
     \<and> distinct (map enc (take (count s) (slots s)))"

lemma fst_slot_pair [simp]: "fst (slot_pair f) = enc f"
  and snd_slot_pair [simp]: "snd (slot_pair f) = val f"
  by (simp_all add: slot_pair_def)

text \<open>The search finds the first slot at or after \<open>i\<close>, or reports that there is none.\<close>

lemma find_slot_Some_iff:
  "find_slot s e i = Some k \<longleftrightarrow>
     i \<le> k \<and> k < count s \<and> enc (slots s ! k) = e \<and> (\<forall>j. i \<le> j \<and> j < k \<longrightarrow> enc (slots s ! j) \<noteq> e)"
proof (induction s e i rule: find_slot.induct)
  case (1 s e i)
  show ?case
  proof (cases "i < count s \<and> enc (slots s ! i) \<noteq> e")
    case True
    then have "find_slot s e i = find_slot s e (Suc i)"
      by (simp add: find_slot.simps [of s e i])
    with 1 True show ?thesis
      by (auto simp: Suc_le_eq) (metis le_neq_implies_less less_antisym not_less_eq)
  next
    case False
    then show ?thesis
      by (auto simp: find_slot.simps [of s e i] dest: le_neq_implies_less)
  qed
qed

lemma find_slot_None_iff:
  "find_slot s e i = None \<longleftrightarrow> (\<forall>k. i \<le> k \<and> k < count s \<longrightarrow> enc (slots s ! k) \<noteq> e)"
proof (induction s e i rule: find_slot.induct)
  case (1 s e i)
  show ?case
  proof (cases "i < count s \<and> enc (slots s ! i) \<noteq> e")
    case True
    with 1 show ?thesis
      by (auto simp: find_slot.simps [of s e i] Suc_le_eq) (metis le_neq_implies_less)
  next
    case False
    then show ?thesis
      by (auto simp: find_slot.simps [of s e i])
  qed
qed

lemma find_slot_cong:
  assumes "count s' = count s" and "\<And>k. k < count s \<Longrightarrow> enc (slots s' ! k) = enc (slots s ! k)"
  shows "find_slot s' e i = find_slot s e i"
proof (cases "find_slot s e i")
  case None
  with assms have "find_slot s' e i = None"
    by (simp add: find_slot_None_iff)
  with None show ?thesis by simp
next
  case (Some k)
  with assms have "find_slot s' e i = Some k"
    by (simp add: find_slot_Some_iff)
  with Some show ?thesis by simp
qed

lemma dom_shadow_map: "shadow_wf s \<Longrightarrow> dom (shadow_map s) = enc ` set (take (count s) (slots s))"
  by (auto simp: shadow_map_def dom_map_of_conv_image_fst image_image)

lemma find_slot_map:
  assumes wf: "shadow_wf s"
  shows "shadow_map s e = map_option (\<lambda>i. val (slots s ! i)) (find_slot s e 0)"
proof (cases "find_slot s e 0")
  case None
  then have "e \<notin> enc ` set (take (count s) (slots s))"
    by (auto simp: find_slot_None_iff in_set_conv_nth) blast
  with wf None show ?thesis
    by (metis domIff dom_shadow_map option.map(1))
next
  case (Some i)
  then have i: "i < count s" "enc (slots s ! i) = e"
    by (auto simp: find_slot_Some_iff)
  let ?xs = "map slot_pair (take (count s) (slots s))"
  have "i < length ?xs" and "?xs ! i = (e, val (slots s ! i))"
    using wf i by (auto simp: shadow_wf_def slot_pair_def)
  then have "(e, val (slots s ! i)) \<in> set ?xs"
    by (metis nth_mem)
  moreover have "distinct (map fst ?xs)"
    using wf by (simp add: shadow_wf_def comp_def)
  ultimately show ?thesis
    using Some by (simp add: shadow_map_def)
qed

section \<open>The operations implement the contract\<close>

lemma shadow_read_map: "shadow_wf s \<Longrightarrow> shadow_read s e = (case shadow_map s e of None \<Rightarrow> 0 | Some v \<Rightarrow> v)"
  by (simp add: shadow_read_def find_slot_map split: option.splits)

lemma card_dom_shadow_map:
  assumes "shadow_wf s"
  shows "card (dom (shadow_map s)) = count s"
proof -
  have "card (enc ` set (take (count s) (slots s))) = length (map enc (take (count s) (slots s)))"
    using assms distinct_card [of "map enc (take (count s) (slots s))"] by (simp add: shadow_wf_def)
  with assms show ?thesis
    by (simp add: dom_shadow_map shadow_wf_def)
qed

lemma finite_dom_shadow_map: "finite (dom (shadow_map s))"
  by (simp add: shadow_map_def finite_dom_map_of)

lemma shadow_write_hit:
  assumes "shadow_wf s" and "find_slot s e 0 = Some i"
  shows "shadow_wf (snd (shadow_write s e v))"
    and "shadow_map (snd (shadow_write s e v)) = (shadow_map s)(e \<mapsto> v)"
    and "fst (shadow_write s e v)"
proof -
  from assms(2) have i: "i < count s" "enc (slots s ! i) = e"
    by (auto simp: find_slot_Some_iff)
  let ?s' = "s\<lparr>slots := (slots s)[i := (slots s ! i)\<lparr>val := v\<rparr>]\<rparr>"
  have w: "shadow_write s e v = (True, ?s')"
    using assms(2) by (simp add: shadow_write_def)
  have len: "i < length (slots s)"
    using assms(1) i by (simp add: shadow_wf_def)
  have encs: "map enc (take (count s) ((slots s)[i := (slots s ! i)\<lparr>val := v\<rparr>]))
            = map enc (take (count s) (slots s))"
    using len by (intro nth_equalityI) (auto simp: nth_list_update)
  from assms(1) encs have wf': "shadow_wf ?s'"
    by (simp add: shadow_wf_def)
  have find': "find_slot ?s' e' 0 = find_slot s e' 0" for e'
    using len by (intro find_slot_cong) (simp_all add: nth_list_update)
  have "shadow_map ?s' e' = ((shadow_map s)(e \<mapsto> v)) e'" for e'
  proof (cases "find_slot s e' 0")
    case None
    with assms(2) have "e' \<noteq> e" by auto
    moreover have "shadow_map ?s' e' = None" and "shadow_map s e' = None"
      unfolding find_slot_map [OF wf'] find_slot_map [OF assms(1)] find' None by simp_all
    ultimately show ?thesis by simp
  next
    case (Some k)
    then have "enc (slots s ! k) = e'"
      by (simp add: find_slot_Some_iff)
    moreover have "k = i" if "e' = e"
      using Some assms(2) that by simp
    ultimately have "k = i \<longleftrightarrow> e' = e"
      using i(2) by metis
    moreover have "shadow_map ?s' e' = Some (val (slots ?s' ! k))"
      and "shadow_map s e' = Some (val (slots s ! k))"
      unfolding find_slot_map [OF wf'] find_slot_map [OF assms(1)] find' Some by simp_all
    ultimately show ?thesis
      using len by (cases "k = i") simp_all
  qed
  then have m: "shadow_map ?s' = (shadow_map s)(e \<mapsto> v)"
    by blast
  show "shadow_wf (snd (shadow_write s e v))"
    and "shadow_map (snd (shadow_write s e v)) = (shadow_map s)(e \<mapsto> v)"
    and "fst (shadow_write s e v)"
    using w wf' m by simp_all
qed

lemma shadow_write_append:
  assumes "shadow_wf s" and "find_slot s e 0 = None" and "count s < MaxFields"
  shows "shadow_wf (snd (shadow_write s e v))"
    and "shadow_map (snd (shadow_write s e v)) = (shadow_map s)(e \<mapsto> v)"
    and "fst (shadow_write s e v)"
proof -
  let ?s' = "s\<lparr>slots := (slots s)[count s := \<lparr>enc = e, val = v\<rparr>], count := Suc (count s)\<rparr>"
  have w: "shadow_write s e v = (True, ?s')"
    using assms(2,3) by (simp add: shadow_write_def)
  have len: "count s < length (slots s)"
    using assms(1,3) by (simp add: shadow_wf_def)
  have tk: "take (Suc (count s)) ((slots s)[count s := \<lparr>enc = e, val = v\<rparr>])
          = take (count s) (slots s) @ [\<lparr>enc = e, val = v\<rparr>]"
    using len by (simp add: take_Suc_conv_app_nth)
  have new: "e \<notin> enc ` set (take (count s) (slots s))"
    using assms(1,2) by (metis domIff dom_shadow_map find_slot_map option.map(1))
  from assms(1,3) tk new have wf': "shadow_wf ?s'"
    by (simp add: shadow_wf_def)
  have "shadow_map ?s' e' = ((shadow_map s)(e \<mapsto> v)) e'" for e'
    using new assms(1) tk
    by (auto simp: shadow_map_def map_of_append_Some slot_pair_def map_of_eq_None_iff image_image
        simp del: map_of_append split: option.splits) (metis domIff dom_shadow_map option.distinct(1) shadow_map_def)+
  then have m: "shadow_map ?s' = (shadow_map s)(e \<mapsto> v)"
    by blast
  show "shadow_wf (snd (shadow_write s e v))"
    and "shadow_map (snd (shadow_write s e v)) = (shadow_map s)(e \<mapsto> v)"
    and "fst (shadow_write s e v)"
    using w wf' m by simp_all
qed

lemma shadow_write_full:
  assumes "find_slot s e 0 = None" and "MaxFields \<le> count s"
  shows "shadow_write s e v = (False, s)"
  using assms by (simp add: shadow_write_def)

lemma shadow_write_ok_iff:
  assumes "shadow_wf s"
  shows "fst (shadow_write s e v) \<longleftrightarrow> e \<in> dom (shadow_map s) \<or> card (dom (shadow_map s)) < MaxFields"
proof -
  have "e \<in> dom (shadow_map s) \<longleftrightarrow> find_slot s e 0 \<noteq> None"
    using assms by (auto simp: find_slot_map dom_def)
  with assms show ?thesis
    by (auto simp: shadow_write_def card_dom_shadow_map split: option.splits)
qed

lemma shadow_wf_write: "shadow_wf s \<Longrightarrow> shadow_wf (snd (shadow_write s e v))"
  by (metis not_le option.exhaust shadow_write_append(1) shadow_write_full shadow_write_hit(1) snd_conv)

lemma shadow_map_write:
  assumes "shadow_wf s"
  shows "shadow_map (snd (shadow_write s e v)) =
         (if fst (shadow_write s e v) then (shadow_map s)(e \<mapsto> v) else shadow_map s)"
  using assms shadow_write_hit shadow_write_append shadow_write_full
  by (metis fst_conv not_le option.exhaust snd_conv)

lemma shadow_wf_new: "shadow_wf new_shadow"
  by (simp add: shadow_wf_def new_shadow_def)

lemma shadow_wf_reset: "shadow_wf s \<Longrightarrow> shadow_wf (shadow_reset s)"
  by (simp add: shadow_wf_def shadow_reset_def)

lemma shadow_wf_setLaunched: "shadow_wf s \<Longrightarrow> shadow_wf (setLaunched s b)"
  by (simp add: shadow_wf_def setLaunched_def)

lemma shadow_map_new: "shadow_map new_shadow = Map.empty"
  by (simp add: shadow_map_def new_shadow_def)

lemma shadow_map_setLaunched [simp]: "shadow_map (setLaunched s b) = shadow_map s"
  by (simp add: shadow_map_def setLaunched_def)

lemma find_slot_setLaunched [simp]: "find_slot (setLaunched s b) e i = find_slot s e i"
  by (rule find_slot_cong) (simp_all add: setLaunched_def)

lemma shadow_read_setLaunched [simp]: "shadow_read (setLaunched s b) e = shadow_read s e"
  by (simp add: shadow_read_def setLaunched_def [of s b] split: option.splits)
    (simp add: find_slot_setLaunched [unfolded setLaunched_def])

lemma launched_write [simp]: "launched (snd (shadow_write s e v)) = launched s"
  by (simp add: shadow_write_def split: option.splits)

section \<open>The interface its clients use\<close>

text \<open>
  What the translation and the emulator rely on: a bounded store that reads back the last
  successful write of an encoding, and in which a write fails, without effect, only when it would
  add an encoding to a full store. The client lemmas are about a sequence of writes whose results
  are discarded, which is how the translation uses the store.
\<close>

locale encoding_store =
  fixes rd :: "'s \<Rightarrow> u32 \<Rightarrow> u64"
    and wr :: "'s \<Rightarrow> u32 \<Rightarrow> u64 \<Rightarrow> bool \<times> 's"
    and ok :: "'s \<Rightarrow> bool"
    and keys :: "'s \<Rightarrow> u32 set"
    and cap :: nat
  assumes finite_keys: "finite (keys s)"
    and card_keys: "ok s \<Longrightarrow> card (keys s) \<le> cap"
    and ok_wr: "ok s \<Longrightarrow> ok (snd (wr s e v))"
    and wr_ok_iff: "ok s \<Longrightarrow> fst (wr s e v) \<longleftrightarrow> e \<in> keys s \<or> card (keys s) < cap"
    and keys_wr: "ok s \<Longrightarrow> keys (snd (wr s e v)) = (if fst (wr s e v) then insert e (keys s) else keys s)"
    and rd_wr: "ok s \<Longrightarrow> rd (snd (wr s e v)) e' = (if fst (wr s e v) \<and> e' = e then v else rd s e')"
begin

lemma ok_writes: "ok s \<Longrightarrow> ok (fold (\<lambda>(e, v) s. snd (wr s e v)) kvs s)"
  by (rule fold_preserves) (auto simp: ok_wr)

lemma rd_writes_other:
  assumes "ok s" and "e \<notin> fst ` set kvs"
  shows "rd (fold (\<lambda>(e, v) s. snd (wr s e v)) kvs s) e = rd s e"
  using assms by (induction kvs arbitrary: s) (auto simp: ok_wr rd_wr)

lemma wr_with_room:
  assumes "ok s" and "card (insert e (keys s)) \<le> cap"
  shows "fst (wr s e v)"
  using assms finite_keys [of s] by (auto simp: wr_ok_iff card_insert_if split: if_splits)

lemma writes_with_room:
  assumes "ok s" and "card (keys s \<union> fst ` set kvs) \<le> cap"
  shows "rd (fold (\<lambda>(e, v) s. snd (wr s e v)) kvs s) e =
           (case map_of (rev kvs) e of None \<Rightarrow> rd s e | Some v \<Rightarrow> v)"
    and "keys (fold (\<lambda>(e, v) s. snd (wr s e v)) kvs s) = keys s \<union> fst ` set kvs"
proof -
  have "rd (fold (\<lambda>(e, v) s. snd (wr s e v)) kvs s) e =
           (case map_of (rev kvs) e of None \<Rightarrow> rd s e | Some v \<Rightarrow> v)
      \<and> keys (fold (\<lambda>(e, v) s. snd (wr s e v)) kvs s) = keys s \<union> fst ` set kvs"
    using assms
  proof (induction kvs arbitrary: s)
    case Nil
    then show ?case by simp
  next
    case (Cons kv kvs)
    obtain k v where kv: "kv = (k, v)" by force
    have "card (insert k (keys s)) \<le> card (keys s \<union> fst ` set (kv # kvs))"
      by (rule card_mono) (auto simp: kv finite_keys)
    with Cons.prems have w: "fst (wr s k v)"
      by (simp add: wr_with_room)
    let ?s' = "snd (wr s k v)"
    have k': "keys ?s' = insert k (keys s)"
      using Cons.prems(1) w by (simp add: keys_wr)
    have "ok ?s'" and "card (keys ?s' \<union> fst ` set kvs) \<le> cap"
      using Cons.prems by (simp_all add: ok_wr k' kv)
    note IH = Cons.IH [OF this]
    show ?case
      using IH Cons.prems(1) w
      by (auto simp: kv k' rd_wr map_of_append_Some simp del: map_of_append split: option.splits)
  qed
  then show "rd (fold (\<lambda>(e, v) s. snd (wr s e v)) kvs s) e =
           (case map_of (rev kvs) e of None \<Rightarrow> rd s e | Some v \<Rightarrow> v)"
    and "keys (fold (\<lambda>(e, v) s. snd (wr s e v)) kvs s) = keys s \<union> fst ` set kvs"
    by blast+
qed

lemma full_store_drops:
  assumes "ok s" and "card (keys s) = cap" and "e \<notin> keys s"
  shows "rd (fold (\<lambda>(e, v) s. snd (wr s e v)) kvs s) e = rd s e"
    and "keys (fold (\<lambda>(e, v) s. snd (wr s e v)) kvs s) = keys s"
proof -
  have "rd (fold (\<lambda>(e, v) s. snd (wr s e v)) kvs s) e = rd s e
      \<and> keys (fold (\<lambda>(e, v) s. snd (wr s e v)) kvs s) = keys s"
    using assms
  proof (induction kvs arbitrary: s)
    case Nil
    then show ?case by simp
  next
    case (Cons kv kvs)
    obtain k v where kv: "kv = (k, v)" by force
    let ?s' = "snd (wr s k v)"
    have "keys ?s' = keys s" and "rd ?s' e = rd s e" and "ok ?s'"
      using Cons.prems by (auto simp: keys_wr rd_wr wr_ok_iff ok_wr)
    with Cons.IH [of ?s'] Cons.prems show ?case
      by (simp add: kv)
  qed
  then show "rd (fold (\<lambda>(e, v) s. snd (wr s e v)) kvs s) e = rd s e"
    and "keys (fold (\<lambda>(e, v) s. snd (wr s e v)) kvs s) = keys s"
    by blast+
qed

end

interpretation shadow: encoding_store shadow_read shadow_write shadow_wf "\<lambda>s. dom (shadow_map s)" MaxFields
proof unfold_locales
  fix s e e' v
  show "finite (dom (shadow_map s))"
    by (rule finite_dom_shadow_map)
  assume wf: "shadow_wf s"
  show "card (dom (shadow_map s)) \<le> MaxFields"
    using wf by (simp add: card_dom_shadow_map) (simp add: shadow_wf_def)
  show "shadow_wf (snd (shadow_write s e v))"
    using wf by (rule shadow_wf_write)
  show "fst (shadow_write s e v) \<longleftrightarrow> e \<in> dom (shadow_map s) \<or> card (dom (shadow_map s)) < MaxFields"
    using wf by (rule shadow_write_ok_iff)
  show "dom (shadow_map (snd (shadow_write s e v))) =
      (if fst (shadow_write s e v) then insert e (dom (shadow_map s)) else dom (shadow_map s))"
    using wf by (simp add: shadow_map_write)
  show "shadow_read (snd (shadow_write s e v)) e' =
      (if fst (shadow_write s e v) \<and> e' = e then v else shadow_read s e')"
    using wf by (simp add: shadow_read_map shadow_wf_write shadow_map_write)
qed

section \<open>A full store\<close>

text \<open>All 256 slots in use, with the encodings 0 to 255: an input for the witnesses.\<close>

definition full_shadow :: shadow_vmcs where
  "full_shadow = \<lparr>slots = map (\<lambda>i. \<lparr>enc = of_nat i, val = 0\<rparr>) [0..<MaxFields], count = MaxFields, launched = False\<rparr>"

lemma shadow_wf_full: "shadow_wf full_shadow"
proof -
  have "inj_on (of_nat :: nat \<Rightarrow> u32) {0..<256}"
    by (rule inj_onI) (simp add: word_unat_eq_iff unat_of_nat)
  then show ?thesis
    by (simp add: shadow_wf_def full_shadow_def MaxFields_def distinct_map comp_def)
qed

lemma dom_full_shadow: "dom (shadow_map full_shadow) = of_nat ` {0..<256}"
  by (simp add: dom_shadow_map [OF shadow_wf_full]) (simp add: full_shadow_def MaxFields_def image_image)

lemma card_full_shadow: "card (dom (shadow_map full_shadow)) = MaxFields"
  using shadow_wf_full by (simp add: card_dom_shadow_map) (simp add: full_shadow_def)

lemma not_in_full_shadow:
  assumes "256 \<le> unat e"
  shows "e \<notin> dom (shadow_map full_shadow)"
proof
  assume "e \<in> dom (shadow_map full_shadow)"
  then obtain i :: nat where "i < 256" "e = of_nat i"
    by (auto simp: dom_full_shadow)
  then have "unat e = i"
    by (simp add: unat_of_nat)
  with \<open>i < 256\<close> assms show False by simp
qed

end
