(* ===== verification/ShadowProps.thy ===== *)
theory ShadowProps
  imports ShadowVmcs
begin

text \<open>
  The shadow VMCS seen from outside: every sequence of calls on the array is a sequence of calls on
  a partial map with 256 entries, the first 256 encodings win, and the fields the plugin names
  always fit.
\<close>

section \<open>The abstract store\<close>

datatype store_call = CallWrite u32 u64 | CallReset | CallSetLaunched bool

fun store_step :: "store_call \<Rightarrow> shadow_vmcs \<Rightarrow> shadow_vmcs" where
  "store_step (CallWrite e v) s = snd (shadow_write s e v)"
| "store_step CallReset s = shadow_reset s"
| "store_step (CallSetLaunched b) s = setLaunched s b"

definition spec_write :: "(u32 \<rightharpoonup> u64) \<Rightarrow> u32 \<Rightarrow> u64 \<Rightarrow> bool \<times> (u32 \<rightharpoonup> u64)" where
  "spec_write m e v =
     (if e \<in> dom m \<or> card (dom m) < 256 then (True, m(e \<mapsto> v)) else (False, m))"

fun spec_step :: "store_call \<Rightarrow> (u32 \<rightharpoonup> u64) \<times> bool \<Rightarrow> (u32 \<rightharpoonup> u64) \<times> bool" where
  "spec_step (CallWrite e v) (m, l) = (snd (spec_write m e v), l)"
| "spec_step CallReset (m, l) = (Map.empty, False)"
| "spec_step (CallSetLaunched b) (m, l) = (m, b)"

definition store_abs :: "shadow_vmcs \<Rightarrow> (u32 \<rightharpoonup> u64) \<times> bool" where
  "store_abs s = (shadow_map s, isLaunched s)"

lemma spec_write_shadow:
  assumes "shadow_wf s"
  shows "spec_write (shadow_map s) e v = (fst (shadow_write s e v), shadow_map (snd (shadow_write s e v)))"
  using shadow_write_ok_iff [OF assms, of e v] shadow_map_write [OF assms, of e v]
  by (auto simp: spec_write_def MaxFields_def)

lemma shadow_map_reset [simp]: "shadow_map (shadow_reset s) = Map.empty"
  by (simp add: shadow_map_def shadow_reset_def)

lemma store_step_sim:
  assumes "shadow_wf s"
  shows "shadow_wf (store_step c s) \<and> store_abs (store_step c s) = spec_step c (store_abs s)"
  using assms
  by (cases c)
    (auto simp: store_abs_def spec_write_shadow shadow_wf_write shadow_wf_reset shadow_wf_setLaunched
      isLaunched_def, auto simp: shadow_reset_def setLaunched_def)

lemma store_steps_sim:
  assumes "shadow_wf s"
  shows "shadow_wf (fold store_step cs s) \<and> store_abs (fold store_step cs s) = fold spec_step cs (store_abs s)"
  using assms
proof (induction cs arbitrary: s)
  case Nil
  then show ?case by simp
next
  case (Cons c cs)
  with store_step_sim [OF Cons.prems, of c] show ?case by simp
qed

text \<open>
  C3: the linear array refines a bounded map. After any sequence of writes, resets and launch-state
  changes from a fresh store, the contents and the launch flag are those of the specification run on
  the same calls; a further write succeeds exactly when the specification's does, and a read gives
  the mapped value, or 0 for an encoding that was never written.
\<close>

theorem shadow_store_refines_map:
  fixes cs :: "store_call list"
  defines "s \<equiv> fold store_step cs new_shadow" and "m \<equiv> fold spec_step cs (Map.empty, False)"
  shows "(shadow_map s, isLaunched s) = m
    \<and> fst (shadow_write s e v) = fst (spec_write (fst m) e v)
    \<and> shadow_map (snd (shadow_write s e v)) = snd (spec_write (fst m) e v)
    \<and> shadow_read s e = (case fst m e of None \<Rightarrow> 0 | Some x \<Rightarrow> x)"
proof -
  have "store_abs new_shadow = (Map.empty, False)"
    by (simp add: store_abs_def shadow_map_new) (simp add: isLaunched_def new_shadow_def)
  with store_steps_sim [OF shadow_wf_new, of cs] have wf: "shadow_wf s" and m: "m = (shadow_map s, isLaunched s)"
    by (simp_all add: s_def m_def store_abs_def)
  show ?thesis
    by (simp add: m spec_write_shadow [OF wf] shadow_read_map [OF wf])
qed

section \<open>Capacity\<close>

lemma shadow_writes_map:
  assumes "shadow_wf s" and "distinct (map fst kvs)" and "fst ` set kvs \<inter> dom (shadow_map s) = {}"
  shows "shadow_map (fold (\<lambda>(e, v) s. snd (shadow_write s e v)) kvs s) =
    shadow_map s ++ map_of (take (MaxFields - card (dom (shadow_map s))) kvs)"
  using assms
proof (induction kvs arbitrary: s)
  case Nil
  then show ?case by simp
next
  case (Cons kv kvs)
  obtain e v where kv: "kv = (e, v)" by force
  let ?s = "snd (shadow_write s e v)"
  have new: "e \<notin> dom (shadow_map s)" and rest: "e \<notin> fst ` set kvs"
    using Cons.prems(2,3) by (auto simp: kv)
  have wf: "shadow_wf ?s"
    using Cons.prems(1) by (rule shadow_wf_write)
  show ?case
  proof (cases "card (dom (shadow_map s)) < MaxFields")
    case True
    then have m: "shadow_map ?s = (shadow_map s)(e \<mapsto> v)"
      using Cons.prems(1) by (simp add: shadow_map_write shadow_write_ok_iff)
    have card: "card (dom (shadow_map ?s)) = Suc (card (dom (shadow_map s)))"
      using new by (simp add: m finite_dom_shadow_map)
    let ?n = "MaxFields - card (dom (shadow_map ?s))"
    have n: "MaxFields - card (dom (shadow_map s)) = Suc ?n"
      using True by (simp add: card)
    define rest_map where "rest_map = map_of (take ?n kvs)"
    have "e \<notin> dom rest_map"
      using rest set_take_subset [of ?n kvs] by (auto simp: rest_map_def dom_map_of_conv_image_fst)
    then have upd: "(shadow_map s)(e \<mapsto> v) ++ rest_map = (shadow_map s ++ rest_map)(e \<mapsto> v)"
      by (rule map_add_upd_left)
    have "distinct (map fst kvs)" and "fst ` set kvs \<inter> dom (shadow_map ?s) = {}"
      using Cons.prems(2,3) rest by (auto simp: m kv)
    from Cons.IH [OF wf this] have "shadow_map (fold (\<lambda>(e, v) s. snd (shadow_write s e v)) kvs ?s) =
        shadow_map ?s ++ rest_map"
      by (simp only: rest_map_def)
    also have "\<dots> = (shadow_map s ++ rest_map)(e \<mapsto> v)"
      using upd by (simp only: m)
    finally have "shadow_map (fold (\<lambda>(e, v) s. snd (shadow_write s e v)) kvs ?s) =
        (shadow_map s ++ map_of (take ?n kvs))(e \<mapsto> v)"
      by (simp only: rest_map_def)
    then show ?thesis
      by (simp add: kv n fun_eq_iff map_add_def)
  next
    case False
    then have "\<not> fst (shadow_write s e v)"
      using new Cons.prems(1) by (simp add: shadow_write_ok_iff)
    then have m: "shadow_map ?s = shadow_map s"
      using Cons.prems(1) by (simp add: shadow_map_write)
    have "fst ` set kvs \<inter> dom (shadow_map ?s) = {}"
      using Cons.prems(3) by (auto simp: m)
    with Cons.IH [OF wf] Cons.prems(2) False show ?thesis
      by (simp add: kv m)
  qed
qed

text \<open>
  the store keeps the first 256 encodings. Writing any list of distinct encodings to a fresh
  store leaves exactly the first 256 of them, with their values; everything after that is dropped
  and reads as 0.
\<close>

theorem first_256_encodings_win:
  assumes "distinct (map fst kvs)"
  defines "s \<equiv> fold (\<lambda>(e, v) s. snd (shadow_write s e v)) kvs new_shadow"
  shows "shadow_map s = map_of (take 256 kvs) \<and> (\<forall>e \<in> fst ` set (drop 256 kvs). shadow_read s e = 0)"
proof -
  have m: "shadow_map s = map_of (take 256 kvs)"
    using shadow_writes_map [OF shadow_wf_new assms(1)] by (simp add: s_def shadow_map_new MaxFields_def)
  have wf: "shadow_wf s"
    unfolding s_def by (rule shadow.ok_writes [OF shadow_wf_new])
  have "distinct (map fst (take 256 kvs @ drop 256 kvs))"
    using assms(1) by simp
  then have "map_of (take 256 kvs) e = None" if "e \<in> fst ` set (drop 256 kvs)" for e
    using that unfolding map_append distinct_append by (auto simp: map_of_eq_None_iff)
  with m show ?thesis
    by (simp add: shadow_read_map [OF wf])
qed

theorem first_256_encodings_win_witness:
  "shadow_read (fold (\<lambda>(e, v) s. snd (shadow_write s e v))
     (map (\<lambda>n. (of_nat n, of_nat n + 1)) [0..<300]) new_shadow) 280 = 0"
proof -
  let ?kvs = "map (\<lambda>n. (of_nat n, of_nat n + 1)) [0..<300] :: (u32 \<times> u64) list"
  have "inj_on (of_nat :: nat \<Rightarrow> u32) {0..<300}"
    by (rule inj_onI) (simp add: word_unat_eq_iff unat_of_nat)
  then have d: "distinct (map fst ?kvs)"
    by (simp add: distinct_map comp_def)
  have "drop 256 ?kvs = map (\<lambda>n. (of_nat n, of_nat n + 1)) [256..<300]"
    by (simp add: drop_map)
  moreover have "(280 :: u32) \<in> of_nat ` {256..<300}"
    by (rule image_eqI [of _ _ 280]) simp_all
  ultimately have "280 \<in> fst ` set (drop 256 ?kvs)"
    by (simp add: image_image)
  with first_256_encodings_win [OF d] show ?thesis by blast
qed

text \<open>
  the fields the plugin knows by name never compete for space. As long as only named fields
  have been written, a write of any named field succeeds, is read back, and disturbs no other.
\<close>

theorem named_fields_always_fit:
  assumes "shadow_wf s" and "dom (shadow_map s) \<subseteq> range vmcs_enc"
  shows "fst (shadow_write s (vmcs_enc f) v)
    \<and> shadow_read (snd (shadow_write s (vmcs_enc f) v)) (vmcs_enc g) =
        (if g = f then v else shadow_read s (vmcs_enc g))
    \<and> dom (shadow_map (snd (shadow_write s (vmcs_enc f) v))) \<subseteq> range vmcs_enc"
proof -
  have "range vmcs_enc = vmcs_enc ` set (enum_class.enum :: vmcs_field list)"
    by (simp add: UNIV_enum)
  then have "card (range vmcs_enc) \<le> length (enum_class.enum :: vmcs_field list)"
    by (metis card_image_le card_length finite_set le_trans)
  also have "\<dots> < MaxFields"
    by (simp add: enum_vmcs_field_def MaxFields_def)
  finally have "card (dom (shadow_map s)) < MaxFields"
    using card_mono [OF _ assms(2)] by (simp add: UNIV_enum)
  then have ok: "fst (shadow_write s (vmcs_enc f) v)"
    by (simp add: shadow_write_ok_iff [OF assms(1)])
  moreover have "dom (shadow_map (snd (shadow_write s (vmcs_enc f) v))) \<subseteq> range vmcs_enc"
    using ok assms(2) by (simp add: shadow_map_write [OF assms(1)])
  ultimately show ?thesis
    by (simp add: shadow.rd_wr [OF assms(1)])
qed

theorem named_fields_always_fit_witness:
  "fst (shadow_write new_shadow (vmcs_enc VMCS_GUEST_RIP) 0x1000)
    \<and> shadow_read (snd (shadow_write new_shadow (vmcs_enc VMCS_GUEST_RIP) 0x1000)) (vmcs_enc VMCS_GUEST_RIP) = 0x1000"
  using named_fields_always_fit [OF shadow_wf_new, of VMCS_GUEST_RIP "0x1000" VMCS_GUEST_RIP]
  by (simp add: shadow_map_new)

section \<open>The search loop ends, inside the array\<close>

text \<open>
  The loop as C runs it: \<open>n\<close> bounds the number of tests of its condition, and an index outside the
  array of the class is a fault (\<open>None\<close>, as is running out of \<open>n\<close>).
\<close>

primrec search_loop :: "nat \<Rightarrow> shadow_vmcs \<Rightarrow> u32 \<Rightarrow> nat \<Rightarrow> nat option option" where
  "search_loop 0 s e i = None"
| "search_loop (Suc n) s e i =
     (if i < count s then
        if length (slots s) \<le> i then None
        else if enc (slots s ! i) = e then Some (Some i)
        else search_loop n s e (Suc i)
      else Some None)"

lemma search_loop_find:
  assumes "shadow_wf s" and "count s < n + i" and "i \<le> count s"
  shows "search_loop n s e i = Some (find_slot s e i)"
  using assms(2,3)
proof (induction n arbitrary: i)
  case 0
  then show ?case by simp
next
  case (Suc n)
  with assms(1) show ?case
    by (simp add: find_slot.simps [of s e i] shadow_wf_def)
qed

text \<open>
  C28: on every store that any sequence of calls can produce, the search loop of \<open>read\<close> and \<open>write\<close>
  terminates for every encoding: within \<open>count + 1 \<le> 257\<close> tests it returns the slot the model's
  search returns, without ever indexing outside the array, and a slot it returns is one of the 256;
  when the store is not full, the slot a new encoding is appended to is inside the array as well.
\<close>

theorem store_search_terminates:
  fixes cs :: "store_call list"
  defines "s \<equiv> fold store_step cs new_shadow"
  shows "search_loop (Suc (count s)) s e 0 = Some (find_slot s e 0) \<and> Suc (count s) \<le> 257
    \<and> (case find_slot s e 0 of None \<Rightarrow> 0 | Some i \<Rightarrow> i) < length (slots s)
    \<and> (MaxFields \<le> count s \<or> count s < length (slots s))"
proof -
  have wf: "shadow_wf s"
    using store_steps_sim [OF shadow_wf_new, of cs] by (simp add: s_def)
  then have "search_loop (Suc (count s)) s e 0 = Some (find_slot s e 0)"
    by (intro search_loop_find) simp_all
  moreover have "(case find_slot s e 0 of None \<Rightarrow> 0 | Some i \<Rightarrow> i) < length (slots s)"
    using wf find_slot_Some_iff [of s e 0] by (auto simp: shadow_wf_def MaxFields_def split: option.split)
  ultimately show ?thesis
    using wf by (auto simp: shadow_wf_def MaxFields_def)
qed

end
