(* ===== verification/SvmHw.thy ===== *)
theory SvmHw
  imports AmdvPrelude
begin

text \<open>
  The AMD SVM vocabulary of \<^verbatim>\<open>src/SVM.h\<close>: CPUID leaves, MSRs, exit codes, the packed
  VMCB page with its named control fields and its state-save area, and the typed accessors to
  both. The page is modelled as the bytes it is: the source reads the same 4096 bytes through a
  packed struct and through absolute offsets, and both views are loads and stores here. Struct
  offsets are computed from the declared member sizes, not copied from the comments.
\<close>

section \<open>CPUID leaves, MSRs and feature bits\<close>

definition CPUID_VENDOR :: u32 where [hw_consts]: "CPUID_VENDOR = 0"
definition CPUID_EXT_MAX :: u32 where [hw_consts]: "CPUID_EXT_MAX = 0x80000000"
definition CPUID_EXT_FEATURES :: u32 where [hw_consts]: "CPUID_EXT_FEATURES = 0x80000001"
definition CPUID_SVM_FEATURES :: u32 where [hw_consts]: "CPUID_SVM_FEATURES = 0x8000000A"
definition CPUID_ECX_SVM :: u32 where [hw_consts]: "CPUID_ECX_SVM = flag 2"

definition SVM_FEATURE_NP :: u32 where [hw_consts]: "SVM_FEATURE_NP = flag 0"
definition SVM_FEATURE_LBRVIRT :: u32 where [hw_consts]: "SVM_FEATURE_LBRVIRT = flag 1"
definition SVM_FEATURE_SVML :: u32 where [hw_consts]: "SVM_FEATURE_SVML = flag 2"
definition SVM_FEATURE_NRIPS :: u32 where [hw_consts]: "SVM_FEATURE_NRIPS = flag 3"
definition SVM_FEATURE_TSCRATE :: u32 where [hw_consts]: "SVM_FEATURE_TSCRATE = flag 4"
definition SVM_FEATURE_VMCBCLEAN :: u32 where [hw_consts]: "SVM_FEATURE_VMCBCLEAN = flag 5"
definition SVM_FEATURE_FLUSHBYASID :: u32 where [hw_consts]: "SVM_FEATURE_FLUSHBYASID = flag 6"
definition SVM_FEATURE_DECODEASSIST :: u32 where [hw_consts]: "SVM_FEATURE_DECODEASSIST = flag 7"
definition SVM_FEATURE_PAUSEFILTER :: u32 where [hw_consts]: "SVM_FEATURE_PAUSEFILTER = flag 10"

definition MSR_EFER :: u32 where [hw_consts]: "MSR_EFER = 0xC0000080"
definition EFER_SVME :: u64 where [hw_consts]: "EFER_SVME = flag 12"
definition MSR_VM_CR :: u32 where [hw_consts]: "MSR_VM_CR = 0xC0010114"
definition VM_CR_DPD :: u64 where [hw_consts]: "VM_CR_DPD = flag 0"
definition VM_CR_R_INIT :: u64 where [hw_consts]: "VM_CR_R_INIT = flag 1"
definition VM_CR_DIS_A20M :: u64 where [hw_consts]: "VM_CR_DIS_A20M = flag 2"
definition VM_CR_LOCK :: u64 where [hw_consts]: "VM_CR_LOCK = flag 3"
definition VM_CR_SVMDIS :: u64 where [hw_consts]: "VM_CR_SVMDIS = flag 4"
definition MSR_VM_HSAVE_PA :: u32 where [hw_consts]: "MSR_VM_HSAVE_PA = 0xC0010117"

section \<open>Intercept bits and exit codes\<close>

definition INTERCEPT_INTR :: u32 where [hw_consts]: "INTERCEPT_INTR = flag 0"
definition INTERCEPT_CPUID :: u32 where [hw_consts]: "INTERCEPT_CPUID = flag 18"
definition INTERCEPT_HLT :: u32 where [hw_consts]: "INTERCEPT_HLT = flag 24"
definition INTERCEPT2_VMRUN :: u32 where [hw_consts]: "INTERCEPT2_VMRUN = flag 0"
definition INTERCEPT2_VMMCALL :: u32 where [hw_consts]: "INTERCEPT2_VMMCALL = flag 1"

definition VMEXIT_EXCP_BASE :: u64 where [hw_consts]: "VMEXIT_EXCP_BASE = 0x040"
definition VMEXIT_EXCP_LAST :: u64 where [hw_consts]: "VMEXIT_EXCP_LAST = 0x05F"
definition VMEXIT_INTR :: u64 where [hw_consts]: "VMEXIT_INTR = 0x060"
definition VMEXIT_NMI :: u64 where [hw_consts]: "VMEXIT_NMI = 0x061"
definition VMEXIT_CPUID :: u64 where [hw_consts]: "VMEXIT_CPUID = 0x072"
definition VMEXIT_HLT :: u64 where [hw_consts]: "VMEXIT_HLT = 0x078"
definition VMEXIT_IOIO :: u64 where [hw_consts]: "VMEXIT_IOIO = 0x07B"
definition VMEXIT_MSR :: u64 where [hw_consts]: "VMEXIT_MSR = 0x07C"
definition VMEXIT_VMMCALL :: u64 where [hw_consts]: "VMEXIT_VMMCALL = 0x081"
definition VMEXIT_NPF :: u64 where [hw_consts]: "VMEXIT_NPF = 0x400"
definition VMEXIT_INVALID :: u64 where [hw_consts]: "VMEXIT_INVALID = -1"

section \<open>Bytes of a page\<close>

type_synonym page = "nat \<Rightarrow> u8"

definition VMCB_SIZE :: nat where
  "VMCB_SIZE = 0x1000"

text \<open>Little-endian loads and stores of any byte-multiple width.\<close>

definition load_le :: "page \<Rightarrow> nat \<Rightarrow> 'a::len word" where
  "load_le m off =
     horner_sum of_bool 2 (map (\<lambda>k. bit (m (off + k div 8)) (k mod 8)) [0..<LENGTH('a)])"

definition store_le :: "page \<Rightarrow> nat \<Rightarrow> 'a::len word \<Rightarrow> page" where
  "store_le m off v =
     (\<lambda>a. if off \<le> a \<and> a < off + LENGTH('a) div 8 then ucast (drop_bit (8 * (a - off)) v) else m a)"

lemma bit_load_le_iff [bit_simps]:
  "bit (load_le m off :: 'a::len word) k \<longleftrightarrow> k < LENGTH('a) \<and> bit (m (off + k div 8)) (k mod 8)"
  by (auto simp: load_le_def bit_simps)

lemma load_store_same:
  assumes "8 dvd LENGTH('a::len)"
  shows "load_le (store_le m off (v :: 'a word)) off = v"
proof (rule bit_word_eqI)
  fix k assume k: "k < LENGTH('a)"
  with assms have "k div 8 < LENGTH('a) div 8"
    by (metis less_mult_imp_div_less dvd_mult_div_cancel mult.commute)
  with k show "bit (load_le (store_le m off v) off :: 'a word) k = bit v k"
    by (simp add: bit_simps store_le_def)
qed

lemma load_store_apart:
  assumes "8 dvd LENGTH('b::len)"
    and "off + LENGTH('a::len) div 8 \<le> off' \<or> off' + LENGTH('b) div 8 \<le> off"
  shows "(load_le (store_le m off (v :: 'a word)) off' :: 'b word) = load_le m off'"
proof (rule bit_word_eqI)
  fix k assume k: "k < LENGTH('b)"
  with assms(1) have "k div 8 < LENGTH('b) div 8"
    by (metis less_mult_imp_div_less dvd_mult_div_cancel mult.commute)
  with assms(2) have "store_le m off v (off' + k div 8) = m (off' + k div 8)"
    by (auto simp: store_le_def)
  with k show "bit (load_le (store_le m off v) off' :: 'b word) k = bit (load_le m off' :: 'b word) k"
    by (simp add: bit_simps)
qed

lemma store_le_outside:
  "a < off \<or> off + LENGTH('a::len) div 8 \<le> a \<Longrightarrow> store_le m off (v :: 'a word) a = m a"
  by (auto simp: store_le_def)

lemma load_le_cong:
  assumes "8 dvd LENGTH('a::len)" and "\<And>i. i < LENGTH('a) div 8 \<Longrightarrow> m (off + i) = m' (off + i)"
  shows "(load_le m off :: 'a word) = load_le m' off"
proof (rule bit_word_eqI)
  fix k assume k: "k < LENGTH('a)"
  with assms(1) have "k div 8 < LENGTH('a) div 8"
    by (metis less_mult_imp_div_less dvd_mult_div_cancel mult.commute)
  with assms(2) k show "bit (load_le m off :: 'a word) k = bit (load_le m' off :: 'a word) k"
    by (simp add: bit_simps)
qed

section \<open>The interface of a typed cell array\<close>

text \<open>
  What the code that fills a VMCB uses of the page: cells of a fixed width addressed by byte
  offset. A store reads back, leaves every cell it does not overlap alone, and changes no byte
  outside its own range. The client lemma is about a run of stores at offsets that do not
  overlap, in any order.
\<close>

locale byte_cells =
  fixes get :: "page \<Rightarrow> nat \<Rightarrow> 'v"
    and put :: "page \<Rightarrow> nat \<Rightarrow> 'v \<Rightarrow> page"
    and width :: nat
  assumes get_put: "get (put m off v) off = v"
    and get_put_apart: "off + width \<le> off' \<or> off' + width \<le> off \<Longrightarrow> get (put m off v) off' = get m off'"
    and put_outside: "a < off \<or> off + width \<le> a \<Longrightarrow> put m off v a = m a"
begin

lemma puts_outside:
  assumes "\<forall>(off, v) \<in> set ovs. a < off \<or> off + width \<le> a"
  shows "fold (\<lambda>(off, v) m. put m off v) ovs m a = m a"
  using assms by (induction ovs arbitrary: m) (auto simp: put_outside)

lemma puts_apart:
  assumes "\<forall>(off', v) \<in> set ovs. off + width \<le> off' \<or> off' + width \<le> off"
  shows "get (fold (\<lambda>(off, v) m. put m off v) ovs m) off = get m off"
  using assms
proof (induction ovs arbitrary: m)
  case Nil
  then show ?case by simp
next
  case (Cons ov ovs)
  then show ?case
    by (cases ov) (auto simp: get_put_apart)
qed

lemma puts_get:
  assumes "pairwise (\<lambda>x y. fst x + width \<le> fst y \<or> fst y + width \<le> fst x) (set ovs)"
    and "distinct ovs" and "(off, v) \<in> set ovs"
  shows "get (fold (\<lambda>(off, v) m. put m off v) ovs m) off = v"
  using assms
proof (induction ovs arbitrary: m)
  case Nil
  then show ?case by simp
next
  case (Cons ov ovs)
  show ?case
  proof (cases "ov = (off, v)")
    case True
    with Cons.prems have "\<forall>(off', v') \<in> set ovs. off + width \<le> off' \<or> off' + width \<le> off"
      by (fastforce simp: pairwise_def)
    with True show ?thesis
      by (simp add: puts_apart get_put)
  next
    case False
    with Cons show ?thesis
      by (simp add: pairwise_insert)
  qed
qed

end

definition vmcb_get64 :: "page \<Rightarrow> nat \<Rightarrow> u64" where "vmcb_get64 v off = load_le v off"
definition vmcb_set64 :: "page \<Rightarrow> nat \<Rightarrow> u64 \<Rightarrow> page" where "vmcb_set64 v off x = store_le v off x"
definition vmcb_get8 :: "page \<Rightarrow> nat \<Rightarrow> u8" where "vmcb_get8 v off = load_le v off"
definition vmcb_set8 :: "page \<Rightarrow> nat \<Rightarrow> u8 \<Rightarrow> page" where "vmcb_set8 v off x = store_le v off x"

interpretation cell64: byte_cells vmcb_get64 vmcb_set64 8
  by unfold_locales (auto simp: vmcb_get64_def vmcb_set64_def load_store_same load_store_apart store_le_outside)

interpretation cell8: byte_cells vmcb_get8 vmcb_set8 1
  by unfold_locales (auto simp: vmcb_get8_def vmcb_set8_def load_store_same load_store_apart store_le_outside)

section \<open>The packed structures\<close>

text \<open>The offset of a member of a packed struct: the sizes of the members declared before it.\<close>

fun offset_of :: "('m \<times> nat) list \<Rightarrow> 'm \<Rightarrow> nat" where
  "offset_of [] x = 0"
| "offset_of ((y, n) # ms) x = (if y = x then 0 else n + offset_of ms x)"

definition size_of :: "('m \<times> nat) list \<Rightarrow> nat" where
  "size_of ms = sum_list (map snd ms)"

datatype vmcb_member =
    intercept_cr | intercept_dr | intercept_exceptions | intercept_1 | intercept_2 | reserved_1
  | pause_filter_thresh | pause_filter_count | iopm_base_pa | msrpm_base_pa | tsc_offset
  | guest_asid | tlb_control | reserved_2 | v_intr | interrupt_shadow | exit_code | exit_info_1
  | exit_info_2 | exit_int_info | np_enable | reserved_3 | nested_cr3 | raw_tail

definition vmcb_t :: "(vmcb_member \<times> nat) list" where
  "vmcb_t =
    [(intercept_cr, 4), (intercept_dr, 4), (intercept_exceptions, 4), (intercept_1, 4),
     (intercept_2, 4), (reserved_1, 0x028), (pause_filter_thresh, 2), (pause_filter_count, 2),
     (iopm_base_pa, 8), (msrpm_base_pa, 8), (tsc_offset, 8), (guest_asid, 4), (tlb_control, 1),
     (reserved_2, 3), (v_intr, 8), (interrupt_shadow, 8), (exit_code, 8), (exit_info_1, 8),
     (exit_info_2, 8), (exit_int_info, 8), (np_enable, 8), (reserved_3, 0x18), (nested_cr3, 8),
     (raw_tail, VMCB_SIZE - 0xB8)]"

definition vmcb_off :: "vmcb_member \<Rightarrow> nat" where
  "vmcb_off x = offset_of vmcb_t x"

lemma vmcb_off_values [layout]:
  "vmcb_off intercept_cr = 0x000" "vmcb_off intercept_dr = 0x004"
  "vmcb_off intercept_exceptions = 0x008" "vmcb_off intercept_1 = 0x00C"
  "vmcb_off intercept_2 = 0x010" "vmcb_off reserved_1 = 0x014"
  "vmcb_off pause_filter_thresh = 0x03C" "vmcb_off pause_filter_count = 0x03E"
  "vmcb_off iopm_base_pa = 0x040" "vmcb_off msrpm_base_pa = 0x048" "vmcb_off tsc_offset = 0x050"
  "vmcb_off guest_asid = 0x058" "vmcb_off tlb_control = 0x05C" "vmcb_off reserved_2 = 0x05D"
  "vmcb_off v_intr = 0x060" "vmcb_off interrupt_shadow = 0x068" "vmcb_off exit_code = 0x070"
  "vmcb_off exit_info_1 = 0x078" "vmcb_off exit_info_2 = 0x080" "vmcb_off exit_int_info = 0x088"
  "vmcb_off np_enable = 0x090" "vmcb_off reserved_3 = 0x098" "vmcb_off nested_cr3 = 0x0B0"
  "vmcb_off raw_tail = 0x0B8"
  by (simp_all add: vmcb_off_def vmcb_t_def)

text \<open>The \<open>_Static_assert\<close> of the header: the struct is exactly one page.\<close>

lemma size_of_vmcb_t: "size_of vmcb_t = VMCB_SIZE"
  by (simp add: size_of_def vmcb_t_def VMCB_SIZE_def)

datatype seg_member = seg_selector | seg_attrib | seg_limit | seg_base

definition vmcb_seg_t :: "(seg_member \<times> nat) list" where
  "vmcb_seg_t = [(seg_selector, 2), (seg_attrib, 2), (seg_limit, 4), (seg_base, 8)]"

definition seg_off :: "nat \<Rightarrow> seg_member \<Rightarrow> nat" where
  "seg_off off x = off + offset_of vmcb_seg_t x"

lemma seg_off_values [layout]:
  "seg_off off seg_selector = off" "seg_off off seg_attrib = off + 2"
  "seg_off off seg_limit = off + 4" "seg_off off seg_base = off + 8"
  by (simp_all add: seg_off_def vmcb_seg_t_def)

lemma size_of_vmcb_seg_t: "size_of vmcb_seg_t = 16"
  by (simp add: size_of_def vmcb_seg_t_def)

section \<open>The state-save area\<close>

definition VMCB_STATE_SAVE_OFFSET :: nat where [layout]: "VMCB_STATE_SAVE_OFFSET = 0x400"
definition VMCB_SEG_ES :: nat where [layout]: "VMCB_SEG_ES = 0x400"
definition VMCB_SEG_CS :: nat where [layout]: "VMCB_SEG_CS = 0x410"
definition VMCB_SEG_SS :: nat where [layout]: "VMCB_SEG_SS = 0x420"
definition VMCB_SEG_DS :: nat where [layout]: "VMCB_SEG_DS = 0x430"
definition VMCB_SEG_FS :: nat where [layout]: "VMCB_SEG_FS = 0x440"
definition VMCB_SEG_GS :: nat where [layout]: "VMCB_SEG_GS = 0x450"
definition VMCB_SEG_GDTR :: nat where [layout]: "VMCB_SEG_GDTR = 0x460"
definition VMCB_SEG_LDTR :: nat where [layout]: "VMCB_SEG_LDTR = 0x470"
definition VMCB_SEG_IDTR :: nat where [layout]: "VMCB_SEG_IDTR = 0x480"
definition VMCB_SEG_TR :: nat where [layout]: "VMCB_SEG_TR = 0x490"
definition VMCB_CPL :: nat where [layout]: "VMCB_CPL = 0x4CB"
definition VMCB_EFER :: nat where [layout]: "VMCB_EFER = 0x4D0"
definition VMCB_CR4 :: nat where [layout]: "VMCB_CR4 = 0x548"
definition VMCB_CR3 :: nat where [layout]: "VMCB_CR3 = 0x550"
definition VMCB_CR0 :: nat where [layout]: "VMCB_CR0 = 0x558"
definition VMCB_DR7 :: nat where [layout]: "VMCB_DR7 = 0x560"
definition VMCB_DR6 :: nat where [layout]: "VMCB_DR6 = 0x568"
definition VMCB_RFLAGS :: nat where [layout]: "VMCB_RFLAGS = 0x570"
definition VMCB_RIP :: nat where [layout]: "VMCB_RIP = 0x578"
definition VMCB_RSP :: nat where [layout]: "VMCB_RSP = 0x5D8"
definition VMCB_RAX :: nat where [layout]: "VMCB_RAX = 0x5F8"
definition VMCB_STAR :: nat where [layout]: "VMCB_STAR = 0x600"
definition VMCB_LSTAR :: nat where [layout]: "VMCB_LSTAR = 0x608"
definition VMCB_CSTAR :: nat where [layout]: "VMCB_CSTAR = 0x610"
definition VMCB_SFMASK :: nat where [layout]: "VMCB_SFMASK = 0x618"
definition VMCB_KGSBASE :: nat where [layout]: "VMCB_KGSBASE = 0x620"
definition VMCB_SYSENTCS :: nat where [layout]: "VMCB_SYSENTCS = 0x628"
definition VMCB_SYSENTESP :: nat where [layout]: "VMCB_SYSENTESP = 0x630"
definition VMCB_SYSENTEIP :: nat where [layout]: "VMCB_SYSENTEIP = 0x638"
definition VMCB_CR2 :: nat where [layout]: "VMCB_CR2 = 0x640"
definition VMCB_GPAT :: nat where [layout]: "VMCB_GPAT = 0x668"
definition VMCB_CTL_EVENTINJ :: nat where [layout]: "VMCB_CTL_EVENTINJ = 0x0A8"
definition VMCB_CTL_NRIP :: nat where [layout]: "VMCB_CTL_NRIP = 0x0C8"

text \<open>
  Reads and writes through the struct view: a member of the control area, or a member of the
  segment slot at offset \<open>off\<close> (the pointer \<open>vmcb_seg(v, off)\<close>).
\<close>

definition vmcb_ld :: "page \<Rightarrow> vmcb_member \<Rightarrow> 'a::len word" where
  "vmcb_ld v x = load_le v (vmcb_off x)"

definition vmcb_st :: "page \<Rightarrow> vmcb_member \<Rightarrow> 'a::len word \<Rightarrow> page" where
  "vmcb_st v x w = store_le v (vmcb_off x) w"

definition seg_ld :: "page \<Rightarrow> nat \<Rightarrow> seg_member \<Rightarrow> 'a::len word" where
  "seg_ld v off x = load_le v (seg_off off x)"

definition seg_st :: "page \<Rightarrow> nat \<Rightarrow> seg_member \<Rightarrow> 'a::len word \<Rightarrow> page" where
  "seg_st v off x w = store_le v (seg_off off x) w"

lemmas vmcb_access_defs =
  vmcb_ld_def vmcb_st_def seg_ld_def seg_st_def vmcb_get64_def vmcb_set64_def

section \<open>Kernel memory and faults\<close>

type_synonym kmem = "u64 \<rightharpoonup> page"

text \<open>\<open>None\<close> is a dereference of a page that is not there: the kernel would panic.\<close>

type_synonym 'a kresult = "'a option"

section \<open>Event injection\<close>

definition EVENTINJ_TYPE_INTR :: u64 where [hw_consts]: "EVENTINJ_TYPE_INTR = 0"
definition EVENTINJ_TYPE_NMI :: u64 where [hw_consts]: "EVENTINJ_TYPE_NMI = 2"
definition EVENTINJ_TYPE_EXCEPT :: u64 where [hw_consts]: "EVENTINJ_TYPE_EXCEPT = 3"
definition EVENTINJ_TYPE_SOFT :: u64 where [hw_consts]: "EVENTINJ_TYPE_SOFT = 4"
definition EVENTINJ_EV :: u64 where [hw_consts]: "EVENTINJ_EV = flag 11"
definition EVENTINJ_VALID :: u64 where [hw_consts]: "EVENTINJ_VALID = flag 31"

definition eventinj_make :: "u8 \<Rightarrow> u64 \<Rightarrow> bool \<Rightarrow> u32 \<Rightarrow> u64" where
  "eventinj_make vector typ errValid errCode =
     (let e = ucast vector OR push_bit 8 typ OR EVENTINJ_VALID
      in if errValid then e OR (EVENTINJ_EV OR push_bit 32 (ucast errCode)) else e)"

lemma bit_eventinj_make:
  assumes "typ AND mask 3 = typ"
  shows "bit (eventinj_make vec typ ev err) k \<longleftrightarrow>
    (if k < 8 then bit vec k
     else if k < 11 then bit typ (k - 8)
     else if k = 11 then ev
     else if k = 31 then True
     else 32 \<le> k \<and> k < 64 \<and> ev \<and> bit err (k - 32))"
proof -
  have "bit typ j \<Longrightarrow> j < 3" for j
    using assms by (metis bit_and_iff bit_mask_iff)
  then show ?thesis
    by (auto simp: eventinj_make_def Let_def bit_simps EVENTINJ_EV_def EVENTINJ_VALID_def
        dest: bit_imp_le_length)
      (force dest: bit_imp_le_length)+
qed

end
