(* ===== verification/Translate.thy ===== *)
theory Translate
  imports ShadowVmcs SvmHw
begin

text \<open>
  \<^verbatim>\<open>src/kern_vmcs_vmcb.cpp\<close>: the segment access-rights conversions, the translation of a
  shadow VMCS into a VMCB ahead of \<open>VMRUN\<close>, the translation back after the exit, and the
  exit-code map. Each block of \<open>translateVmcsToVmcb\<close> is a definition of its own, composed in
  the order of the source. The guest state both structures describe is the abstract record
  \<open>guest_view\<close>; the translation is proved to implement the identity on it.
\<close>

section \<open>Segment access rights\<close>

definition vmxArToSvmAttrib :: "u32 \<Rightarrow> u16" where
  "vmxArToSvmAttrib vmxAr =
     (if vmxAr AND flag 16 \<noteq> 0 then 0
      else ucast ((vmxAr AND 0xFF) OR (drop_bit 4 vmxAr AND 0xF00)))"

definition svmAttribToVmxAr :: "u16 \<Rightarrow> u32" where
  "svmAttribToVmxAr svmAttrib =
     (if svmAttrib AND 0x80 = 0 then flag 16
      else ucast (svmAttrib AND 0xFF) OR push_bit 4 (ucast (svmAttrib AND 0xF00)))"

lemma mask_bits_FF: "(0xFF :: 'a::len word) = mask 8"
  by (simp add: mask_eq_exp_minus_1)

lemma mask_bits_F00: "(0xF00 :: 'a::len word) = push_bit 8 (mask 4)"
  by (simp add: mask_eq_exp_minus_1 push_bit_eq_mult)

lemma mask_bits_FFF: "(0xFFF :: 'a::len word) = mask 12"
  by (simp add: mask_eq_exp_minus_1)

lemma mask_bits_80: "(0x80 :: 'a::len word) = flag 7"
  by (simp add: flag_def push_bit_eq_mult)

lemma bit_vmxArToSvmAttrib:
  "bit (vmxArToSvmAttrib ar) k \<longleftrightarrow>
     \<not> bit ar 16 \<and> (if k < 8 then bit ar k else k < 12 \<and> bit ar (k + 4))"
  by (auto simp: vmxArToSvmAttrib_def and_flag_eq_0_iff mask_bits_FF mask_bits_F00 bit_simps add.commute)

lemma bit_svmAttribToVmxAr:
  "bit (svmAttribToVmxAr a) k \<longleftrightarrow>
     (if bit a 7 then (if k < 8 then bit a k else 12 \<le> k \<and> k < 16 \<and> bit a (k - 4)) else k = 16)"
  by (auto simp: svmAttribToVmxAr_def mask_bits_80 and_flag_eq_0_iff mask_bits_FF mask_bits_F00 bit_simps)

section \<open>The segment table\<close>

record seg_map =
  vmcbOff :: nat
  selEnc :: u32
  limitEnc :: u32
  baseEnc :: u32
  arEnc :: u32

definition kSegs :: "seg_map list" where
  "kSegs =
    [\<lparr>vmcbOff = VMCB_SEG_ES, selEnc = vmcs_enc VMCS_GUEST_ES_SELECTOR,
       limitEnc = vmcs_enc VMCS_GUEST_ES_LIMIT, baseEnc = vmcs_enc VMCS_GUEST_ES_BASE,
       arEnc = vmcs_enc VMCS_GUEST_ES_AR\<rparr>,
     \<lparr>vmcbOff = VMCB_SEG_CS, selEnc = vmcs_enc VMCS_GUEST_CS_SELECTOR,
       limitEnc = vmcs_enc VMCS_GUEST_CS_LIMIT, baseEnc = vmcs_enc VMCS_GUEST_CS_BASE,
       arEnc = vmcs_enc VMCS_GUEST_CS_AR\<rparr>,
     \<lparr>vmcbOff = VMCB_SEG_SS, selEnc = vmcs_enc VMCS_GUEST_SS_SELECTOR,
       limitEnc = vmcs_enc VMCS_GUEST_SS_LIMIT, baseEnc = vmcs_enc VMCS_GUEST_SS_BASE,
       arEnc = vmcs_enc VMCS_GUEST_SS_AR\<rparr>,
     \<lparr>vmcbOff = VMCB_SEG_DS, selEnc = vmcs_enc VMCS_GUEST_DS_SELECTOR,
       limitEnc = vmcs_enc VMCS_GUEST_DS_LIMIT, baseEnc = vmcs_enc VMCS_GUEST_DS_BASE,
       arEnc = vmcs_enc VMCS_GUEST_DS_AR\<rparr>,
     \<lparr>vmcbOff = VMCB_SEG_FS, selEnc = vmcs_enc VMCS_GUEST_FS_SELECTOR,
       limitEnc = vmcs_enc VMCS_GUEST_FS_LIMIT, baseEnc = vmcs_enc VMCS_GUEST_FS_BASE,
       arEnc = vmcs_enc VMCS_GUEST_FS_AR\<rparr>,
     \<lparr>vmcbOff = VMCB_SEG_GS, selEnc = vmcs_enc VMCS_GUEST_GS_SELECTOR,
       limitEnc = vmcs_enc VMCS_GUEST_GS_LIMIT, baseEnc = vmcs_enc VMCS_GUEST_GS_BASE,
       arEnc = vmcs_enc VMCS_GUEST_GS_AR\<rparr>,
     \<lparr>vmcbOff = VMCB_SEG_LDTR, selEnc = vmcs_enc VMCS_GUEST_LDTR_SELECTOR,
       limitEnc = vmcs_enc VMCS_GUEST_LDTR_LIMIT, baseEnc = vmcs_enc VMCS_GUEST_LDTR_BASE,
       arEnc = vmcs_enc VMCS_GUEST_LDTR_AR\<rparr>,
     \<lparr>vmcbOff = VMCB_SEG_TR, selEnc = vmcs_enc VMCS_GUEST_TR_SELECTOR,
       limitEnc = vmcs_enc VMCS_GUEST_TR_LIMIT, baseEnc = vmcs_enc VMCS_GUEST_TR_BASE,
       arEnc = vmcs_enc VMCS_GUEST_TR_AR\<rparr>]"

section \<open>VMCS to VMCB\<close>

abbreviation vread :: "shadow_vmcs \<Rightarrow> vmcs_field \<Rightarrow> u64" where
  "vread vmcs f \<equiv> shadow_read vmcs (vmcs_enc f)"

definition put_segment :: "shadow_vmcs \<Rightarrow> seg_map \<Rightarrow> page \<Rightarrow> page" where
  "put_segment vmcs s v =
     (let v = seg_st v (vmcbOff s) seg_selector (ucast (shadow_read vmcs (selEnc s)) :: u16);
          v = seg_st v (vmcbOff s) seg_limit (ucast (shadow_read vmcs (limitEnc s)) :: u32);
          v = seg_st v (vmcbOff s) seg_base (shadow_read vmcs (baseEnc s))
      in seg_st v (vmcbOff s) seg_attrib (vmxArToSvmAttrib (ucast (shadow_read vmcs (arEnc s)))))"

definition put_segments :: "shadow_vmcs \<Rightarrow> page \<Rightarrow> page" where
  "put_segments vmcs v =
     (let v = fold (put_segment vmcs) kSegs v;
          v = seg_st v VMCB_SEG_GDTR seg_base (vread vmcs VMCS_GUEST_GDTR_BASE);
          v = seg_st v VMCB_SEG_GDTR seg_limit (ucast (vread vmcs VMCS_GUEST_GDTR_LIMIT) :: u32);
          v = seg_st v VMCB_SEG_IDTR seg_base (vread vmcs VMCS_GUEST_IDTR_BASE)
      in seg_st v VMCB_SEG_IDTR seg_limit (ucast (vread vmcs VMCS_GUEST_IDTR_LIMIT) :: u32))"

definition put_registers :: "shadow_vmcs \<Rightarrow> page \<Rightarrow> page" where
  "put_registers vmcs v =
     (let v = vmcb_set64 v VMCB_CR0 (vread vmcs VMCS_GUEST_CR0);
          v = vmcb_set64 v VMCB_CR3 (vread vmcs VMCS_GUEST_CR3);
          v = vmcb_set64 v VMCB_CR4 (vread vmcs VMCS_GUEST_CR4);
          v = vmcb_set64 v VMCB_CR2 (vread vmcs VMCS_GUEST_CR2);
          v = vmcb_set64 v VMCB_RIP (vread vmcs VMCS_GUEST_RIP);
          v = vmcb_set64 v VMCB_RSP (vread vmcs VMCS_GUEST_RSP);
          v = vmcb_set64 v VMCB_RFLAGS (vread vmcs VMCS_GUEST_RFLAGS);
          v = vmcb_set64 v VMCB_GPAT (vread vmcs VMCS_GUEST_IA32_PAT)
      in vmcb_set64 v VMCB_EFER (vread vmcs VMCS_GUEST_IA32_EFER OR EFER_SVME))"

definition pin_controls :: "shadow_vmcs \<Rightarrow> u32" where
  "pin_controls vmcs = ucast (vread vmcs VMCS_PIN_EXEC_CONTROL)"

definition cpu_controls :: "shadow_vmcs \<Rightarrow> u32" where
  "cpu_controls vmcs = ucast (vread vmcs VMCS_CPU_EXEC_CONTROL)"

definition secondary_controls :: "shadow_vmcs \<Rightarrow> u32" where
  "secondary_controls vmcs =
     (if cpu_controls vmcs AND CPU_CTL_SECONDARY_CTLS \<noteq> 0
      then ucast (vread vmcs VMCS_SECONDARY_EXEC_CTL) else 0)"

definition put_intercepts :: "shadow_vmcs \<Rightarrow> page \<Rightarrow> page" where
  "put_intercepts vmcs v =
     (let i1 = 0;
          i1 = (if pin_controls vmcs AND PIN_CTL_EXT_INTR_EXITING \<noteq> 0 then i1 OR INTERCEPT_INTR else i1);
          i1 = (if cpu_controls vmcs AND CPU_CTL_HLT_EXITING \<noteq> 0 then i1 OR INTERCEPT_HLT else i1);
          v = vmcb_st v intercept_1 i1;
          v = vmcb_st v intercept_2 INTERCEPT2_VMRUN
      in vmcb_st v intercept_exceptions (ucast (vread vmcs VMCS_EXCEPTION_BITMAP) :: u32))"

text \<open>\<open>buildNptFromEpt\<close> reports \<open>not built\<close> (0) for every EPT pointer.\<close>

definition buildNptFromEpt :: "u64 \<Rightarrow> u64" where
  "buildNptFromEpt eptp = 0"

definition put_nested_paging :: "shadow_vmcs \<Rightarrow> page \<Rightarrow> page" where
  "put_nested_paging vmcs v =
     (if secondary_controls vmcs AND SEC_CTL_ENABLE_EPT \<noteq> 0 then
        (let v = vmcb_st v np_enable (1 :: u64);
             npt = buildNptFromEpt (vread vmcs VMCS_EPT_POINTER)
         in if npt \<noteq> 0 then vmcb_st v nested_cr3 npt
            else vmcb_st v nested_cr3 (vread vmcs VMCS_EPT_POINTER AND NOT 0xFFF))
      else
        (let v = vmcb_st v np_enable (0 :: u64)
         in vmcb_st v nested_cr3 (0 :: u64)))"

definition put_asid :: "shadow_vmcs \<Rightarrow> page \<Rightarrow> page" where
  "put_asid vmcs v =
     (let vpid = (if secondary_controls vmcs AND SEC_CTL_ENABLE_VPID \<noteq> 0
                  then ucast (vread vmcs VMCS_VIRTUAL_PROCESSOR_ID) else (0 :: u32))
      in vmcb_st v guest_asid (if vpid \<noteq> 0 then vpid else 1))"

definition svm_event_type :: "u32 \<Rightarrow> u64" where
  "svm_event_type t =
     (if t = vmx_intr_type VMX_INTR_TYPE_EXT then EVENTINJ_TYPE_INTR
      else if t = vmx_intr_type VMX_INTR_TYPE_NMI then EVENTINJ_TYPE_NMI
      else if t = vmx_intr_type VMX_INTR_TYPE_SW_INT then EVENTINJ_TYPE_SOFT
      else EVENTINJ_TYPE_EXCEPT)"

definition put_event :: "shadow_vmcs \<Rightarrow> page \<Rightarrow> page" where
  "put_event vmcs v =
     (let entryInfo = ucast (vread vmcs VMCS_VM_ENTRY_INTR_INFO) :: u32
      in if entryInfo AND VMX_ENTRY_INTR_VALID \<noteq> 0 then
           (let svmType = svm_event_type (vmxEntryType entryInfo);
                ev = (entryInfo AND VMX_ENTRY_INTR_DELIVER_EC \<noteq> 0);
                errCode = ucast (vread vmcs VMCS_VM_ENTRY_EXCEPTION_ERROR) :: u32
            in vmcb_set64 v VMCB_CTL_EVENTINJ
                 (eventinj_make (vmxEntryVector entryInfo) svmType ev errCode))
         else vmcb_set64 v VMCB_CTL_EVENTINJ 0)"

definition translateVmcsToVmcb :: "shadow_vmcs \<Rightarrow> page \<Rightarrow> page" where
  "translateVmcsToVmcb vmcs v =
     put_event vmcs
       (put_asid vmcs
         (put_nested_paging vmcs
           (put_intercepts vmcs
             (put_registers vmcs
               (put_segments vmcs v)))))"

section \<open>Exit codes\<close>

definition svmExitToVmxReason :: "u64 \<Rightarrow> u64 \<Rightarrow> vmx_exit_reason" where
  "svmExitToVmxReason code info1 =
     (if code = VMEXIT_CPUID then EXIT_CPUID
      else if code = VMEXIT_HLT then EXIT_HLT
      else if code = VMEXIT_VMMCALL then EXIT_VMCALL
      else if code = VMEXIT_IOIO then EXIT_IO_INSTRUCTION
      else if code = VMEXIT_MSR then (if info1 AND 1 \<noteq> 0 then EXIT_WRMSR else EXIT_RDMSR)
      else if code = VMEXIT_INTR then EXIT_EXTERNAL_INTERRUPT
      else if code = VMEXIT_NMI then EXIT_EXCEPTION_NMI
      else if code = VMEXIT_NPF then EXIT_EPT_VIOLATION
      else if code \<ge> VMEXIT_EXCP_BASE \<and> code \<le> VMEXIT_EXCP_LAST then EXIT_EXCEPTION_NMI
      else EXIT_UNKNOWN)"

section \<open>VMCB to VMCS\<close>

text \<open>The results of \<open>vmcs.write\<close> are discarded throughout.\<close>

definition shadow_writes :: "(u32 \<times> u64) list \<Rightarrow> shadow_vmcs \<Rightarrow> shadow_vmcs" where
  "shadow_writes kvs s = fold (\<lambda>(e, x) s. snd (shadow_write s e x)) kvs s"

definition exit_registers :: "page \<Rightarrow> (u32 \<times> u64) list" where
  "exit_registers v =
    [(vmcs_enc VMCS_GUEST_CR0, vmcb_get64 v VMCB_CR0),
     (vmcs_enc VMCS_GUEST_CR3, vmcb_get64 v VMCB_CR3),
     (vmcs_enc VMCS_GUEST_CR4, vmcb_get64 v VMCB_CR4),
     (vmcs_enc VMCS_GUEST_CR2, vmcb_get64 v VMCB_CR2),
     (vmcs_enc VMCS_GUEST_RIP, vmcb_get64 v VMCB_RIP),
     (vmcs_enc VMCS_GUEST_RSP, vmcb_get64 v VMCB_RSP),
     (vmcs_enc VMCS_GUEST_RFLAGS, vmcb_get64 v VMCB_RFLAGS),
     (vmcs_enc VMCS_GUEST_IA32_EFER, vmcb_get64 v VMCB_EFER AND NOT EFER_SVME)]"

definition exit_segment :: "page \<Rightarrow> seg_map \<Rightarrow> (u32 \<times> u64) list" where
  "exit_segment v s =
    [(selEnc s, ucast (seg_ld v (vmcbOff s) seg_selector :: u16)),
     (limitEnc s, ucast (seg_ld v (vmcbOff s) seg_limit :: u32)),
     (baseEnc s, seg_ld v (vmcbOff s) seg_base),
     (arEnc s, ucast (svmAttribToVmxAr (seg_ld v (vmcbOff s) seg_attrib)))]"

definition translateVmcbToVmcs :: "page \<Rightarrow> shadow_vmcs \<Rightarrow> u32 \<Rightarrow> shadow_vmcs" where
  "translateVmcbToVmcs v vmcs svmFeatures =
     (let vmcs = shadow_writes (exit_registers v) vmcs;
          vmcs = fold (\<lambda>s. shadow_writes (exit_segment v s)) kSegs vmcs;
          code = vmcb_ld v exit_code;
          reason = svmExitToVmxReason code (vmcb_ld v exit_info_1);
          vmcs = snd (shadow_write vmcs (vmcs_enc VMCS_VM_EXIT_REASON) (ucast (exit_reason_num reason)))
      in if svmFeatures AND SVM_FEATURE_NRIPS \<noteq> 0 then
           (let nrip = vmcb_get64 v VMCB_CTL_NRIP;
                rip = vmcb_get64 v VMCB_RIP
            in if nrip > rip
               then snd (shadow_write vmcs (vmcs_enc VMCS_VM_EXIT_INSTR_LEN) (nrip - rip))
               else vmcs)
         else vmcs)"

section \<open>The guest state both structures describe\<close>

record seg_view =
  sv_selector :: u16
  sv_attrib :: u16
  sv_limit :: u32
  sv_base :: u64

record guest_view =
  gv_segs :: "seg_view list"
  gv_gdtr :: "u32 \<times> u64"
  gv_idtr :: "u32 \<times> u64"
  gv_cr0 :: u64
  gv_cr2 :: u64
  gv_cr3 :: u64
  gv_cr4 :: u64
  gv_rip :: u64
  gv_rsp :: u64
  gv_rflags :: u64
  gv_efer :: u64
  gv_pat :: u64

text \<open>
  The two views below are the specification of the translation. They are stated from the processor
  manuals, in numbers, and share nothing with the code: field encodings and access rights of VMX
  (Intel SDM, volume 3, appendix B and 25.4.1), offsets and segment attributes of the VMCB (AMD APM,
  volume 2, appendix B). The segments are ES, CS, SS, DS, FS, GS, LDTR and TR, in this order; the
  encoding 0x6822 of \<open>CR2\<close>, which VMX does not have, is the one of the program.
\<close>

definition arch_attrib :: "u32 \<Rightarrow> u16" where
  "arch_attrib ar =
     (if bit ar 16 then 0 else ucast (take_bit 8 ar) OR push_bit 8 (ucast (take_bit 4 (drop_bit 12 ar))))"

definition fields_seg :: "(u32 \<Rightarrow> u64) \<Rightarrow> nat \<Rightarrow> seg_view" where
  "fields_seg f i =
    \<lparr>sv_selector = ucast (f (0x0800 + 2 * of_nat i)),
     sv_attrib = arch_attrib (ucast (f (0x4814 + 2 * of_nat i))),
     sv_limit = ucast (f (0x4800 + 2 * of_nat i)),
     sv_base = f (0x6806 + 2 * of_nat i)\<rparr>"

definition fields_guest :: "(u32 \<Rightarrow> u64) \<Rightarrow> guest_view" where
  "fields_guest f =
    \<lparr>gv_segs = map (fields_seg f) [0, 1, 2, 3, 4, 5, 6, 7],
     gv_gdtr = (ucast (f 0x4810), f 0x6816), gv_idtr = (ucast (f 0x4812), f 0x6818),
     gv_cr0 = f 0x6800, gv_cr2 = f 0x6822, gv_cr3 = f 0x6802, gv_cr4 = f 0x6804,
     gv_rip = f 0x681E, gv_rsp = f 0x681C, gv_rflags = f 0x6820, gv_efer = f 0x2806,
     gv_pat = f 0x2804\<rparr>"

definition vmcs_guest :: "shadow_vmcs \<Rightarrow> guest_view" where
  "vmcs_guest s = fields_guest (shadow_read s)"

definition vmcb_seg :: "page \<Rightarrow> nat \<Rightarrow> seg_view" where
  "vmcb_seg v off =
    \<lparr>sv_selector = load_le v off, sv_attrib = load_le v (off + 2),
     sv_limit = load_le v (off + 4), sv_base = load_le v (off + 8)\<rparr>"

definition vmcb_guest :: "page \<Rightarrow> guest_view" where
  "vmcb_guest v =
    \<lparr>gv_segs = map (vmcb_seg v) [0x400, 0x410, 0x420, 0x430, 0x440, 0x450, 0x470, 0x490],
     gv_gdtr = (load_le v 0x464, load_le v 0x468), gv_idtr = (load_le v 0x484, load_le v 0x488),
     gv_cr0 = load_le v 0x558, gv_cr2 = load_le v 0x640, gv_cr3 = load_le v 0x550, gv_cr4 = load_le v 0x548,
     gv_rip = load_le v 0x578, gv_rsp = load_le v 0x5D8, gv_rflags = load_le v 0x570, gv_efer = load_le v 0x4D0,
     gv_pat = load_le v 0x668\<rparr>"

text \<open>The same views through the names, the table and the conversion of the code.\<close>

lemma arch_attrib_code: "arch_attrib ar = vmxArToSvmAttrib ar"
  by (rule bit_word_eqI) (auto simp: arch_attrib_def bit_vmxArToSvmAttrib bit_simps add.commute)

definition vmcs_seg :: "shadow_vmcs \<Rightarrow> seg_map \<Rightarrow> seg_view" where
  "vmcs_seg s m =
    \<lparr>sv_selector = ucast (shadow_read s (selEnc m)),
     sv_attrib = vmxArToSvmAttrib (ucast (shadow_read s (arEnc m))),
     sv_limit = ucast (shadow_read s (limitEnc m)),
     sv_base = shadow_read s (baseEnc m)\<rparr>"

lemma vmcs_guest_fields:
  "vmcs_guest s =
    \<lparr>gv_segs = map (vmcs_seg s) kSegs,
     gv_gdtr = (ucast (vread s VMCS_GUEST_GDTR_LIMIT), vread s VMCS_GUEST_GDTR_BASE),
     gv_idtr = (ucast (vread s VMCS_GUEST_IDTR_LIMIT), vread s VMCS_GUEST_IDTR_BASE),
     gv_cr0 = vread s VMCS_GUEST_CR0, gv_cr2 = vread s VMCS_GUEST_CR2,
     gv_cr3 = vread s VMCS_GUEST_CR3, gv_cr4 = vread s VMCS_GUEST_CR4,
     gv_rip = vread s VMCS_GUEST_RIP, gv_rsp = vread s VMCS_GUEST_RSP,
     gv_rflags = vread s VMCS_GUEST_RFLAGS, gv_efer = vread s VMCS_GUEST_IA32_EFER,
     gv_pat = vread s VMCS_GUEST_IA32_PAT\<rparr>"
  by (simp add: vmcs_guest_def fields_guest_def fields_seg_def vmcs_seg_def kSegs_def arch_attrib_code vmcs_enc.simps)

lemma vmcb_seg_cells:
  "vmcb_seg v off =
    \<lparr>sv_selector = seg_ld v off seg_selector, sv_attrib = seg_ld v off seg_attrib,
     sv_limit = seg_ld v off seg_limit, sv_base = seg_ld v off seg_base\<rparr>"
  by (simp add: vmcb_seg_def seg_ld_def layout)

lemma vmcb_guest_cells:
  "vmcb_guest v =
    \<lparr>gv_segs = map (\<lambda>m. vmcb_seg v (vmcbOff m)) kSegs,
     gv_gdtr = (seg_ld v VMCB_SEG_GDTR seg_limit, seg_ld v VMCB_SEG_GDTR seg_base),
     gv_idtr = (seg_ld v VMCB_SEG_IDTR seg_limit, seg_ld v VMCB_SEG_IDTR seg_base),
     gv_cr0 = vmcb_get64 v VMCB_CR0, gv_cr2 = vmcb_get64 v VMCB_CR2,
     gv_cr3 = vmcb_get64 v VMCB_CR3, gv_cr4 = vmcb_get64 v VMCB_CR4,
     gv_rip = vmcb_get64 v VMCB_RIP, gv_rsp = vmcb_get64 v VMCB_RSP,
     gv_rflags = vmcb_get64 v VMCB_RFLAGS, gv_efer = vmcb_get64 v VMCB_EFER,
     gv_pat = vmcb_get64 v VMCB_GPAT\<rparr>"
  by (simp add: vmcb_guest_def kSegs_def seg_ld_def vmcb_get64_def layout)

text \<open>
  The basic exit reason of VMX (Intel SDM, volume 3, appendix C) an SVM exit code (AMD APM, volume 2,
  appendix C) is to be reported as, in numbers; all other codes are reported as \<open>0xFFFFFFFF\<close>.
\<close>

definition vmx_reason :: "u64 \<Rightarrow> u64 \<Rightarrow> u64" where
  "vmx_reason code info1 =
     (if code \<in> {0x40..0x5F} then 0
      else if code = 0x60 then 1
      else if code = 0x61 then 0
      else if code = 0x72 then 10
      else if code = 0x78 then 12
      else if code = 0x7B then 30
      else if code = 0x7C then (if bit info1 0 then 32 else 31)
      else if code = 0x81 then 18
      else if code = 0x400 then 48
      else 0xFFFFFFFF)"

lemma vmx_reason_code: "ucast (exit_reason_num (svmExitToVmxReason c i)) = vmx_reason c i"
proof -
  have one: "i AND 1 \<noteq> 0 \<longleftrightarrow> bit i 0"
    using and_flag_eq_0_iff [of i 0] by (simp add: flag_def)
  show ?thesis
    by (auto simp: svmExitToVmxReason_def vmx_reason_def hw_consts one)
qed

section \<open>What each block of the translation writes\<close>

lemmas page_simps = vmcb_access_defs layout load_store_same load_store_apart store_le_outside

text \<open>Bytes outside a block's range keep their value.\<close>

lemma seg_st_outside:
  "a < seg_off off x \<or> seg_off off x + LENGTH('a::len) div 8 \<le> a \<Longrightarrow> seg_st v off x (w :: 'a word) a = v a"
  by (simp add: seg_st_def store_le_outside)

lemma put_segment_outside: "a < vmcbOff m \<or> vmcbOff m + 16 \<le> a \<Longrightarrow> put_segment s m v a = v a"
  by (auto simp: put_segment_def Let_def seg_st_outside layout)

lemma put_segments_outside: "a < 0x400 \<or> 0x4A0 \<le> a \<Longrightarrow> put_segments s v a = v a"
  by (auto simp: put_segments_def put_segment_def kSegs_def Let_def page_simps)

lemma put_registers_outside: "a < 0x4D0 \<or> 0x670 \<le> a \<Longrightarrow> put_registers s v a = v a"
  by (auto simp: put_registers_def Let_def page_simps)

lemma put_intercepts_outside: "a < 0x008 \<or> 0x014 \<le> a \<Longrightarrow> put_intercepts s v a = v a"
  by (auto simp: put_intercepts_def Let_def page_simps)

lemma put_nested_paging_outside:
  "a < 0x090 \<or> 0x098 \<le> a \<and> a < 0x0B0 \<or> 0x0B8 \<le> a \<Longrightarrow> put_nested_paging s v a = v a"
  by (auto simp: put_nested_paging_def Let_def page_simps)

lemma put_asid_outside: "a < 0x058 \<or> 0x05C \<le> a \<Longrightarrow> put_asid s v a = v a"
  by (auto simp: put_asid_def Let_def page_simps)

lemma put_event_outside: "a < 0x0A8 \<or> 0x0B0 \<le> a \<Longrightarrow> put_event s v a = v a"
  by (auto simp: put_event_def Let_def page_simps)

lemmas put_outside = put_segments_outside put_registers_outside put_intercepts_outside
  put_nested_paging_outside put_asid_outside put_event_outside

lemma put_segments_segs:
  "map (\<lambda>m. vmcb_seg (put_segments s v) (vmcbOff m)) kSegs = map (vmcs_seg s) kSegs"
  by (simp add: put_segments_def put_segment_def kSegs_def Let_def vmcb_seg_cells vmcs_seg_def page_simps)

text \<open>A load that does not meet a block's range sees through the block.\<close>

lemma load_put_segments:
  assumes "8 dvd LENGTH('a::len)" and "off + LENGTH('a) div 8 \<le> 0x400 \<or> 0x4A0 \<le> off"
  shows "(load_le (put_segments s v) off :: 'a word) = load_le v off"
  using assms by (intro load_le_cong put_segments_outside) auto

lemma load_put_registers:
  assumes "8 dvd LENGTH('a::len)" and "off + LENGTH('a) div 8 \<le> 0x4D0 \<or> 0x670 \<le> off"
  shows "(load_le (put_registers s v) off :: 'a word) = load_le v off"
  using assms by (intro load_le_cong put_registers_outside) auto

lemma load_put_intercepts:
  assumes "8 dvd LENGTH('a::len)" and "off + LENGTH('a) div 8 \<le> 0x008 \<or> 0x014 \<le> off"
  shows "(load_le (put_intercepts s v) off :: 'a word) = load_le v off"
  using assms by (intro load_le_cong put_intercepts_outside) auto

lemma load_put_nested_paging:
  assumes "8 dvd LENGTH('a::len)" and "off + LENGTH('a) div 8 \<le> 0x090 \<or> 0x098 \<le> off \<and> off + LENGTH('a) div 8 \<le> 0x0B0 \<or> 0x0B8 \<le> off"
  shows "(load_le (put_nested_paging s v) off :: 'a word) = load_le v off"
  using assms by (intro load_le_cong put_nested_paging_outside) auto

lemma load_put_asid:
  assumes "8 dvd LENGTH('a::len)" and "off + LENGTH('a) div 8 \<le> 0x058 \<or> 0x05C \<le> off"
  shows "(load_le (put_asid s v) off :: 'a word) = load_le v off"
  using assms by (intro load_le_cong put_asid_outside) auto

lemma load_put_event:
  assumes "8 dvd LENGTH('a::len)" and "off + LENGTH('a) div 8 \<le> 0x0A8 \<or> 0x0B0 \<le> off"
  shows "(load_le (put_event s v) off :: 'a word) = load_le v off"
  using assms by (intro load_le_cong put_event_outside) auto

lemmas load_put = load_put_segments load_put_registers load_put_intercepts
  load_put_nested_paging load_put_asid load_put_event

lemma vmcb_seg_cong:
  assumes "\<And>a. off \<le> a \<Longrightarrow> a < off + 16 \<Longrightarrow> m a = m' a"
  shows "vmcb_seg m off = vmcb_seg m' off"
  using assms by (simp add: vmcb_seg_cells vmcb_access_defs layout) (intro conjI load_le_cong; simp)

lemma kSegs_off: "m \<in> set kSegs \<Longrightarrow> 0x400 \<le> vmcbOff m \<and> vmcbOff m + 16 \<le> 0x4A0"
  by (auto simp: kSegs_def layout)

lemma put_registers_loads:
  "vmcb_get64 (put_registers s v) VMCB_CR0 = vread s VMCS_GUEST_CR0"
  "vmcb_get64 (put_registers s v) VMCB_CR2 = vread s VMCS_GUEST_CR2"
  "vmcb_get64 (put_registers s v) VMCB_CR3 = vread s VMCS_GUEST_CR3"
  "vmcb_get64 (put_registers s v) VMCB_CR4 = vread s VMCS_GUEST_CR4"
  "vmcb_get64 (put_registers s v) VMCB_RIP = vread s VMCS_GUEST_RIP"
  "vmcb_get64 (put_registers s v) VMCB_RSP = vread s VMCS_GUEST_RSP"
  "vmcb_get64 (put_registers s v) VMCB_RFLAGS = vread s VMCS_GUEST_RFLAGS"
  "vmcb_get64 (put_registers s v) VMCB_GPAT = vread s VMCS_GUEST_IA32_PAT"
  "vmcb_get64 (put_registers s v) VMCB_EFER = vread s VMCS_GUEST_IA32_EFER OR EFER_SVME"
  by (simp_all add: put_registers_def Let_def cell64.get_put cell64.get_put_apart layout)

lemma get64_put_outer:
  assumes "0x4D0 \<le> off"
  shows "vmcb_get64 (translateVmcsToVmcb s v) off = vmcb_get64 (put_registers s (put_segments s v)) off"
  using assms by (simp add: translateVmcsToVmcb_def vmcb_get64_def load_put)

section \<open>The translation into a VMCB\<close>

lemma translate_guest_view:
  "vmcb_guest (translateVmcsToVmcb s v) = (vmcs_guest s)\<lparr>gv_efer := vread s VMCS_GUEST_IA32_EFER OR EFER_SVME\<rparr>"
proof -
  let ?t = "translateVmcsToVmcb s v"
  have seg: "vmcb_seg ?t off = vmcb_seg (put_segments s v) off" if "0x400 \<le> off \<and> off + 16 \<le> 0x4A0" for off
    using that by (intro vmcb_seg_cong) (simp add: translateVmcsToVmcb_def put_outside)
  have segs: "map (\<lambda>m. vmcb_seg ?t (vmcbOff m)) kSegs = map (vmcs_seg s) kSegs"
    unfolding put_segments_segs [of s v, symmetric] by (intro map_cong refl seg kSegs_off)
  have gdtr: "seg_ld ?t VMCB_SEG_GDTR seg_limit = (ucast (vread s VMCS_GUEST_GDTR_LIMIT) :: u32)"
    "seg_ld ?t VMCB_SEG_GDTR seg_base = vread s VMCS_GUEST_GDTR_BASE"
    and idtr: "seg_ld ?t VMCB_SEG_IDTR seg_limit = (ucast (vread s VMCS_GUEST_IDTR_LIMIT) :: u32)"
    "seg_ld ?t VMCB_SEG_IDTR seg_base = vread s VMCS_GUEST_IDTR_BASE"
    by (simp_all add: translateVmcsToVmcb_def load_put page_simps)
      (simp_all add: put_segments_def Let_def page_simps)
  show ?thesis
    unfolding vmcb_guest_cells segs gdtr idtr
    by (simp add: vmcs_guest_fields get64_put_outer put_registers_loads layout)
      (simp add: put_registers_loads [unfolded layout])
qed

lemma put_intercepts_loads:
  "bit (vmcb_ld (put_intercepts s v) intercept_1 :: u32) k \<longleftrightarrow>
     k = 0 \<and> bit (pin_controls s) 0 \<or> k = 24 \<and> bit (cpu_controls s) 7"
  "vmcb_ld (put_intercepts s v) intercept_2 = INTERCEPT2_VMRUN"
  "vmcb_ld (put_intercepts s v) intercept_exceptions = (ucast (vread s VMCS_EXCEPTION_BITMAP) :: u32)"
  by (auto simp: put_intercepts_def Let_def page_simps hw_consts bit_reads bit_simps)

lemma put_event_load:
  "vmcb_get64 (put_event s v) VMCB_CTL_EVENTINJ =
    (let info = ucast (vread s VMCS_VM_ENTRY_INTR_INFO) :: u32
     in if bit info 31
        then eventinj_make (vmxEntryVector info) (svm_event_type (vmxEntryType info)) (bit info 11)
               (ucast (vread s VMCS_VM_ENTRY_EXCEPTION_ERROR))
        else 0)"
  by (simp add: put_event_def Let_def cell64.get_put hw_consts bit_reads)

lemma svm_event_type_small: "svm_event_type t AND mask 3 = svm_event_type t"
  by (simp add: svm_event_type_def hw_consts mask_eq_exp_minus_1)

section \<open>The translation back into the shadow VMCS\<close>

text \<open>The writes of \<open>translateVmcbToVmcs\<close> in program order, as one list.\<close>

definition exit_writes :: "page \<Rightarrow> u32 \<Rightarrow> (u32 \<times> u64) list" where
  "exit_writes v svmFeatures =
     exit_registers v @ concat (map (exit_segment v) kSegs)
     @ [(vmcs_enc VMCS_VM_EXIT_REASON,
         ucast (exit_reason_num (svmExitToVmxReason (vmcb_ld v exit_code) (vmcb_ld v exit_info_1))))]
     @ (if bit svmFeatures 3 \<and> vmcb_get64 v VMCB_CTL_NRIP > vmcb_get64 v VMCB_RIP
        then [(vmcs_enc VMCS_VM_EXIT_INSTR_LEN, vmcb_get64 v VMCB_CTL_NRIP - vmcb_get64 v VMCB_RIP)]
        else [])"

lemma shadow_writes_append: "shadow_writes (xs @ ys) s = shadow_writes ys (shadow_writes xs s)"
  by (simp add: shadow_writes_def)

lemma fold_shadow_writes: "fold (\<lambda>x. shadow_writes (f x)) xs s = shadow_writes (concat (map f xs)) s"
  by (induction xs arbitrary: s) (simp_all add: shadow_writes_append, simp add: shadow_writes_def)

lemma translateVmcbToVmcs_writes: "translateVmcbToVmcs v s f = shadow_writes (exit_writes v f) s"
  unfolding translateVmcbToVmcs_def exit_writes_def shadow_writes_append fold_shadow_writes Let_def
  by (simp add: shadow_writes_def hw_consts bit_reads)

text \<open>The fields the exit writes, whatever the VMCB holds, and the room they need.\<close>

definition exit_fields :: "u32 list" where
  "exit_fields =
     map vmcs_enc [VMCS_GUEST_CR0, VMCS_GUEST_CR3, VMCS_GUEST_CR4, VMCS_GUEST_CR2, VMCS_GUEST_RIP,
       VMCS_GUEST_RSP, VMCS_GUEST_RFLAGS, VMCS_GUEST_IA32_EFER]
     @ concat (map (\<lambda>m. [selEnc m, limitEnc m, baseEnc m, arEnc m]) kSegs)
     @ map vmcs_enc [VMCS_VM_EXIT_REASON, VMCS_VM_EXIT_INSTR_LEN]"

text \<open>The same fields in numbers: registers, the segments' selectors, limits, bases and access rights, and the exit.\<close>

definition exit_encodings :: "u32 list" where
  "exit_encodings =
    [0x6800, 0x6802, 0x6804, 0x6822, 0x681E, 0x681C, 0x6820, 0x2806,
     0x0800, 0x0802, 0x0804, 0x0806, 0x0808, 0x080A, 0x080C, 0x080E,
     0x4800, 0x4802, 0x4804, 0x4806, 0x4808, 0x480A, 0x480C, 0x480E,
     0x6806, 0x6808, 0x680A, 0x680C, 0x680E, 0x6810, 0x6812, 0x6814,
     0x4814, 0x4816, 0x4818, 0x481A, 0x481C, 0x481E, 0x4820, 0x4822, 0x4402, 0x440C]"

lemma exit_encodings: "set exit_fields = set exit_encodings"
  by (simp add: exit_fields_def exit_encodings_def kSegs_def vmcs_enc.simps insert_commute)

definition exit_room :: "shadow_vmcs \<Rightarrow> bool" where
  "exit_room s \<longleftrightarrow> card (dom (shadow_map s) \<union> set exit_fields) \<le> MaxFields"

lemma keys_exit_writes: "fst ` set (exit_writes v f) \<subseteq> set exit_fields"
  by (auto simp: exit_writes_def exit_fields_def exit_registers_def exit_segment_def)

lemma exit_room_writes:
  assumes "exit_room s"
  shows "card (dom (shadow_map s) \<union> fst ` set (exit_writes v f)) \<le> MaxFields"
proof -
  have "card (dom (shadow_map s) \<union> fst ` set (exit_writes v f)) \<le> card (dom (shadow_map s) \<union> set exit_fields)"
    using keys_exit_writes [of v f] by (intro card_mono) (auto simp: finite_dom_shadow_map)
  with assms show ?thesis
    by (simp add: exit_room_def)
qed

lemma shadow_wf_translateVmcbToVmcs: "shadow_wf s \<Longrightarrow> shadow_wf (translateVmcbToVmcs v s f)"
  by (simp add: translateVmcbToVmcs_writes shadow_writes_def shadow.ok_writes)

lemma exit_read:
  assumes "shadow_wf s" and "exit_room s"
  shows "shadow_read (translateVmcbToVmcs v s f) e =
           (case map_of (rev (exit_writes v f)) e of None \<Rightarrow> shadow_read s e | Some x \<Rightarrow> x)"
  unfolding translateVmcbToVmcs_writes shadow_writes_def
  using assms by (intro shadow.writes_with_room exit_room_writes)

lemma exit_read_other:
  assumes "shadow_wf s" and "e \<notin> set exit_fields"
  shows "shadow_read (translateVmcbToVmcs v s f) e = shadow_read s e"
  unfolding translateVmcbToVmcs_writes shadow_writes_def
  using assms keys_exit_writes [of v f] by (intro shadow.rd_writes_other) auto

lemmas exit_writes_simps = exit_writes_def exit_registers_def exit_segment_def kSegs_def

lemma exit_read_registers:
  assumes "shadow_wf s" and "exit_room s"
  shows "vread (translateVmcbToVmcs v s f) VMCS_GUEST_CR0 = vmcb_get64 v VMCB_CR0"
    and "vread (translateVmcbToVmcs v s f) VMCS_GUEST_CR2 = vmcb_get64 v VMCB_CR2"
    and "vread (translateVmcbToVmcs v s f) VMCS_GUEST_CR3 = vmcb_get64 v VMCB_CR3"
    and "vread (translateVmcbToVmcs v s f) VMCS_GUEST_CR4 = vmcb_get64 v VMCB_CR4"
    and "vread (translateVmcbToVmcs v s f) VMCS_GUEST_RIP = vmcb_get64 v VMCB_RIP"
    and "vread (translateVmcbToVmcs v s f) VMCS_GUEST_RSP = vmcb_get64 v VMCB_RSP"
    and "vread (translateVmcbToVmcs v s f) VMCS_GUEST_RFLAGS = vmcb_get64 v VMCB_RFLAGS"
    and "vread (translateVmcbToVmcs v s f) VMCS_GUEST_IA32_EFER = vmcb_get64 v VMCB_EFER AND NOT EFER_SVME"
    and "vread (translateVmcbToVmcs v s f) VMCS_VM_EXIT_REASON =
      ucast (exit_reason_num (svmExitToVmxReason (vmcb_ld v exit_code) (vmcb_ld v exit_info_1)))"
    and "vread (translateVmcbToVmcs v s f) VMCS_VM_EXIT_INSTR_LEN =
      (if bit f 3 \<and> vmcb_get64 v VMCB_CTL_NRIP > vmcb_get64 v VMCB_RIP
       then vmcb_get64 v VMCB_CTL_NRIP - vmcb_get64 v VMCB_RIP else vread s VMCS_VM_EXIT_INSTR_LEN)"
  by (simp_all add: exit_read [OF assms] exit_writes_simps)

lemma exit_read_segments:
  assumes "shadow_wf s" and "exit_room s" and "m \<in> set kSegs"
  shows "shadow_read (translateVmcbToVmcs v s f) (selEnc m) = ucast (seg_ld v (vmcbOff m) seg_selector :: u16)"
    and "shadow_read (translateVmcbToVmcs v s f) (limitEnc m) = ucast (seg_ld v (vmcbOff m) seg_limit :: u32)"
    and "shadow_read (translateVmcbToVmcs v s f) (baseEnc m) = seg_ld v (vmcbOff m) seg_base"
    and "shadow_read (translateVmcbToVmcs v s f) (arEnc m) =
           ucast (svmAttribToVmxAr (seg_ld v (vmcbOff m) seg_attrib))"
proof -
  have "m \<in> set kSegs \<longrightarrow>
      map_of (rev (exit_writes v f)) (selEnc m) = Some (ucast (seg_ld v (vmcbOff m) seg_selector :: u16))
    \<and> map_of (rev (exit_writes v f)) (limitEnc m) = Some (ucast (seg_ld v (vmcbOff m) seg_limit :: u32))
    \<and> map_of (rev (exit_writes v f)) (baseEnc m) = Some (seg_ld v (vmcbOff m) seg_base)
    \<and> map_of (rev (exit_writes v f)) (arEnc m) = Some (ucast (svmAttribToVmxAr (seg_ld v (vmcbOff m) seg_attrib)))"
    by (auto simp: exit_writes_simps)
  with assms show "shadow_read (translateVmcbToVmcs v s f) (selEnc m) = ucast (seg_ld v (vmcbOff m) seg_selector :: u16)"
    and "shadow_read (translateVmcbToVmcs v s f) (limitEnc m) = ucast (seg_ld v (vmcbOff m) seg_limit :: u32)"
    and "shadow_read (translateVmcbToVmcs v s f) (baseEnc m) = seg_ld v (vmcbOff m) seg_base"
    and "shadow_read (translateVmcbToVmcs v s f) (arEnc m) =
           ucast (svmAttribToVmxAr (seg_ld v (vmcbOff m) seg_attrib))"
    by (simp_all add: exit_read)
qed

lemma attrib_roundtrip:
  "vmxArToSvmAttrib (svmAttribToVmxAr a) = (if bit a 7 then a AND 0xFFF else 0)"
  by (rule bit_word_eqI) (auto simp: bit_vmxArToSvmAttrib bit_svmAttribToVmxAr mask_bits_FFF bit_simps)

text \<open>How a segment, and the guest state, reads after it has gone through a VMCB.\<close>

definition canon_seg :: "seg_view \<Rightarrow> seg_view" where
  "canon_seg g = g\<lparr>sv_attrib := (if bit (sv_attrib g) 7 then sv_attrib g AND 0xFFF else 0)\<rparr>"

lemma ucast_ucast_id16 [simp]: "ucast (ucast (w :: u16) :: u64) = w"
  and ucast_ucast_id32 [simp]: "ucast (ucast (x :: u32) :: u64) = x"
  by (simp_all add: ucast_ucast_up)

lemma vmx_reason_code32: "exit_reason_num (svmExitToVmxReason c i) = ucast (vmx_reason c i)"
  by (simp flip: vmx_reason_code)

lemma exit_guest_view:
  assumes "shadow_wf s" and "exit_room s"
  shows "vmcs_guest (translateVmcbToVmcs v s f) =
    (vmcb_guest v)\<lparr>gv_segs := map canon_seg (gv_segs (vmcb_guest v)),
       gv_efer := vmcb_get64 v VMCB_EFER AND NOT EFER_SVME,
       gv_gdtr := gv_gdtr (vmcs_guest s), gv_idtr := gv_idtr (vmcs_guest s),
       gv_pat := gv_pat (vmcs_guest s)\<rparr>"
proof -
  have segs: "map (vmcs_seg (translateVmcbToVmcs v s f)) kSegs =
      map canon_seg (map (\<lambda>m. vmcb_seg v (vmcbOff m)) kSegs)"
    using assms
    by (simp add: vmcs_seg_def vmcb_seg_cells canon_seg_def exit_read_segments attrib_roundtrip)
  have other: "vread (translateVmcbToVmcs v s f) fd = vread s fd"
    if "vmcs_enc fd \<notin> set exit_fields" for fd
    using assms that by (simp add: exit_read_other)
  show ?thesis
    unfolding vmcs_guest_fields segs
    by (simp add: vmcb_guest_cells exit_read_registers [OF assms] other exit_fields_def kSegs_def)
qed

lemma exit_room_new: "exit_room new_shadow"
proof -
  have "card (set exit_fields) \<le> length exit_fields"
    by (rule card_length)
  also have "\<dots> \<le> MaxFields"
    by (simp add: exit_fields_def kSegs_def MaxFields_def)
  finally show ?thesis
    by (simp add: exit_room_def shadow_map_new)
qed

end
