(* ===== verification/TranslateProps.thy ===== *)
theory TranslateProps
  imports Translate
begin

text \<open>
  The properties of the VMCS/VMCB translation of \<^verbatim>\<open>src/kern_vmcs_vmcb.cpp\<close>: what the VMCB
  holds before \<open>VMRUN\<close>, what the shadow VMCS holds after the exit, the conversions between the
  two access-rights formats and the exit-code map.
\<close>

section \<open>Properties\<close>

lemma efer_svme: "EFER_SVME = 0x1000"
  by (simp add: EFER_SVME_def flag_def push_bit_eq_mult)

text \<open>
  C1: The VMCB that \<open>VMRUN\<close> consumes describes exactly the guest the shadow VMCS describes: every
  segment (attributes in SVM format), descriptor table, control register, \<open>RIP\<close>, \<open>RSP\<close>,
  \<open>RFLAGS\<close> and PAT is the one Apple wrote, whatever the page held before, and \<open>EFER\<close>
  differs from it by the SVME bit that \<open>VMRUN\<close> demands.
\<close>

theorem vmcb_describes_vmcs_guest:
  "vmcb_guest (translateVmcsToVmcb s v) = (vmcs_guest s)\<lparr>gv_efer := gv_efer (vmcs_guest s) OR 0x1000\<rparr>"
  by (simp add: translate_guest_view vmcs_guest_fields efer_svme)

text \<open>The (offset, length) ranges of the page the translation may write.\<close>

definition translated_ranges :: "(nat \<times> nat) list" where
  "translated_ranges =
    [(vmcb_off intercept_exceptions, 12), (vmcb_off guest_asid, 4),
     (vmcb_off np_enable, 8), (VMCB_CTL_EVENTINJ, 8), (vmcb_off nested_cr3, 8),
     (VMCB_SEG_ES, 0x60), (seg_off VMCB_SEG_GDTR seg_limit, 12), (VMCB_SEG_LDTR, 0x10),
     (seg_off VMCB_SEG_IDTR seg_limit, 12), (VMCB_SEG_TR, 0x10), (VMCB_EFER, 8), (VMCB_CR4, 8),
     (VMCB_CR3, 8), (VMCB_CR0, 8), (VMCB_RFLAGS, 8), (VMCB_RIP, 8), (VMCB_RSP, 8), (VMCB_CR2, 8),
     (VMCB_GPAT, 8)]"

lemma translate_untouched:
  assumes "\<forall>(off, n) \<in> set translated_ranges. a < off \<or> off + n \<le> a"
  shows "translateVmcsToVmcb s v a = v a"
proof -
  have far: "a < off \<or> off + n \<le> a" if "(off, n) \<in> set translated_ranges" for off n
    using assms that by blast
  have dt: "a < 0x464 \<or> 0x470 \<le> a" "a < 0x484 \<or> 0x490 \<le> a"
    and es: "a < 0x400 \<or> 0x460 \<le> a" and ldtr: "a < 0x470 \<or> 0x480 \<le> a" and tr: "a < 0x490 \<or> 0x4A0 \<le> a"
    and i: "a < 0x008 \<or> 0x014 \<le> a" and asid: "a < 0x058 \<or> 0x05C \<le> a" and ev: "a < 0x0A8 \<or> 0x0B0 \<le> a"
    and np: "a < 0x090 \<or> 0x098 \<le> a" "a < 0x0B0 \<or> 0x0B8 \<le> a"
    using far [of "0x464" "12"] far [of "0x484" "12"] far [of "0x400" "0x60"] far [of "0x470" "0x10"] far [of "0x490" "0x10"]
      far [of "0x008" "12"] far [of "0x058" "4"] far [of "0x0A8" "8"] far [of "0x090" "8"] far [of "0x0B0" "8"]
    by (simp_all add: translated_ranges_def layout)
  have regs: "a < off \<or> off + 8 \<le> a"
    if "off \<in> {VMCB_EFER, VMCB_CR4, VMCB_CR3, VMCB_CR0, VMCB_RFLAGS, VMCB_RIP, VMCB_RSP, VMCB_CR2, VMCB_GPAT}"
    for off
    by (rule far) (use that in \<open>auto simp: translated_ranges_def\<close>)
  have "\<forall>m \<in> set kSegs. a < vmcbOff m \<or> vmcbOff m + 16 \<le> a"
    using es ldtr tr by (auto simp: kSegs_def layout)
  then have "fold (put_segment s) kSegs v a = v a"
    by (intro fold_observe [where g = "\<lambda>v. v a"] put_segment_outside) blast
  moreover have "put_segments s v a = fold (put_segment s) kSegs v a"
    using dt by (auto simp: put_segments_def Let_def seg_st_outside layout)
  moreover have "put_registers s w a = w a" for w
    unfolding put_registers_def Let_def by (simp add: regs cell64.put_outside)
  moreover have "put_nested_paging s w a = w a" for w
    using np by (intro put_nested_paging_outside) linarith
  ultimately show ?thesis
    by (simp add: translateVmcsToVmcb_def put_event_outside [OF ev] put_asid_outside [OF asid]
        put_intercepts_outside [OF i])
qed

text \<open>
  C17: The translation writes only the fields it is about. A byte outside the exception, INTR/HLT
  and VMRUN intercept words, the ASID, the nested-paging words, EVENTINJ, the ten segment slots
  (for GDTR and IDTR only limit and base) and the nine register words keeps its value; so no byte
  past the page, none of the exit information, RAX, CPL or the permission-map pointers changes.
\<close>

theorem translation_frame:
  assumes "\<forall>(off, n) \<in> set translated_ranges. a < off \<or> off + n \<le> a"
  shows "translateVmcsToVmcb s v a = v a"
  using assms by (rule translate_untouched)

theorem translation_frame_witness:
  "translateVmcsToVmcb full_shadow (\<lambda>_. 0xAA) (vmcb_off exit_code) = 0xAA \<and>
   translateVmcsToVmcb full_shadow (\<lambda>_. 0xAA) VMCB_SIZE = 0xAA"
proof
  show "translateVmcsToVmcb full_shadow (\<lambda>_. 0xAA) (vmcb_off exit_code) = 0xAA"
    by (rule translation_frame) (simp add: translated_ranges_def layout)
  show "translateVmcsToVmcb full_shadow (\<lambda>_. 0xAA) VMCB_SIZE = 0xAA"
    by (rule translation_frame) (simp add: translated_ranges_def layout VMCB_SIZE_def)
qed

text \<open>
  C20: The intercept words are exactly what the execution controls ask for: external interrupts iff
  the pin control asks for them, \<open>HLT\<close> iff the CPU control does, no other bit of that word;
  \<open>VMRUN\<close> and nothing else in the second word; the exception bitmap bit for bit. In
  particular neither \<open>CPUID\<close> nor \<open>VMMCALL\<close> is ever intercepted, although both exit
  unconditionally under VMX and the backend armed both intercepts when it prepared the page.
\<close>

theorem intercepts_follow_controls:
  fixes s :: shadow_vmcs and v :: page
  defines "w1 \<equiv> vmcb_ld (translateVmcsToVmcb s v) intercept_1 :: u32"
    and "w2 \<equiv> vmcb_ld (translateVmcsToVmcb s v) intercept_2 :: u32"
  shows "(\<forall>k. bit w1 k \<longleftrightarrow>
            k = 0 \<and> bit (vread s VMCS_PIN_EXEC_CONTROL) 0 \<or> k = 24 \<and> bit (vread s VMCS_CPU_EXEC_CONTROL) 7)
       \<and> w2 = INTERCEPT2_VMRUN
       \<and> vmcb_ld (translateVmcsToVmcb s v) intercept_exceptions = (ucast (vread s VMCS_EXCEPTION_BITMAP) :: u32)
       \<and> w1 AND INTERCEPT_CPUID = 0 \<and> w2 AND INTERCEPT2_VMMCALL = 0"
proof -
  have ld: "(vmcb_ld (translateVmcsToVmcb s v) x :: u32) =
      vmcb_ld (put_intercepts s (put_registers s (put_segments s v))) x"
    if "x \<in> {intercept_1, intercept_2, intercept_exceptions}" for x
    using that unfolding translateVmcsToVmcb_def by (auto simp: vmcb_ld_def load_put layout)
  have w1: "bit w1 k \<longleftrightarrow>
      k = 0 \<and> bit (vread s VMCS_PIN_EXEC_CONTROL) 0 \<or> k = 24 \<and> bit (vread s VMCS_CPU_EXEC_CONTROL) 7" for k
    unfolding w1_def by (simp add: ld put_intercepts_loads pin_controls_def cpu_controls_def bit_simps)
  moreover have w2: "w2 = INTERCEPT2_VMRUN"
    unfolding w2_def by (simp add: ld put_intercepts_loads)
  moreover have "w1 AND INTERCEPT_CPUID = 0" and "w2 AND INTERCEPT2_VMMCALL = 0"
    by (simp_all add: hw_consts bit_reads w1) (simp add: w2 hw_consts bit_simps)
  ultimately show ?thesis
    by (simp add: ld put_intercepts_loads)
qed

text \<open>
  The ASID handed to \<open>VMRUN\<close> is never the reserved value 0: it is the VPID when secondary
  controls are active, VPIDs are enabled and the VPID is not 0, and 1 in every other case.
\<close>

theorem guest_asid_never_zero:
  fixes s :: shadow_vmcs and v :: page
  defines "asid \<equiv> vmcb_ld (translateVmcsToVmcb s v) guest_asid :: u32"
    and "vpid \<equiv> ucast (vread s VMCS_VIRTUAL_PROCESSOR_ID) :: u32"
  shows "asid \<noteq> 0
       \<and> asid = (if bit (vread s VMCS_CPU_EXEC_CONTROL) 31 \<and> bit (vread s VMCS_SECONDARY_EXEC_CTL) 5 \<and> vpid \<noteq> 0
                 then vpid else 1)"
proof -
  have "asid = vmcb_ld (put_asid s (put_nested_paging s (put_intercepts s (put_registers s (put_segments s v))))) guest_asid"
    unfolding asid_def translateVmcsToVmcb_def by (simp add: vmcb_ld_def load_put layout)
  also have "\<dots> = (if bit (vread s VMCS_CPU_EXEC_CONTROL) 31 \<and> bit (vread s VMCS_SECONDARY_EXEC_CTL) 5 \<and> vpid \<noteq> 0
                 then vpid else 1)"
    by (simp add: put_asid_def Let_def vpid_def secondary_controls_def cpu_controls_def page_simps
        hw_consts bit_reads bit_simps)
  finally show ?thesis
    by simp
qed

text \<open>
  Nested paging is switched on exactly when the guest's controls enable EPT, and then
  \<open>N_CR3\<close> is the page-aligned EPT pointer itself: no nested page table is built, so the
  processor walks tables in the EPT format. With EPT off both words are 0.
\<close>

theorem nested_paging_uses_raw_ept:
  fixes s :: shadow_vmcs and v :: page
  defines "on \<equiv> bit (vread s VMCS_CPU_EXEC_CONTROL) 31 \<and> bit (vread s VMCS_SECONDARY_EXEC_CTL) 1"
  shows "vmcb_ld (translateVmcsToVmcb s v) np_enable = (if on then 1 else 0 :: u64)
       \<and> vmcb_ld (translateVmcsToVmcb s v) nested_cr3 =
           (if on then vread s VMCS_EPT_POINTER AND NOT (mask 12) else 0 :: u64)"
proof -
  let ?w = "put_intercepts s (put_registers s (put_segments s v))"
  have "(vmcb_ld (translateVmcsToVmcb s v) np_enable :: u64) = vmcb_ld (put_nested_paging s ?w) np_enable"
    and "(vmcb_ld (translateVmcsToVmcb s v) nested_cr3 :: u64) = vmcb_ld (put_nested_paging s ?w) nested_cr3"
    unfolding translateVmcsToVmcb_def vmcb_ld_def layout by (simp_all add: load_put)
  moreover have "secondary_controls s AND SEC_CTL_ENABLE_EPT \<noteq> 0 \<longleftrightarrow> on"
    by (simp add: on_def secondary_controls_def cpu_controls_def hw_consts bit_reads bit_simps)
  ultimately show ?thesis
    by (simp add: put_nested_paging_def buildNptFromEpt_def Let_def page_simps mask_bits_FFF)
qed

text \<open>
  C21: Event injection. When the VM-entry interruption information is valid, EVENTINJ carries its
  vector, the SVM type of its VMX type (0 interrupt, 2 NMI, 4 software interrupt, 3 for every
  other type), its deliver-error-code bit, the valid bit, and in the upper half the error code
  when one is delivered and 0 otherwise; when it is not valid, EVENTINJ is 0 and nothing is injected.
\<close>

theorem event_injection_decodes:
  fixes s :: shadow_vmcs and v :: page
  defines "e \<equiv> load_le (translateVmcsToVmcb s v) 0x0A8 :: u64"
    and "info \<equiv> ucast (shadow_read s 0x4016) :: u32"
  shows "if bit info 31
         then (ucast e :: u8) = ucast info
            \<and> (let t = drop_bit 8 info AND 7 in drop_bit 8 e AND 7 = (if t = 0 then 0 else if t = 2 then 2 else if t = 4 then 4 else 3))
            \<and> (bit e 11 \<longleftrightarrow> bit info 11) \<and> bit e 31
            \<and> (ucast (drop_bit 32 e) :: u32) =
                (if bit info 11 then ucast (shadow_read s 0x4018) else 0)
         else e = 0"
proof -
  let ?t = "svm_event_type (vmxEntryType info)"
  have tdef: "vmxEntryType info = drop_bit 8 info AND mask 3"
    by (simp add: vmxEntryType_def mask_eq_exp_minus_1)
  have vec: "vmxEntryVector info = ucast info"
    unfolding vmxEntryVector_def mask_bits_FF by (rule bit_word_eqI) (auto simp: bit_simps)
  have e: "e = (if bit info 31
      then eventinj_make (ucast info) ?t (bit info 11) (ucast (vread s VMCS_VM_ENTRY_EXCEPTION_ERROR)) else 0)"
  proof -
    have "e = vmcb_get64 (put_event s (put_asid s (put_nested_paging s (put_intercepts s (put_registers s (put_segments s v)))))) VMCB_CTL_EVENTINJ"
      by (simp add: e_def translateVmcsToVmcb_def vmcb_get64_def layout)
    moreover have "ucast (vread s VMCS_VM_ENTRY_INTR_INFO) = info"
      by (simp add: info_def vmcs_enc.simps)
    ultimately show ?thesis
      by (simp add: put_event_load Let_def vec)
  qed
  have num: "svm_event_type t = (if t = 0 then 0 else if t = 2 then 2 else if t = 4 then 4 else 3)" for t
    by (simp add: svm_event_type_def hw_consts)
  have seven: "(7 :: u64) = mask 3" "(7 :: u32) = mask 3"
    by (simp_all add: mask_eq_exp_minus_1)
  have small: "bit ?t k \<Longrightarrow> k < 3" for k
    by (metis svm_event_type_small bit_and_iff bit_mask_iff)
  show ?thesis
  proof (cases "bit info 31")
    case True
    then have e: "e = eventinj_make (ucast info) ?t (bit info 11) (ucast (vread s VMCS_VM_ENTRY_EXCEPTION_ERROR))"
      by (simp add: e)
    note b = bit_eventinj_make [OF svm_event_type_small]
    have "(ucast e :: u8) = ucast info"
      by (rule bit_word_eqI) (simp add: e b bit_simps)
    moreover have "drop_bit 8 e AND mask 3 = ?t"
      by (rule bit_word_eqI) (auto simp: e b bit_simps dest: small)
    moreover have "(ucast (drop_bit 32 e) :: u32) =
        (if bit info 11 then ucast (vread s VMCS_VM_ENTRY_EXCEPTION_ERROR) else 0)"
      by (rule bit_word_eqI) (auto simp: e b bit_simps)
    moreover have "bit e 11 \<longleftrightarrow> bit info 11" and "bit e 31"
      by (simp_all add: e b)
    ultimately show ?thesis
      using True by (simp add: seven Let_def num tdef vmcs_enc.simps)
  qed (simp add: e)
qed

text \<open>
  C40: Access rights survive the round trip through the SVM format exactly: a usable, present VMX
  segment comes back with all its defined bits (type, S, DPL, P, AVL, L, D/B, G), and every other
  one, including a usable segment whose Present bit is clear, comes back as \<open>unusable\<close> with all
  its other bits lost.
\<close>

theorem access_rights_roundtrip:
  "svmAttribToVmxAr (vmxArToSvmAttrib ar) =
     (if \<not> bit ar 16 \<and> bit ar 7 then ar AND 0xF0FF else flag 16)"
proof -
  have F0FF: "(0xF0FF :: u32) = mask 8 OR push_bit 12 (mask 4)"
    by (simp add: mask_eq_exp_minus_1 push_bit_eq_mult)
  show ?thesis
    unfolding F0FF
    by (rule bit_word_eqI) (simp add: bit_vmxArToSvmAttrib bit_svmAttribToVmxAr bit_simps; arith)
qed

text \<open>
  The exit-code map. An exit is reported as \<open>EXCEPTION_NMI\<close> exactly for the 32 exception
  codes and the NMI code, MSR exits are told apart by bit 0 of EXITINFO1, the six other codes the
  map knows have a reason of their own, and every remaining code, \<open>VMEXIT_INVALID\<close> included,
  is \<open>UNKNOWN\<close>; triple fault, CR access and EPT misconfiguration are never reported.
\<close>

theorem exit_code_map:
  "(svmExitToVmxReason c i = EXIT_EXCEPTION_NMI \<longleftrightarrow> 0x40 \<le> c \<and> c \<le> 0x5F \<or> c = 0x61)
 \<and> (svmExitToVmxReason c i = EXIT_WRMSR \<longleftrightarrow> c = 0x7C \<and> bit i 0)
 \<and> (svmExitToVmxReason c i = EXIT_RDMSR \<longleftrightarrow> c = 0x7C \<and> \<not> bit i 0)
 \<and> (svmExitToVmxReason c i = EXIT_UNKNOWN \<longleftrightarrow>
      \<not> (0x40 \<le> c \<and> c \<le> 0x61) \<and> c \<notin> {0x72, 0x78, 0x7B, 0x7C, 0x81, 0x400})
 \<and> svmExitToVmxReason VMEXIT_INVALID i = EXIT_UNKNOWN
 \<and> svmExitToVmxReason c i \<notin> {EXIT_TRIPLE_FAULT, EXIT_CR_ACCESS, EXIT_EPT_MISCONFIG}"
proof -
  have one: "i AND 1 \<noteq> 0 \<longleftrightarrow> bit i 0"
    using and_flag_eq_0_iff [of i 0] by (simp add: flag_def)
  have mid: "c = 0x60 \<or> c = 0x61" if "0x40 \<le> c" "c \<le> 0x61" "\<not> c \<le> 0x5F"
    using that by unat_arith
  have top: "\<not> (- 1 :: u64) \<le> 0x5F"
    by (simp add: word_le_nat_alt unsigned_minus_1_eq_mask mask_eq_exp_minus_1)
  have sub: "c \<le> 0x61" if "c \<le> 0x5F"
    using that by unat_arith
  show ?thesis
    using mid sub top by (auto simp: svmExitToVmxReason_def hw_consts one)
qed

text \<open>
  C2: After the exit, and with room for the exit fields (\<open>exit_room\<close>), the shadow VMCS describes
  the guest the VMCB holds: control registers, \<open>RIP\<close>, \<open>RSP\<close>, \<open>RFLAGS\<close>, \<open>EFER\<close> without the SVME
  bit, and every segment with its attributes in canonical form. GDTR, IDTR and PAT are the ones the
  VMCS held before the run: a guest's \<open>LGDT\<close> or \<open>LIDT\<close> is lost.
\<close>

theorem exit_describes_vmcb_guest:
  assumes "shadow_wf s" and "exit_room s"
  shows "vmcs_guest (translateVmcbToVmcs v s f) =
    (vmcb_guest v)\<lparr>gv_segs := map canon_seg (gv_segs (vmcb_guest v)),
       gv_efer := gv_efer (vmcb_guest v) AND NOT 0x1000,
       gv_gdtr := gv_gdtr (vmcs_guest s), gv_idtr := gv_idtr (vmcs_guest s),
       gv_pat := gv_pat (vmcs_guest s)\<rparr>"
  using exit_guest_view [OF assms] by (simp add: vmcb_guest_cells efer_svme)

theorem exit_describes_vmcb_guest_witness:
  "gv_rip (vmcs_guest (translateVmcbToVmcs (vmcb_set64 (\<lambda>_. 0) VMCB_RIP 0x1234) new_shadow 0)) = 0x1234"
  by (simp add: exit_describes_vmcb_guest [OF shadow_wf_new exit_room_new] vmcb_guest_cells cell64.get_put)

text \<open>
  C18: With room for the exit fields, the VMX exit reason is the one the SVM exit code stands for
  (CPUID 10, HLT 12, VMMCALL 18, IOIO 30, MSR 31 or 32 by the direction bit, INTR 1, NMI and the 32
  exceptions 0, nested page fault 48, every other code \<open>0xFFFFFFFF\<close>), and the
  instruction length is the distance from \<open>RIP\<close> to \<open>nRIP\<close> when the processor saves
  \<open>nRIP\<close> and it lies ahead; otherwise the length of an earlier exit stays in place. No field
  outside the exit set changes; in particular the VM-entry interruption information keeps its
  valid bit, so the same event is injected again at the next entry.
\<close>

theorem exit_information:
  fixes s :: shadow_vmcs and v :: page and f :: u32
  assumes "shadow_wf s" and "exit_room s"
  defines "t \<equiv> translateVmcbToVmcs v s f"
    and "nrip \<equiv> load_le v 0x0C8 :: u64" and "rip \<equiv> load_le v 0x578 :: u64"
  shows "shadow_read t 0x4402 = vmx_reason (load_le v 0x070) (load_le v 0x078)
       \<and> shadow_read t 0x440C = (if bit f 3 \<and> rip < nrip then nrip - rip else shadow_read s 0x440C)
       \<and> (\<forall>e. e \<notin> set exit_encodings \<longrightarrow> shadow_read t e = shadow_read s e)
       \<and> shadow_read t 0x4016 = shadow_read s 0x4016"
proof -
  have "vread t VMCS_VM_EXIT_REASON = vmx_reason (load_le v 0x070) (load_le v 0x078)"
    "vread t VMCS_VM_EXIT_INSTR_LEN = (if bit f 3 \<and> rip < nrip then nrip - rip else vread s VMCS_VM_EXIT_INSTR_LEN)"
    using assms(1,2) unfolding t_def nrip_def rip_def
    by (simp_all add: exit_read_registers vmx_reason_code vmcb_ld_def vmcb_get64_def layout)
  moreover have other: "shadow_read t e = shadow_read s e" if "e \<notin> set exit_encodings" for e
    using assms(1) that unfolding t_def by (simp add: exit_read_other exit_encodings)
  moreover have "shadow_read t 0x4016 = shadow_read s 0x4016"
    by (rule other) (simp add: exit_encodings_def)
  ultimately show ?thesis
    by (simp add: vmcs_enc.simps)
qed

theorem exit_information_witness:
  "vread (translateVmcbToVmcs (vmcb_set64 (vmcb_st (\<lambda>_. 0) exit_code VMEXIT_HLT) VMCB_CTL_NRIP 3)
      new_shadow SVM_FEATURE_NRIPS) VMCS_VM_EXIT_REASON = 12
 \<and> vread (translateVmcbToVmcs (vmcb_set64 (vmcb_st (\<lambda>_. 0) exit_code VMEXIT_HLT) VMCB_CTL_NRIP 3)
      new_shadow SVM_FEATURE_NRIPS) VMCS_VM_EXIT_INSTR_LEN = 3"
proof (unfold vmcs_enc.simps)
  let ?v = "vmcb_set64 (vmcb_st (\<lambda>_. 0) exit_code VMEXIT_HLT) VMCB_CTL_NRIP 3"
  have zero: "load_le (\<lambda>_. 0) off = (0 :: u64)" for off
    by (rule bit_word_eqI) (simp add: bit_load_le_iff)
  have "load_le ?v 0x70 = (0x78 :: u64)" "load_le ?v 0xC8 = (3 :: u64)" "load_le ?v 0x578 = (0 :: u64)"
    by (simp_all add: vmcb_access_defs layout load_store_same load_store_apart zero VMEXIT_HLT_def)
  moreover have "vmx_reason 0x78 i = 12" for i
    by (simp add: vmx_reason_def)
  ultimately show "shadow_read (translateVmcbToVmcs ?v new_shadow SVM_FEATURE_NRIPS) 0x4402 = 12
     \<and> shadow_read (translateVmcbToVmcs ?v new_shadow SVM_FEATURE_NRIPS) 0x440C = 3"
    using exit_information [OF shadow_wf_new exit_room_new, of ?v SVM_FEATURE_NRIPS]
    by (simp add: SVM_FEATURE_NRIPS_def bit_flag_iff)
qed

text \<open>
  A full store loses the exit. When all 256 slots hold other encodings and none of them is the
  exit-reason field, the translation drops the exit reason without notice and \<open>vmread\<close> of it
  yields 0, which is the reason of an exception or NMI, whatever made the guest exit.
\<close>

theorem full_store_hides_exit_reason:
  assumes "shadow_wf s" and "card (dom (shadow_map s)) = MaxFields"
    and "vmcs_enc VMCS_VM_EXIT_REASON \<notin> dom (shadow_map s)"
  shows "vread (translateVmcbToVmcs v s f) VMCS_VM_EXIT_REASON = ucast (exit_reason_num EXIT_EXCEPTION_NMI)"
proof -
  have "vread (translateVmcbToVmcs v s f) VMCS_VM_EXIT_REASON = vread s VMCS_VM_EXIT_REASON"
    unfolding translateVmcbToVmcs_writes shadow_writes_def
    using assms by (intro shadow.full_store_drops)
  also have "\<dots> = 0"
    using assms(1,3) by (simp add: shadow_read_map domIff)
  finally show ?thesis
    by simp
qed

theorem full_store_hides_exit_reason_witness:
  "vread (translateVmcbToVmcs (vmcb_st (\<lambda>_. 0) exit_code VMEXIT_HLT) full_shadow 0) VMCS_VM_EXIT_REASON = 0"
proof -
  have "vmcs_enc VMCS_VM_EXIT_REASON \<notin> dom (shadow_map full_shadow)"
    by (rule not_in_full_shadow) (simp add: vmcs_enc.simps)
  then show ?thesis
    by (simp add: full_store_hides_exit_reason [OF shadow_wf_full card_full_shadow])
qed

end
