(* ===== verification/EptNpt.thy ===== *)
theory EptNpt
  imports AmdvPrelude
begin

text \<open>
  The paging-entry conversion \<open>eptEntryToNpt\<close> of \<^verbatim>\<open>src/kern_vmcs_vmcb.cpp\<close>, its bits, and
  what it does to the permissions a whole translation path grants. The two page walks are the
  hardware's; they are written here as the conjunction over the entries of a path that the Intel
  and AMD manuals document, and the conversion is judged against them.
\<close>

section \<open>Entry bits\<close>

definition EPT_READ :: u64 where [hw_consts]: "EPT_READ = flag 0"
definition EPT_WRITE :: u64 where [hw_consts]: "EPT_WRITE = flag 1"
definition EPT_EXECUTE :: u64 where [hw_consts]: "EPT_EXECUTE = flag 2"
definition EPT_MEMTYPE_SHIFT :: nat where [hw_consts]: "EPT_MEMTYPE_SHIFT = 3"
definition EPT_IGNORE_PAT :: u64 where [hw_consts]: "EPT_IGNORE_PAT = flag 6"
definition EPT_PAGE_SIZE :: u64 where [hw_consts]: "EPT_PAGE_SIZE = flag 7"
definition EPT_ADDR_MASK :: u64 where [hw_consts]: "EPT_ADDR_MASK = 0x000FFFFFFFFFF000"

definition PT_PRESENT :: u64 where [hw_consts]: "PT_PRESENT = flag 0"
definition PT_RW :: u64 where [hw_consts]: "PT_RW = flag 1"
definition PT_US :: u64 where [hw_consts]: "PT_US = flag 2"
definition PT_PWT :: u64 where [hw_consts]: "PT_PWT = flag 3"
definition PT_PCD :: u64 where [hw_consts]: "PT_PCD = flag 4"
definition PT_PS :: u64 where [hw_consts]: "PT_PS = flag 7"
definition PT_NX :: u64 where [hw_consts]: "PT_NX = flag 63"

section \<open>The conversion\<close>

definition eptEntryToNpt :: "u64 \<Rightarrow> bool \<Rightarrow> u64" where
  "eptEntryToNpt eptEntry leaf =
     (if eptEntry AND (EPT_READ OR EPT_WRITE OR EPT_EXECUTE) = 0 then 0
      else
        (let npt = (eptEntry AND EPT_ADDR_MASK) OR PT_PRESENT OR PT_US;
             npt = (if eptEntry AND EPT_WRITE \<noteq> 0 then npt OR PT_RW else npt);
             npt = (if eptEntry AND EPT_EXECUTE = 0 then npt OR PT_NX else npt)
         in if leaf then
              (let npt = (if eptEntry AND EPT_PAGE_SIZE \<noteq> 0 then npt OR PT_PS else npt);
                   memType = drop_bit EPT_MEMTYPE_SHIFT eptEntry AND 0x7
               in if memType = 0 then npt OR (PT_PWT OR PT_PCD) else npt)
            else npt))"

definition ept_present :: "u64 \<Rightarrow> bool" where
  "ept_present e \<longleftrightarrow> bit e 0 \<or> bit e 1 \<or> bit e 2"

definition ept_uncacheable :: "u64 \<Rightarrow> bool" where
  "ept_uncacheable e \<longleftrightarrow> \<not> bit e 3 \<and> \<not> bit e 4 \<and> \<not> bit e 5"

lemma and_three_flags: "(e :: u64) AND (flag i OR flag j OR flag k) = 0 \<longleftrightarrow> \<not> bit e i \<and> \<not> bit e j \<and> \<not> bit e k"
  by (simp add: bit.conj_disj_distrib and_flag_eq_0_iff or_eq_0_iff)

lemma ept_addr_mask_bits: "(0x000FFFFFFFFFF000 :: u64) = push_bit 12 (mask 40)"
  by (simp add: mask_eq_exp_minus_1 push_bit_eq_mult)

lemma memtype_zero: "drop_bit 3 (e :: u64) AND 0x7 = 0 \<longleftrightarrow> ept_uncacheable e"
proof -
  have "(0x7 :: u64) = flag 0 OR flag 1 OR flag 2"
    by (simp add: flag_def push_bit_eq_mult)
  then show ?thesis
    by (simp only: and_three_flags) (simp add: bit_simps ept_uncacheable_def)
qed

text \<open>The conversion as one disjunction of its independent parts.\<close>

lemma eptEntryToNpt_parts:
  "eptEntryToNpt e leaf =
     (if ept_present e
      then (e AND push_bit 12 (mask 40)) OR flag 0 OR flag 2
           OR (if bit e 1 then flag 1 else 0) OR (if bit e 2 then 0 else flag 63)
           OR (if leaf \<and> bit e 7 then flag 7 else 0)
           OR (if leaf \<and> ept_uncacheable e then flag 3 OR flag 4 else 0)
      else 0)"
proof -
  have here: "e AND (EPT_READ OR EPT_WRITE OR EPT_EXECUTE) = 0 \<longleftrightarrow> \<not> ept_present e"
    by (simp add: hw_consts and_three_flags ept_present_def)
  have uc: "drop_bit EPT_MEMTYPE_SHIFT e AND 0x7 = 0 \<longleftrightarrow> ept_uncacheable e"
    by (simp add: EPT_MEMTYPE_SHIFT_def memtype_zero)
  show ?thesis
    unfolding eptEntryToNpt_def here uc Let_def
    unfolding hw_consts and_flag_eq_0_iff ept_addr_mask_bits
    by (simp add: or.assoc)
qed

lemma bit_if_0: "bit (if c then x else 0 :: 'a::len word) k \<longleftrightarrow> c \<and> bit x k"
  and bit_0_if: "bit (if c then 0 else x :: 'a word) k \<longleftrightarrow> \<not> c \<and> bit x k"
  by simp_all

lemma bit_flag64: "n < 64 \<Longrightarrow> bit (flag n :: u64) k \<longleftrightarrow> k = n"
  by (auto simp: bit_flag_iff)

lemma bit_addr: "bit ((e :: u64) AND push_bit 12 (mask 40)) k \<longleftrightarrow> 12 \<le> k \<and> k < 52 \<and> bit e k"
  by (auto simp: bit_simps)

lemma bit_eptEntryToNpt:
  "bit (eptEntryToNpt e leaf) k \<longleftrightarrow> ept_present e \<and>
     (k = 0 \<or> k = 2 \<or> k = 1 \<and> bit e 1 \<or> k = 63 \<and> \<not> bit e 2 \<or> 12 \<le> k \<and> k < 52 \<and> bit e k
      \<or> leaf \<and> (k = 7 \<and> bit e 7 \<or> (k = 3 \<or> k = 4) \<and> ept_uncacheable e))"
  unfolding eptEntryToNpt_parts bit_if_0 bit_or_iff bit_0_if bit_addr
  by (subst bit_flag64, simp)+ blast

section \<open>Permissions along a path\<close>

text \<open>
  A path is the list of entries a walk visits, the page-mapping entry last. EPT grants an access
  when every entry has its bit; the x86-64 format grants a user read when every entry is present
  and user, a write when every entry also has RW, a fetch when none has NX.
\<close>

definition ept_readable :: "u64 list \<Rightarrow> bool" where "ept_readable = list_all (\<lambda>e. bit e 0)"
definition ept_writable :: "u64 list \<Rightarrow> bool" where "ept_writable = list_all (\<lambda>e. bit e 1)"
definition ept_executable :: "u64 list \<Rightarrow> bool" where "ept_executable = list_all (\<lambda>e. bit e 2)"

definition npt_readable :: "u64 list \<Rightarrow> bool" where
  "npt_readable = list_all (\<lambda>e. bit e 0 \<and> bit e 2)"

definition npt_writable :: "u64 list \<Rightarrow> bool" where
  "npt_writable p \<longleftrightarrow> npt_readable p \<and> list_all (\<lambda>e. bit e 1) p"

definition npt_executable :: "u64 list \<Rightarrow> bool" where
  "npt_executable p \<longleftrightarrow> npt_readable p \<and> list_all (\<lambda>e. \<not> bit e 63) p"

fun convert_path :: "u64 list \<Rightarrow> u64 list" where
  "convert_path [] = []"
| "convert_path [e] = [eptEntryToNpt e True]"
| "convert_path (e # es) = eptEntryToNpt e False # convert_path es"

lemma list_all_convert_path:
  assumes "\<And>e leaf. P (eptEntryToNpt e leaf) \<longleftrightarrow> Q e"
  shows "list_all P (convert_path es) \<longleftrightarrow> list_all Q es"
  by (induction es rule: convert_path.induct) (simp_all add: assms)

lemma npt_readable_convert: "npt_readable (convert_path es) \<longleftrightarrow> list_all ept_present es"
  unfolding npt_readable_def by (rule list_all_convert_path) (auto simp: bit_eptEntryToNpt)

text \<open>
  Converting a paging entry keeps the translation and maps the permissions: an absent entry
  becomes 0; a present one keeps exactly the physical address bits 12 to 51, is present and
  user-accessible, is writable iff EPT write was set and non-executable iff EPT execute was clear;
  only a leaf carries the page-size bit and, iff its memory type is uncacheable, PWT and PCD. No
  other bit is ever set.
\<close>

theorem ept_entry_conversion:
  "bit (eptEntryToNpt e leaf) k \<longleftrightarrow> (bit e 0 \<or> bit e 1 \<or> bit e 2) \<and>
     (k = 0 \<or> k = 2 \<or> k = 1 \<and> bit e 1 \<or> k = 63 \<and> \<not> bit e 2 \<or> 12 \<le> k \<and> k < 52 \<and> bit e k
      \<or> leaf \<and> (k = 7 \<and> bit e 7 \<or> (k = 3 \<or> k = 4) \<and> \<not> bit e 3 \<and> \<not> bit e 4 \<and> \<not> bit e 5))"
  unfolding bit_eptEntryToNpt ept_present_def ept_uncacheable_def by (rule refl)

text \<open>
  C22: Along any path of tables and a page, the converted entries grant a write exactly when EPT
  granted it, and a fetch exactly when EPT granted it. A read is granted exactly when every entry
  is present, that is, also through execute-only or write-only entries that EPT makes unreadable;
  so no read EPT granted is lost, and an execute-only page becomes readable.
\<close>

theorem path_permissions:
  "npt_writable (convert_path es) = ept_writable es
 \<and> npt_executable (convert_path es) = ept_executable es
 \<and> npt_readable (convert_path es) = list_all ept_present es
 \<and> npt_readable (convert_path [0x4]) \<and> \<not> ept_readable [0x4]"
proof -
  have w: "list_all (\<lambda>e. bit e 1) (convert_path es) \<longleftrightarrow> list_all (\<lambda>e. bit e 1) es"
    by (rule list_all_convert_path) (auto simp: bit_eptEntryToNpt ept_present_def)
  have x: "list_all (\<lambda>e. \<not> bit e 63) (convert_path es) \<longleftrightarrow> list_all (\<lambda>e. ept_present e \<longrightarrow> bit e 2) es"
    by (rule list_all_convert_path) (auto simp: bit_eptEntryToNpt)
  have "npt_writable (convert_path es) = ept_writable es"
    unfolding npt_writable_def w npt_readable_convert ept_writable_def
    by (auto simp: list_all_iff ept_present_def)
  moreover have "npt_executable (convert_path es) = ept_executable es"
    unfolding npt_executable_def x npt_readable_convert ept_executable_def
    by (auto simp: list_all_iff ept_present_def)
  moreover have "npt_readable (convert_path [0x4]) \<and> \<not> ept_readable [0x4]"
    unfolding npt_readable_convert by (simp add: ept_readable_def ept_present_def)
  ultimately show ?thesis
    by (simp add: npt_readable_convert)
qed

end
