(* ===== verification/VmcbLayout.thy ===== *)
theory VmcbLayout
  imports Translate
begin

text \<open>
  The typing of the VMCB page. The source reaches the same 4096 bytes through three views: the
  members of the packed struct \<open>vmcb_t\<close>, segment slots behind a cast pointer, and 8-byte or 1-byte
  cells at absolute offsets. The theory lists every cell any of the views can name and shows that
  they form one well-typed layout.
\<close>

section \<open>The named cells\<close>

text \<open>A cell is its offset and its size in bytes; the reserved members of the struct are not named.\<close>

definition member_cell :: "vmcb_member \<Rightarrow> nat \<times> nat" where
  "member_cell x = (vmcb_off x, the (map_of vmcb_t x))"

definition slot_cells :: "nat \<Rightarrow> (nat \<times> nat) list" where
  "slot_cells off = map (\<lambda>(x, n). (seg_off off x, n)) vmcb_seg_t"

definition control_cells :: "(nat \<times> nat) list" where
  "control_cells =
     map member_cell
       [intercept_cr, intercept_dr, intercept_exceptions, intercept_1, intercept_2,
        pause_filter_thresh, pause_filter_count, iopm_base_pa, msrpm_base_pa, tsc_offset,
        guest_asid, tlb_control, v_intr, interrupt_shadow, exit_code, exit_info_1, exit_info_2,
        exit_int_info, np_enable]
     @ [(VMCB_CTL_EVENTINJ, 8), member_cell nested_cr3, (VMCB_CTL_NRIP, 8)]"

definition save_area_cells :: "(nat \<times> nat) list" where
  "save_area_cells =
     concat (map slot_cells
       [VMCB_SEG_ES, VMCB_SEG_CS, VMCB_SEG_SS, VMCB_SEG_DS, VMCB_SEG_FS, VMCB_SEG_GS,
        VMCB_SEG_GDTR, VMCB_SEG_LDTR, VMCB_SEG_IDTR, VMCB_SEG_TR])
     @ (VMCB_CPL, 1) # map (\<lambda>off. (off, 8))
         [VMCB_EFER, VMCB_CR4, VMCB_CR3, VMCB_CR0, VMCB_DR7, VMCB_DR6, VMCB_RFLAGS, VMCB_RIP,
          VMCB_RSP, VMCB_RAX, VMCB_STAR, VMCB_LSTAR, VMCB_CSTAR, VMCB_SFMASK, VMCB_KGSBASE,
          VMCB_SYSENTCS, VMCB_SYSENTESP, VMCB_SYSENTEIP, VMCB_CR2, VMCB_GPAT]"

definition vmcb_cells :: "(nat \<times> nat) list" where
  "vmcb_cells = control_cells @ save_area_cells"

text \<open>The cells as numbers, once, for the proofs below.\<close>

lemma member_cell_values:
  "member_cell intercept_cr = (0, 4)" "member_cell intercept_dr = (4, 4)"
  "member_cell intercept_exceptions = (8, 4)" "member_cell intercept_1 = (0xC, 4)"
  "member_cell intercept_2 = (0x10, 4)" "member_cell pause_filter_thresh = (0x3C, 2)"
  "member_cell pause_filter_count = (0x3E, 2)" "member_cell iopm_base_pa = (0x40, 8)"
  "member_cell msrpm_base_pa = (0x48, 8)" "member_cell tsc_offset = (0x50, 8)"
  "member_cell guest_asid = (0x58, 4)" "member_cell tlb_control = (0x5C, 1)"
  "member_cell v_intr = (0x60, 8)" "member_cell interrupt_shadow = (0x68, 8)"
  "member_cell exit_code = (0x70, 8)" "member_cell exit_info_1 = (0x78, 8)"
  "member_cell exit_info_2 = (0x80, 8)" "member_cell exit_int_info = (0x88, 8)"
  "member_cell np_enable = (0x90, 8)" "member_cell nested_cr3 = (0xB0, 8)"
  by (simp_all add: member_cell_def vmcb_off_values vmcb_t_def)

lemma slot_cells_values: "slot_cells off = [(off, 2), (off + 2, 2), (off + 4, 4), (off + 8, 8)]"
  by (simp add: slot_cells_def vmcb_seg_t_def seg_off_values)

lemmas cell_values = control_cells_def save_area_cells_def member_cell_values slot_cells_values layout

text \<open>
  One pass in the order of the list decides the layout: every cell is a power of two bytes long and
  aligned to its length, and starts where the one before it has ended.
\<close>

fun packed_from :: "nat \<Rightarrow> (nat \<times> nat) list \<Rightarrow> bool" where
  "packed_from lo [] \<longleftrightarrow> True"
| "packed_from lo ((off, n) # cs) \<longleftrightarrow>
     lo \<le> off \<and> n \<in> {1, 2, 4, 8} \<and> off mod n = 0 \<and> packed_from (off + n) cs"

primrec end_of :: "nat \<Rightarrow> (nat \<times> nat) list \<Rightarrow> nat" where
  "end_of lo [] = lo"
| "end_of lo (c # cs) = end_of (fst c + snd c) cs"

lemma end_of_ge: "packed_from lo cs \<Longrightarrow> lo \<le> end_of lo cs"
  by (induction lo cs rule: packed_from.induct) auto

lemma packed_from_append:
  "packed_from lo (cs @ ds) \<longleftrightarrow> packed_from lo cs \<and> packed_from (end_of lo cs) ds"
  by (induction lo cs rule: packed_from.induct) auto

lemma packed_bounds:
  "packed_from lo cs \<Longrightarrow> c \<in> set cs \<Longrightarrow> lo \<le> fst c \<and> fst c + snd c \<le> end_of lo cs"
  by (induction lo cs rule: packed_from.induct) (auto dest: end_of_ge)

lemma packed_aligned: "packed_from lo cs \<Longrightarrow> (off, n) \<in> set cs \<Longrightarrow> n \<in> {1, 2, 4, 8} \<and> off mod n = 0"
  by (induction lo cs rule: packed_from.induct) auto

lemma packed_apart:
  "packed_from lo cs \<Longrightarrow> c \<in> set cs \<Longrightarrow> d \<in> set cs \<Longrightarrow> c \<noteq> d \<Longrightarrow>
     fst c + snd c \<le> fst d \<or> fst d + snd d \<le> fst c"
  by (induction lo cs rule: packed_from.induct) (auto dest: packed_bounds)

lemma control_packed: "packed_from 0 control_cells" "end_of 0 control_cells = 0xD0"
  by (simp_all add: cell_values)

lemma save_area_packed:
  "packed_from VMCB_STATE_SAVE_OFFSET save_area_cells"
  "end_of VMCB_STATE_SAVE_OFFSET save_area_cells = 0x670"
  by (simp_all add: cell_values)

lemma packed_from_mono: "packed_from lo cs \<Longrightarrow> lo' \<le> lo \<Longrightarrow> packed_from lo' cs"
  by (cases "(lo, cs)" rule: packed_from.cases) auto

lemma vmcb_packed: "packed_from 0 vmcb_cells"
  using control_packed save_area_packed(1)
  by (auto simp: vmcb_cells_def packed_from_append layout intro: packed_from_mono)

section \<open>The layout is well typed\<close>

text \<open>
  C25: the three views of the VMCB form one typed page. Every named cell, whichever view names it, is
  1, 2, 4 or 8 bytes long, aligned to its length and inside the page, the control cells below the
  state-save area and the others in it; and any two different cells are apart, so a store of any
  value to one leaves the byte contents of the other as they were. The two packed structures have
  exactly the sizes the header asserts.
\<close>

theorem vmcb_layout_well_typed:
  assumes "c \<in> set vmcb_cells" and "d \<in> set vmcb_cells" and "c \<noteq> d" and "LENGTH('a::len) = 8 * snd c"
  shows "snd c \<in> {1, 2, 4, 8} \<and> fst c mod snd c = 0 \<and> fst c + snd c \<le> VMCB_SIZE
    \<and> (c \<in> set control_cells \<longrightarrow> fst c + snd c \<le> VMCB_STATE_SAVE_OFFSET)
    \<and> (c \<in> set save_area_cells \<longrightarrow> VMCB_STATE_SAVE_OFFSET \<le> fst c)
    \<and> map (store_le v (fst c) (x :: 'a word)) [fst d..<fst d + snd d] = map v [fst d..<fst d + snd d]
    \<and> size_of vmcb_t = VMCB_SIZE \<and> size_of vmcb_seg_t = 16"
proof -
  note ctl = packed_bounds [OF control_packed(1), of c]
    and sav = packed_bounds [OF save_area_packed(1), of c]
  have "fst c + snd c \<le> VMCB_SIZE"
    using assms(1) ctl sav by (auto simp: vmcb_cells_def control_packed save_area_packed VMCB_SIZE_def)
  moreover have "snd c \<in> {1, 2, 4, 8} \<and> fst c mod snd c = 0"
    using packed_aligned [OF vmcb_packed, of "fst c" "snd c"] assms(1) by simp
  moreover have "map (store_le v (fst c) x) [fst d..<fst d + snd d] = map v [fst d..<fst d + snd d]"
    using packed_apart [OF vmcb_packed assms(1-3)] assms(4) by (auto simp: store_le_def)
  ultimately show ?thesis
    using ctl sav by (auto simp: size_of_vmcb_t size_of_vmcb_seg_t control_packed layout)
qed

theorem vmcb_layout_well_typed_witness:
  "map (store_le (\<lambda>_. 7) VMCB_RAX (0xABCDEF :: u64)) [0x0A8..<0x0B0] = [7, 7, 7, 7, 7, 7, 7, 7]"
proof -
  have "(VMCB_RAX, 8) \<in> set vmcb_cells" and "(0x0A8, 8) \<in> set vmcb_cells"
    by (simp_all add: vmcb_cells_def cell_values)
  from vmcb_layout_well_typed [OF this, where 'a = 64, of "\<lambda>_. 7" "0xABCDEF"] show ?thesis
    by (simp add: layout upt_rec)
qed

end
