(* ===== verification/TrapFrame.thy ===== *)
theory TrapFrame
  imports AmdvPrelude
begin

text \<open>
  \<^verbatim>\<open>src/kern_trap.hpp\<close>: the saved state of a trap and the register lookup \<open>amdv_gpr\<close>.
  The source's function returns a pointer into the saved state; the model returns the slot the
  pointer designates, with a read and a write through it.
\<close>

section \<open>The saved state\<close>

record amdv_intr_stack_frame =
  isf_trapno :: u16
  isf_cpuflag :: u16
  isf_pad :: u32
  isf_trapfn :: u64
  isf_err :: u64
  isf_rip :: u64
  isf_cs :: u64
  isf_rflags :: u64
  isf_rsp :: u64
  isf_ss :: u64

record amdv_saved_state64 =
  st_rdi :: u64
  st_rsi :: u64
  st_rdx :: u64
  st_r10 :: u64
  st_r8 :: u64
  st_r9 :: u64
  st_cr2 :: u64
  st_r15 :: u64
  st_r14 :: u64
  st_r13 :: u64
  st_r12 :: u64
  st_r11 :: u64
  st_rbp :: u64
  st_rbx :: u64
  st_rcx :: u64
  st_rax :: u64
  st_gs :: u32
  st_fs :: u32
  st_isf_pad :: u32
  st_isf :: amdv_intr_stack_frame

section \<open>Register slots\<close>

datatype gpr_slot =
    At_rax | At_rcx | At_rdx | At_rbx | At_isf_rsp | At_rbp | At_rsi | At_rdi
  | At_r8 | At_r9 | At_r10 | At_r11 | At_r12 | At_r13 | At_r14 | At_r15

definition amdv_gpr :: "u8 \<Rightarrow> gpr_slot" where
  "amdv_gpr idx =
     (let i = idx AND 0xF in
      if i = 0 then At_rax
      else if i = 1 then At_rcx
      else if i = 2 then At_rdx
      else if i = 3 then At_rbx
      else if i = 4 then At_isf_rsp
      else if i = 5 then At_rbp
      else if i = 6 then At_rsi
      else if i = 7 then At_rdi
      else if i = 8 then At_r8
      else if i = 9 then At_r9
      else if i = 10 then At_r10
      else if i = 11 then At_r11
      else if i = 12 then At_r12
      else if i = 13 then At_r13
      else if i = 14 then At_r14
      else At_r15)"

primrec slot_get :: "amdv_saved_state64 \<Rightarrow> gpr_slot \<Rightarrow> u64" where
  "slot_get s At_rax = st_rax s"
| "slot_get s At_rcx = st_rcx s"
| "slot_get s At_rdx = st_rdx s"
| "slot_get s At_rbx = st_rbx s"
| "slot_get s At_isf_rsp = isf_rsp (st_isf s)"
| "slot_get s At_rbp = st_rbp s"
| "slot_get s At_rsi = st_rsi s"
| "slot_get s At_rdi = st_rdi s"
| "slot_get s At_r8 = st_r8 s"
| "slot_get s At_r9 = st_r9 s"
| "slot_get s At_r10 = st_r10 s"
| "slot_get s At_r11 = st_r11 s"
| "slot_get s At_r12 = st_r12 s"
| "slot_get s At_r13 = st_r13 s"
| "slot_get s At_r14 = st_r14 s"
| "slot_get s At_r15 = st_r15 s"

primrec slot_set :: "amdv_saved_state64 \<Rightarrow> gpr_slot \<Rightarrow> u64 \<Rightarrow> amdv_saved_state64" where
  "slot_set s At_rax v = s\<lparr>st_rax := v\<rparr>"
| "slot_set s At_rcx v = s\<lparr>st_rcx := v\<rparr>"
| "slot_set s At_rdx v = s\<lparr>st_rdx := v\<rparr>"
| "slot_set s At_rbx v = s\<lparr>st_rbx := v\<rparr>"
| "slot_set s At_isf_rsp v = s\<lparr>st_isf := (st_isf s)\<lparr>isf_rsp := v\<rparr>\<rparr>"
| "slot_set s At_rbp v = s\<lparr>st_rbp := v\<rparr>"
| "slot_set s At_rsi v = s\<lparr>st_rsi := v\<rparr>"
| "slot_set s At_rdi v = s\<lparr>st_rdi := v\<rparr>"
| "slot_set s At_r8 v = s\<lparr>st_r8 := v\<rparr>"
| "slot_set s At_r9 v = s\<lparr>st_r9 := v\<rparr>"
| "slot_set s At_r10 v = s\<lparr>st_r10 := v\<rparr>"
| "slot_set s At_r11 v = s\<lparr>st_r11 := v\<rparr>"
| "slot_set s At_r12 v = s\<lparr>st_r12 := v\<rparr>"
| "slot_set s At_r13 v = s\<lparr>st_r13 := v\<rparr>"
| "slot_set s At_r14 v = s\<lparr>st_r14 := v\<rparr>"
| "slot_set s At_r15 v = s\<lparr>st_r15 := v\<rparr>"

lemma slot_get_set: "slot_get (slot_set s r v) r' = (if r' = r then v else slot_get s r')"
  by (cases r; cases r') simp_all

text \<open>The sixteen slots as an \<open>enum\<close>, so that statements about every register compute.\<close>

instantiation gpr_slot :: enum
begin

definition enum_gpr_slot :: "gpr_slot list" where
  "enum_gpr_slot =
    [At_rax, At_rcx, At_rdx, At_rbx, At_isf_rsp, At_rbp, At_rsi, At_rdi,
     At_r8, At_r9, At_r10, At_r11, At_r12, At_r13, At_r14, At_r15]"

definition enum_all_gpr_slot :: "(gpr_slot \<Rightarrow> bool) \<Rightarrow> bool" where
  "enum_all_gpr_slot P = list_all P enum_class.enum"

definition enum_ex_gpr_slot :: "(gpr_slot \<Rightarrow> bool) \<Rightarrow> bool" where
  "enum_ex_gpr_slot P = list_ex P enum_class.enum"

lemma set_enum_gpr_slot: "r \<in> set (enum_class.enum :: gpr_slot list)"
  by (cases r) (simp_all add: enum_gpr_slot_def)

instance
proof
  show "(UNIV :: gpr_slot set) = set enum_class.enum"
    using set_enum_gpr_slot by blast
  show "distinct (enum_class.enum :: gpr_slot list)"
    by (simp add: enum_gpr_slot_def)
  fix P :: "gpr_slot \<Rightarrow> bool"
  show "enum_class.enum_all P \<longleftrightarrow> Ball UNIV P"
    using set_enum_gpr_slot by (auto simp: enum_all_gpr_slot_def list_all_iff)
  show "enum_class.enum_ex P \<longleftrightarrow> Bex UNIV P"
    using set_enum_gpr_slot by (auto simp: enum_ex_gpr_slot_def list_ex_iff)
qed

end

section \<open>Leaving the trap\<close>

definition RFLAGS_STATUS_MASK :: u64 where
  "RFLAGS_STATUS_MASK = 0x8D5"

text \<open>The last statements of \<open>handleUD\<close>: step over the instruction and report VMsucceed.\<close>

definition vm_succeed :: "amdv_saved_state64 \<Rightarrow> u8 \<Rightarrow> amdv_saved_state64" where
  "vm_succeed s len =
     (let isf = st_isf s;
          isf = isf\<lparr>isf_rip := isf_rip isf + ucast len\<rparr>;
          isf = isf\<lparr>isf_rflags := isf_rflags isf AND NOT RFLAGS_STATUS_MASK\<rparr>
      in s\<lparr>st_isf := isf\<rparr>)"

section \<open>The interface of the register file\<close>

text \<open>
  What the emulator relies on: registers named by an instruction's register number behave as
  independent cells, only the low four bits of the number count, the sixteen numbers name
  sixteen different registers, and stepping over an instruction touches none of them.
\<close>

locale gpr_file =
  fixes get :: "'s \<Rightarrow> 'r \<Rightarrow> u64"
    and set :: "'s \<Rightarrow> 'r \<Rightarrow> u64 \<Rightarrow> 's"
    and reg :: "u8 \<Rightarrow> 'r"
  assumes get_set: "get (set s r v) r' = (if r' = r then v else get s r')"
    and reg_eq_iff: "reg i = reg j \<longleftrightarrow> i AND 0xF = j AND 0xF"
begin

lemma get_set_same: "get (set s (reg i) v) (reg i) = v"
  by (simp add: get_set)

lemma get_set_other: "i AND 0xF \<noteq> j AND 0xF \<Longrightarrow> get (set s (reg i) v) (reg j) = get s (reg j)"
  by (auto simp: get_set reg_eq_iff)

end

locale trap_file = gpr_file get set reg
  for get :: "'s \<Rightarrow> 'r \<Rightarrow> u64" and set :: "'s \<Rightarrow> 'r \<Rightarrow> u64 \<Rightarrow> 's" and reg :: "u8 \<Rightarrow> 'r" +
  fixes leave :: "'s \<Rightarrow> u8 \<Rightarrow> 's"
  assumes get_leave: "get (leave s n) r = get s r"
begin

lemma get_leave_set: "get (leave (set s r v) n) r' = (if r' = r then v else get s r')"
  by (simp add: get_leave get_set)

end

text \<open>The number a slot has in the x86 encoding; \<open>amdv_gpr\<close> is its inverse on four bits.\<close>

primrec slot_num :: "gpr_slot \<Rightarrow> u8" where
  "slot_num At_rax = 0" | "slot_num At_rcx = 1" | "slot_num At_rdx = 2" | "slot_num At_rbx = 3"
| "slot_num At_isf_rsp = 4" | "slot_num At_rbp = 5" | "slot_num At_rsi = 6" | "slot_num At_rdi = 7"
| "slot_num At_r8 = 8" | "slot_num At_r9 = 9" | "slot_num At_r10 = 10" | "slot_num At_r11 = 11"
| "slot_num At_r12 = 12" | "slot_num At_r13 = 13" | "slot_num At_r14 = 14" | "slot_num At_r15 = 15"

lemma amdv_gpr_slot_num: "amdv_gpr (slot_num r) = r"
  by (cases r) (simp_all add: amdv_gpr_def)

lemma slot_num_amdv_gpr: "slot_num (amdv_gpr i) = i AND 0xF"
proof -
  have "i AND 0xF \<le> 15"
    by (rule word_and_le1)
  then have "unat (i AND 0xF) < 16"
    by (simp add: word_le_nat_alt)
  then have "i AND 0xF = 15"
    if "i AND 0xF \<noteq> 0" "i AND 0xF \<noteq> 1" "i AND 0xF \<noteq> 2" "i AND 0xF \<noteq> 3" "i AND 0xF \<noteq> 4"
      "i AND 0xF \<noteq> 5" "i AND 0xF \<noteq> 6" "i AND 0xF \<noteq> 7" "i AND 0xF \<noteq> 8" "i AND 0xF \<noteq> 9"
      "i AND 0xF \<noteq> 10" "i AND 0xF \<noteq> 11" "i AND 0xF \<noteq> 12" "i AND 0xF \<noteq> 13" "i AND 0xF \<noteq> 14"
    using that by (simp add: word_unat_eq_iff) presburger
  then show ?thesis
    by (simp add: amdv_gpr_def Let_def)
qed

lemma amdv_gpr_eq_iff: "amdv_gpr i = amdv_gpr j \<longleftrightarrow> i AND 0xF = j AND 0xF"
proof
  assume "amdv_gpr i = amdv_gpr j"
  then have "slot_num (amdv_gpr i) = slot_num (amdv_gpr j)" by simp
  then show "i AND 0xF = j AND 0xF"
    by (simp only: slot_num_amdv_gpr)
next
  assume "i AND 0xF = j AND 0xF"
  then show "amdv_gpr i = amdv_gpr j"
    unfolding amdv_gpr_def by simp
qed

interpretation trap: trap_file slot_get slot_set amdv_gpr vm_succeed
proof unfold_locales
  fix s r v r' i j n
  show "slot_get (slot_set s r v) r' = (if r' = r then v else slot_get s r')"
    by (rule slot_get_set)
  show "amdv_gpr i = amdv_gpr j \<longleftrightarrow> i AND 0xF = j AND 0xF"
    by (rule amdv_gpr_eq_iff)
  show "slot_get (vm_succeed s n) r = slot_get s r"
    by (cases r) (simp_all add: vm_succeed_def Let_def)
qed

end
