(* ===== verification/VmxEmu.thy ===== *)
theory VmxEmu
  imports Translate TrapFrame
begin

text \<open>
  The class \<open>VmxEmulator\<close> of \<^verbatim>\<open>src/kern_vmx_emu.hpp\<close> and
  \<^verbatim>\<open>src/kern_vmx_emu.cpp\<close>: the decoder of faulting VMX instructions, their semantics
  against the shadow VMCS, and the guest entry. Three things are parameters: the length
  disassembler \<open>hde64_disasm\<close> (bundled with Lilu), the assembly routine \<open>svmWorldSwitch\<close>
  (present only in a build with \<open>AMDV_ENABLE_GUEST_LAUNCH\<close>), and the kernel memory, a partial
  map from page addresses to pages in which a page that is not mapped makes a dereference fail.
\<close>

section \<open>Decoded instructions\<close>

record hde64s =
  hs_p_rep :: u8
  hs_p_66 :: u8
  hs_rex_r :: u8
  hs_rex_b :: u8
  hs_opcode :: u8
  hs_opcode2 :: u8
  hs_modrm :: u8
  hs_modrm_mod :: u8
  hs_modrm_reg :: u8
  hs_modrm_rm :: u8
  hs_flags :: u32

record hde_lib =
  hde64_disasm :: "u64 \<Rightarrow> u32 \<times> hde64s"
  F_ERROR :: u32

record vmx_decoded =
  dec_op :: vmx_opcode
  dec_field :: u32
  dec_srcValue :: u64
  dec_dstReg :: "gpr_slot option"
  dec_length :: u8

definition new_decoded :: vmx_decoded where
  "new_decoded = \<lparr>dec_op = VMXOP_NONE, dec_field = 0, dec_srcValue = 0, dec_dstReg = None, dec_length = 0\<rparr>"

text \<open>The classification by opcode bytes, prefixes and ModRM.\<close>

definition classify :: "hde64s \<Rightarrow> vmx_opcode option" where
  "classify hs =
     (if hs_opcode hs \<noteq> 0x0F then None
      else if hs_opcode2 hs = 0x78 then Some VMXOP_VMREAD
      else if hs_opcode2 hs = 0x79 then Some VMXOP_VMWRITE
      else if hs_opcode2 hs = 0x01 then
        (if hs_modrm hs = 0xC2 then Some VMXOP_VMLAUNCH
         else if hs_modrm hs = 0xC3 then Some VMXOP_VMRESUME
         else if hs_modrm hs = 0xC4 then Some VMXOP_VMXOFF
         else None)
      else if hs_opcode2 hs = 0xC7 then
        (if hs_modrm_reg hs = 6 then
           Some (if hs_p_rep hs = 0xF3 then VMXOP_VMXON
                 else if hs_p_66 hs = 0x66 then VMXOP_VMCLEAR
                 else VMXOP_VMPTRLD)
         else if hs_modrm_reg hs = 7 then Some VMXOP_VMPTRST
         else None)
      else if hs_opcode2 hs = 0x38 then
        (if hs_p_66 hs = 0x66 \<and> hs_modrm hs = 0x80 then Some VMXOP_INVEPT
         else if hs_p_66 hs = 0x66 \<and> hs_modrm hs = 0x81 then Some VMXOP_INVVPID
         else None)
      else None)"

text \<open>
  \<open>decodeVmx\<close> returns a flag and fills its out-parameter; the only caller ignores the
  out-parameter when the flag is false, so the model returns it only with a true flag.
\<close>

definition decodeVmx :: "hde_lib \<Rightarrow> amdv_saved_state64 \<Rightarrow> vmx_decoded option" where
  "decodeVmx lib st =
     (let (len, hs) = hde64_disasm lib (isf_rip (st_isf st)) in
      if len = 0 \<or> hs_flags hs AND F_ERROR lib \<noteq> 0 then None
      else case classify hs of
        None \<Rightarrow> None
      | Some op \<Rightarrow>
          (let out = new_decoded\<lparr>dec_op := op, dec_length := ucast len\<rparr> in
           if op = VMXOP_VMREAD \<or> op = VMXOP_VMWRITE then
             if hs_modrm_mod hs \<noteq> 3 then None
             else
               (let regIdx = hs_modrm_reg hs OR (if hs_rex_r hs \<noteq> 0 then 8 else 0);
                    rmIdx = hs_modrm_rm hs OR (if hs_rex_b hs \<noteq> 0 then 8 else 0);
                    out = out\<lparr>dec_field := ucast (slot_get st (amdv_gpr regIdx))\<rparr>
                in Some (if op = VMXOP_VMWRITE
                         then out\<lparr>dec_srcValue := slot_get st (amdv_gpr rmIdx)\<rparr>
                         else out\<lparr>dec_dstReg := Some (amdv_gpr rmIdx)\<rparr>))
           else Some out))"

section \<open>The emulator\<close>

record guest_gprs =
  g_rbx :: u64
  g_rcx :: u64
  g_rdx :: u64
  g_rbp :: u64
  g_rsi :: u64
  g_rdi :: u64
  g_r8 :: u64
  g_r9 :: u64
  g_r10 :: u64
  g_r11 :: u64
  g_r12 :: u64
  g_r13 :: u64
  g_r14 :: u64
  g_r15 :: u64

record vmx_emulator =
  fVmcs :: shadow_vmcs
  fGprs :: guest_gprs
  fGuestRax :: u64
  fVmcb :: u64
  fVmcbPA :: u64
  fSvmFeatures :: u32
  fVmxRoot :: bool

definition zero_gprs :: guest_gprs where
  "zero_gprs = \<lparr>g_rbx = 0, g_rcx = 0, g_rdx = 0, g_rbp = 0, g_rsi = 0, g_rdi = 0, g_r8 = 0,
     g_r9 = 0, g_r10 = 0, g_r11 = 0, g_r12 = 0, g_r13 = 0, g_r14 = 0, g_r15 = 0\<rparr>"

definition new_emulator :: vmx_emulator where
  "new_emulator = \<lparr>fVmcs = new_shadow, fGprs = zero_gprs, fGuestRax = 0, fVmcb = 0, fVmcbPA = 0,
     fSvmFeatures = 0, fVmxRoot = False\<rparr>"

definition emu_bind :: "vmx_emulator \<Rightarrow> u64 \<Rightarrow> u64 \<Rightarrow> u32 \<Rightarrow> vmx_emulator" where
  "emu_bind emu vmcb vmcbPA svmFeatures =
     emu\<lparr>fVmcb := vmcb, fVmcbPA := vmcbPA, fSvmFeatures := svmFeatures\<rparr>"

definition vmxon :: "vmx_emulator \<Rightarrow> vmx_emulator" where
  "vmxon emu = emu\<lparr>fVmxRoot := True\<rparr>"

definition vmxoff :: "vmx_emulator \<Rightarrow> vmx_emulator" where
  "vmxoff emu = emu\<lparr>fVmxRoot := False\<rparr>"

definition vmptrld :: "vmx_emulator \<Rightarrow> vmx_emulator" where
  "vmptrld emu = emu\<lparr>fVmcs := setLaunched (fVmcs emu) False\<rparr>"

definition vmclear :: "vmx_emulator \<Rightarrow> vmx_emulator" where
  "vmclear emu = emu\<lparr>fVmcs := setLaunched (fVmcs emu) False\<rparr>"

definition vmwrite :: "vmx_emulator \<Rightarrow> u32 \<Rightarrow> u64 \<Rightarrow> bool \<times> vmx_emulator" where
  "vmwrite emu f v = (let (b, s) = shadow_write (fVmcs emu) f v in (b, emu\<lparr>fVmcs := s\<rparr>))"

definition vmread :: "vmx_emulator \<Rightarrow> u32 \<Rightarrow> u64" where
  "vmread emu f = shadow_read (fVmcs emu) f"

section \<open>Guest entry\<close>

text \<open>\<open>svmWorldSwitch(vmcbPA, &gprs)\<close>: it runs the guest and may change any page.\<close>

type_synonym world_switch = "u64 \<Rightarrow> guest_gprs \<Rightarrow> kmem \<Rightarrow> guest_gprs \<times> kmem"

definition vmlaunchResume ::
  "world_switch option \<Rightarrow> kmem \<Rightarrow> vmx_emulator \<Rightarrow> (u32 \<times> kmem \<times> vmx_emulator) kresult" where
  "vmlaunchResume sw m emu =
     (if fVmcb emu = 0 then Some (exit_reason_num EXIT_UNKNOWN, m, emu)
      else case m (fVmcb emu) of
        None \<Rightarrow> None
      | Some v \<Rightarrow>
          (let v = translateVmcsToVmcb (fVmcs emu) v;
               v = vmcb_set64 v VMCB_RAX (fGuestRax emu);
               m = m(fVmcb emu \<mapsto> v);
               (gprs, m) = (case sw of
                   Some switch \<Rightarrow> switch (fVmcbPA emu) (fGprs emu) m
                 | None \<Rightarrow> (fGprs emu, m(fVmcb emu \<mapsto> vmcb_st v exit_code VMEXIT_INVALID)));
               emu = emu\<lparr>fGprs := gprs\<rparr>
           in case m (fVmcb emu) of
                None \<Rightarrow> None
              | Some v \<Rightarrow>
                  (let emu = emu\<lparr>fGuestRax := vmcb_get64 v VMCB_RAX\<rparr>;
                       emu = emu\<lparr>fVmcs := translateVmcbToVmcs v (fVmcs emu) (fSvmFeatures emu)\<rparr>;
                       emu = emu\<lparr>fVmcs := setLaunched (fVmcs emu) True\<rparr>
                   in Some (ucast (vread (fVmcs emu) VMCS_VM_EXIT_REASON), m, emu))))"

section \<open>Dispatch of an undefined-opcode fault\<close>

text \<open>
  The state \<open>handleUD\<close> reads and writes: the kernel memory, the emulator and the trap frame.
  The result says whether the fault was consumed.
\<close>

definition handleUD ::
  "hde_lib \<Rightarrow> world_switch option \<Rightarrow> kmem \<Rightarrow> vmx_emulator \<Rightarrow> amdv_saved_state64
    \<Rightarrow> (bool \<times> kmem \<times> vmx_emulator \<times> amdv_saved_state64) kresult" where
  "handleUD lib sw m emu st =
     (case decodeVmx lib st of
        None \<Rightarrow> Some (False, m, emu, st)
      | Some d \<Rightarrow>
          (let consumed = (\<lambda>m emu st. Some (True, m, emu, vm_succeed st (dec_length d))) in
           case dec_op d of
             VMXOP_NONE \<Rightarrow> Some (False, m, emu, st)
           | VMXOP_VMXON \<Rightarrow> consumed m (vmxon emu) st
           | VMXOP_VMXOFF \<Rightarrow> consumed m (vmxoff emu) st
           | VMXOP_VMPTRLD \<Rightarrow> consumed m (vmptrld emu) st
           | VMXOP_VMCLEAR \<Rightarrow> consumed m (vmclear emu) st
           | VMXOP_VMPTRST \<Rightarrow> consumed m emu st
           | VMXOP_VMWRITE \<Rightarrow> consumed m (snd (vmwrite emu (dec_field d) (dec_srcValue d))) st
           | VMXOP_VMREAD \<Rightarrow>
               consumed m emu (case dec_dstReg d of
                   Some r \<Rightarrow> slot_set st r (vmread emu (dec_field d))
                 | None \<Rightarrow> st)
           | VMXOP_VMLAUNCH \<Rightarrow>
               (case vmlaunchResume sw m emu of
                  None \<Rightarrow> None | Some (_, m, emu) \<Rightarrow> consumed m emu st)
           | VMXOP_VMRESUME \<Rightarrow>
               (case vmlaunchResume sw m emu of
                  None \<Rightarrow> None | Some (_, m, emu) \<Rightarrow> consumed m emu st)
           | VMXOP_INVEPT \<Rightarrow> consumed m emu st
           | VMXOP_INVVPID \<Rightarrow> consumed m emu st))"

end
