(* ===== verification/VmxEmuProps.thy ===== *)
theory VmxEmuProps
  imports VmxEmu
begin

text \<open>
  The properties of the VMX emulator: what the decoder accepts, what a consumed or refused fault
  does to the trap frame, what \<open>vmread\<close> sees after \<open>vmwrite\<close>, what a launch leaves in the
  shadow VMCS, and the invariant of every state reachable by faults.
\<close>

section \<open>The decoder\<close>

lemma decode_SomeE:
  assumes "decodeVmx lib st = Some d"
  obtains len hs op where "hde64_disasm lib (isf_rip (st_isf st)) = (len, hs)"
    and "len \<noteq> 0" and "hs_flags hs AND F_ERROR lib = 0" and "classify hs = Some op"
    and "dec_op d = op" and "dec_length d = ucast len"
    and "op = VMXOP_VMREAD \<or> op = VMXOP_VMWRITE \<Longrightarrow> hs_modrm_mod hs = 3 \<and>
      dec_field d = ucast (slot_get st (amdv_gpr (hs_modrm_reg hs OR (if hs_rex_r hs \<noteq> 0 then 8 else 0))))"
    and "op = VMXOP_VMREAD \<Longrightarrow>
      dec_dstReg d = Some (amdv_gpr (hs_modrm_rm hs OR (if hs_rex_b hs \<noteq> 0 then 8 else 0)))"
    and "op = VMXOP_VMWRITE \<Longrightarrow>
      dec_srcValue d = slot_get st (amdv_gpr (hs_modrm_rm hs OR (if hs_rex_b hs \<noteq> 0 then 8 else 0)))"
proof -
  obtain len hs where lh: "hde64_disasm lib (isf_rip (st_isf st)) = (len, hs)"
    by force
  from assms obtain op where ok: "len \<noteq> 0" "hs_flags hs AND F_ERROR lib = 0" and op: "classify hs = Some op"
    by (auto simp: decodeVmx_def lh split: if_splits option.splits)
  from assms ok op show thesis
    by (intro that [OF lh ok op]) (auto simp: decodeVmx_def lh new_decoded_def Let_def split: if_splits)
qed

lemma classify_not_none: "classify hs \<noteq> Some VMXOP_NONE"
  by (simp add: classify_def)

lemma decode_not_none: "decodeVmx lib st = Some d \<Longrightarrow> dec_op d \<noteq> VMXOP_NONE"
  by (erule decode_SomeE) (auto simp: classify_not_none)

lemma decoded_class:
  assumes "decodeVmx lib st = Some d" and "hde64_disasm lib (isf_rip (st_isf st)) = (len, hs)"
  shows "hs_opcode hs = 0x0F \<and> len \<noteq> 0 \<and> dec_length d = ucast len \<and> dec_op d \<noteq> VMXOP_NONE
    \<and> (dec_op d = VMXOP_VMREAD \<longleftrightarrow> hs_opcode2 hs = 0x78)
    \<and> (dec_op d = VMXOP_VMWRITE \<longleftrightarrow> hs_opcode2 hs = 0x79)
    \<and> (dec_op d = VMXOP_VMLAUNCH \<longleftrightarrow> hs_opcode2 hs = 0x01 \<and> hs_modrm hs = 0xC2)
    \<and> (dec_op d = VMXOP_VMRESUME \<longleftrightarrow> hs_opcode2 hs = 0x01 \<and> hs_modrm hs = 0xC3)
    \<and> (dec_op d = VMXOP_VMXOFF \<longleftrightarrow> hs_opcode2 hs = 0x01 \<and> hs_modrm hs = 0xC4)
    \<and> (dec_op d = VMXOP_VMXON \<longleftrightarrow> hs_opcode2 hs = 0xC7 \<and> hs_modrm_reg hs = 6 \<and> hs_p_rep hs = 0xF3)
    \<and> (dec_op d = VMXOP_VMCLEAR \<longleftrightarrow>
        hs_opcode2 hs = 0xC7 \<and> hs_modrm_reg hs = 6 \<and> hs_p_rep hs \<noteq> 0xF3 \<and> hs_p_66 hs = 0x66)
    \<and> (dec_op d = VMXOP_VMPTRLD \<longleftrightarrow>
        hs_opcode2 hs = 0xC7 \<and> hs_modrm_reg hs = 6 \<and> hs_p_rep hs \<noteq> 0xF3 \<and> hs_p_66 hs \<noteq> 0x66)
    \<and> (dec_op d = VMXOP_VMPTRST \<longleftrightarrow> hs_opcode2 hs = 0xC7 \<and> hs_modrm_reg hs = 7)
    \<and> (dec_op d = VMXOP_INVEPT \<longleftrightarrow> hs_opcode2 hs = 0x38 \<and> hs_p_66 hs = 0x66 \<and> hs_modrm hs = 0x80)
    \<and> (dec_op d = VMXOP_INVVPID \<longleftrightarrow> hs_opcode2 hs = 0x38 \<and> hs_p_66 hs = 0x66 \<and> hs_modrm hs = 0x81)
    \<and> (dec_op d \<in> {VMXOP_VMREAD, VMXOP_VMWRITE} \<longrightarrow> hs_modrm_mod hs = 3 \<and>
        dec_field d = ucast (slot_get st (amdv_gpr (hs_modrm_reg hs OR (if hs_rex_r hs \<noteq> 0 then 8 else 0)))))
    \<and> (dec_op d = VMXOP_VMREAD \<longrightarrow>
        dec_dstReg d = Some (amdv_gpr (hs_modrm_rm hs OR (if hs_rex_b hs \<noteq> 0 then 8 else 0))))
    \<and> (dec_op d = VMXOP_VMWRITE \<longrightarrow>
        dec_srcValue d = slot_get st (amdv_gpr (hs_modrm_rm hs OR (if hs_rex_b hs \<noteq> 0 then 8 else 0))))"
  using assms(1)
proof (rule decode_SomeE)
  fix len' hs' op
  assume h: "hde64_disasm lib (isf_rip (st_isf st)) = (len', hs')" and len: "len' \<noteq> 0"
    and c: "classify hs' = Some op" and d: "dec_op d = op" "dec_length d = ucast len'"
    and rw: "op = VMXOP_VMREAD \<or> op = VMXOP_VMWRITE \<Longrightarrow> hs_modrm_mod hs' = 3 \<and>
      dec_field d = ucast (slot_get st (amdv_gpr (hs_modrm_reg hs' OR (if hs_rex_r hs' \<noteq> 0 then 8 else 0))))"
    and r: "op = VMXOP_VMREAD \<Longrightarrow>
      dec_dstReg d = Some (amdv_gpr (hs_modrm_rm hs' OR (if hs_rex_b hs' \<noteq> 0 then 8 else 0)))"
    and w: "op = VMXOP_VMWRITE \<Longrightarrow>
      dec_srcValue d = slot_get st (amdv_gpr (hs_modrm_rm hs' OR (if hs_rex_b hs' \<noteq> 0 then 8 else 0)))"
  have eq: "hs' = hs" "len' = len"
    using h assms(2) by simp_all
  have "hs_opcode hs = 0x0F" and "op \<noteq> VMXOP_NONE"
    using c by (auto simp: eq classify_def split: if_splits)
  moreover have "(op = VMXOP_VMREAD \<longleftrightarrow> hs_opcode2 hs = 0x78) \<and> (op = VMXOP_VMWRITE \<longleftrightarrow> hs_opcode2 hs = 0x79)"
    and "(op = VMXOP_VMLAUNCH \<longleftrightarrow> hs_opcode2 hs = 0x01 \<and> hs_modrm hs = 0xC2)
      \<and> (op = VMXOP_VMRESUME \<longleftrightarrow> hs_opcode2 hs = 0x01 \<and> hs_modrm hs = 0xC3)
      \<and> (op = VMXOP_VMXOFF \<longleftrightarrow> hs_opcode2 hs = 0x01 \<and> hs_modrm hs = 0xC4)"
    and "(op = VMXOP_VMXON \<longleftrightarrow> hs_opcode2 hs = 0xC7 \<and> hs_modrm_reg hs = 6 \<and> hs_p_rep hs = 0xF3)
      \<and> (op = VMXOP_VMCLEAR \<longleftrightarrow>
          hs_opcode2 hs = 0xC7 \<and> hs_modrm_reg hs = 6 \<and> hs_p_rep hs \<noteq> 0xF3 \<and> hs_p_66 hs = 0x66)
      \<and> (op = VMXOP_VMPTRLD \<longleftrightarrow>
          hs_opcode2 hs = 0xC7 \<and> hs_modrm_reg hs = 6 \<and> hs_p_rep hs \<noteq> 0xF3 \<and> hs_p_66 hs \<noteq> 0x66)
      \<and> (op = VMXOP_VMPTRST \<longleftrightarrow> hs_opcode2 hs = 0xC7 \<and> hs_modrm_reg hs = 7)"
    and "(op = VMXOP_INVEPT \<longleftrightarrow> hs_opcode2 hs = 0x38 \<and> hs_p_66 hs = 0x66 \<and> hs_modrm hs = 0x80)
      \<and> (op = VMXOP_INVVPID \<longleftrightarrow> hs_opcode2 hs = 0x38 \<and> hs_p_66 hs = 0x66 \<and> hs_modrm hs = 0x81)"
    using c by (auto simp: eq classify_def split: if_splits)
  ultimately show ?thesis
    using len d rw r w by (simp add: eq)
qed

text \<open>The general registers in the order of their x86 numbers; only the low four bits of a number count.\<close>

definition x86_gpr :: "u8 \<Rightarrow> gpr_slot" where
  "x86_gpr i =
     [At_rax, At_rcx, At_rdx, At_rbx, At_isf_rsp, At_rbp, At_rsi, At_rdi,
      At_r8, At_r9, At_r10, At_r11, At_r12, At_r13, At_r14, At_r15] ! unat (take_bit 4 i)"

lemma x86_gpr_code: "amdv_gpr i = x86_gpr i"
proof -
  have four: "take_bit 4 i = slot_num (amdv_gpr i)"
    by (simp add: slot_num_amdv_gpr take_bit_eq_mask mask_eq_exp_minus_1)
  show ?thesis
    unfolding x86_gpr_def four by (cases "amdv_gpr i") simp_all
qed

text \<open>
  C16: The decoder accepts exactly the eleven VMX instruction classes, each by its opcode bytes,
  mandatory prefix and ModRM byte, \<open>VMREAD\<close> and \<open>VMWRITE\<close> in register form only. It returns an
  instruction if and only if the disassembler reports a length and no error (\<open>F_ERROR\<close>) and the bytes
  are of one of the classes; the instruction
  then is of that class, with the disassembler's length (truncated to a byte), and for \<open>VMREAD\<close> and
  \<open>VMWRITE\<close> with the field encoding read from the register ModRM.reg names and the other operand
  the one ModRM.rm names. The register names are the x86 ones.
\<close>

theorem decoder_classes:
  assumes "hde64_disasm lib (isf_rip (st_isf st)) = (len, hs)"
  shows "(decodeVmx lib st \<noteq> None \<longleftrightarrow>
      len \<noteq> 0 \<and> hs_flags hs AND F_ERROR lib = 0 \<and> hs_opcode hs = 0x0F
    \<and> (hs_opcode2 hs = 0x78 \<and> hs_modrm_mod hs = 3 \<or> hs_opcode2 hs = 0x79 \<and> hs_modrm_mod hs = 3
       \<or> hs_opcode2 hs = 0x01 \<and> hs_modrm hs \<in> {0xC2, 0xC3, 0xC4}
       \<or> hs_opcode2 hs = 0xC7 \<and> hs_modrm_reg hs \<in> {6, 7}
       \<or> hs_opcode2 hs = 0x38 \<and> hs_p_66 hs = 0x66 \<and> hs_modrm hs \<in> {0x80, 0x81}))
   \<and> (\<forall>d. decodeVmx lib st = Some d \<longrightarrow>
      hs_opcode hs = 0x0F \<and> len \<noteq> 0 \<and> dec_length d = ucast len \<and> dec_op d \<noteq> VMXOP_NONE
    \<and> (dec_op d = VMXOP_VMREAD \<longleftrightarrow> hs_opcode2 hs = 0x78)
    \<and> (dec_op d = VMXOP_VMWRITE \<longleftrightarrow> hs_opcode2 hs = 0x79)
    \<and> (dec_op d = VMXOP_VMLAUNCH \<longleftrightarrow> hs_opcode2 hs = 0x01 \<and> hs_modrm hs = 0xC2)
    \<and> (dec_op d = VMXOP_VMRESUME \<longleftrightarrow> hs_opcode2 hs = 0x01 \<and> hs_modrm hs = 0xC3)
    \<and> (dec_op d = VMXOP_VMXOFF \<longleftrightarrow> hs_opcode2 hs = 0x01 \<and> hs_modrm hs = 0xC4)
    \<and> (dec_op d = VMXOP_VMXON \<longleftrightarrow> hs_opcode2 hs = 0xC7 \<and> hs_modrm_reg hs = 6 \<and> hs_p_rep hs = 0xF3)
    \<and> (dec_op d = VMXOP_VMCLEAR \<longleftrightarrow>
        hs_opcode2 hs = 0xC7 \<and> hs_modrm_reg hs = 6 \<and> hs_p_rep hs \<noteq> 0xF3 \<and> hs_p_66 hs = 0x66)
    \<and> (dec_op d = VMXOP_VMPTRLD \<longleftrightarrow>
        hs_opcode2 hs = 0xC7 \<and> hs_modrm_reg hs = 6 \<and> hs_p_rep hs \<noteq> 0xF3 \<and> hs_p_66 hs \<noteq> 0x66)
    \<and> (dec_op d = VMXOP_VMPTRST \<longleftrightarrow> hs_opcode2 hs = 0xC7 \<and> hs_modrm_reg hs = 7)
    \<and> (dec_op d = VMXOP_INVEPT \<longleftrightarrow> hs_opcode2 hs = 0x38 \<and> hs_p_66 hs = 0x66 \<and> hs_modrm hs = 0x80)
    \<and> (dec_op d = VMXOP_INVVPID \<longleftrightarrow> hs_opcode2 hs = 0x38 \<and> hs_p_66 hs = 0x66 \<and> hs_modrm hs = 0x81)
    \<and> (dec_op d \<in> {VMXOP_VMREAD, VMXOP_VMWRITE} \<longrightarrow> hs_modrm_mod hs = 3 \<and>
        dec_field d = ucast (slot_get st (x86_gpr (hs_modrm_reg hs OR (if hs_rex_r hs \<noteq> 0 then 8 else 0)))))
    \<and> (dec_op d = VMXOP_VMREAD \<longrightarrow>
        dec_dstReg d = Some (x86_gpr (hs_modrm_rm hs OR (if hs_rex_b hs \<noteq> 0 then 8 else 0))))
    \<and> (dec_op d = VMXOP_VMWRITE \<longrightarrow>
        dec_srcValue d = slot_get st (x86_gpr (hs_modrm_rm hs OR (if hs_rex_b hs \<noteq> 0 then 8 else 0)))))"
proof
  show "decodeVmx lib st \<noteq> None \<longleftrightarrow>
      len \<noteq> 0 \<and> hs_flags hs AND F_ERROR lib = 0 \<and> hs_opcode hs = 0x0F
    \<and> (hs_opcode2 hs = 0x78 \<and> hs_modrm_mod hs = 3 \<or> hs_opcode2 hs = 0x79 \<and> hs_modrm_mod hs = 3
       \<or> hs_opcode2 hs = 0x01 \<and> hs_modrm hs \<in> {0xC2, 0xC3, 0xC4}
       \<or> hs_opcode2 hs = 0xC7 \<and> hs_modrm_reg hs \<in> {6, 7}
       \<or> hs_opcode2 hs = 0x38 \<and> hs_p_66 hs = 0x66 \<and> hs_modrm hs \<in> {0x80, 0x81})"
    by (simp add: decodeVmx_def assms classify_def)
qed (use decoded_class [OF _ assms] in \<open>simp add: x86_gpr_code\<close>)

text \<open>
  Concrete inputs for the witnesses: a disassembler that reports one given instruction at every
  address, and a trap frame whose \<open>RAX\<close> names the field \<open>GUEST_RIP\<close> and whose \<open>RCX\<close> holds a value.
\<close>

definition sample_lib :: "u32 \<Rightarrow> hde64s \<Rightarrow> hde_lib" where
  "sample_lib len hs = \<lparr>hde64_disasm = (\<lambda>_. (len, hs)), F_ERROR = 0x1000\<rparr>"

definition sample_hs :: "u8 \<Rightarrow> u8 \<Rightarrow> u8 \<Rightarrow> u8 \<Rightarrow> u8 \<Rightarrow> hde64s" where
  "sample_hs op2 modrm md rg rm = \<lparr>hs_p_rep = 0, hs_p_66 = 0, hs_rex_r = 0, hs_rex_b = 0, hs_opcode = 0x0F,
     hs_opcode2 = op2, hs_modrm = modrm, hs_modrm_mod = md, hs_modrm_reg = rg, hs_modrm_rm = rm, hs_flags = 0\<rparr>"

definition sample_frame :: amdv_saved_state64 where
  "sample_frame = \<lparr>st_rdi = 0, st_rsi = 0, st_rdx = 0, st_r10 = 0, st_r8 = 0, st_r9 = 0, st_cr2 = 0,
     st_r15 = 0, st_r14 = 0, st_r13 = 0, st_r12 = 0, st_r11 = 0, st_rbp = 0, st_rbx = 0,
     st_rcx = 0xABC, st_rax = 0x681E, st_gs = 0, st_fs = 0, st_isf_pad = 0,
     st_isf = \<lparr>isf_trapno = 6, isf_cpuflag = 0, isf_pad = 0, isf_trapfn = 0, isf_err = 0,
       isf_rip = 0x1000, isf_cs = 8, isf_rflags = 0x8D7, isf_rsp = 0x2000, isf_ss = 16\<rparr>\<rparr>"

text \<open>\<open>VMWRITE RAX, RCX\<close>, \<open>VMREAD RDX, RAX\<close> and \<open>VMLAUNCH\<close> with their lengths.\<close>

definition sample_vmwrite :: hde_lib where
  "sample_vmwrite = sample_lib 3 (sample_hs 0x79 0xC1 3 0 1)"

definition sample_vmread :: hde_lib where
  "sample_vmread = sample_lib 3 (sample_hs 0x78 0xC2 3 0 2)"

definition sample_vmlaunch :: hde_lib where
  "sample_vmlaunch = sample_lib 3 (sample_hs 0x01 0xC2 3 0 2)"

lemmas sample_defs = sample_lib_def sample_hs_def sample_frame_def

lemma decode_sample_vmwrite:
  "decodeVmx sample_vmwrite sample_frame = Some (new_decoded\<lparr>dec_op := VMXOP_VMWRITE, dec_length := 3,
     dec_field := 0x681E, dec_srcValue := 0xABC\<rparr>)"
  by (simp add: decodeVmx_def sample_vmwrite_def sample_defs classify_def amdv_gpr_def new_decoded_def)

lemma decode_sample_vmread:
  "decodeVmx sample_vmread sample_frame = Some (new_decoded\<lparr>dec_op := VMXOP_VMREAD, dec_length := 3,
     dec_field := 0x681E, dec_dstReg := Some At_rdx\<rparr>)"
  by (simp add: decodeVmx_def sample_vmread_def sample_defs classify_def amdv_gpr_def new_decoded_def)

lemma decode_sample_vmlaunch:
  "decodeVmx sample_vmlaunch sample_frame = Some (new_decoded\<lparr>dec_op := VMXOP_VMLAUNCH, dec_length := 3\<rparr>)"
  by (simp add: decodeVmx_def sample_vmlaunch_def sample_defs classify_def new_decoded_def)

theorem decoder_classes_witness:
  "dec_op (the (decodeVmx sample_vmwrite sample_frame)) = VMXOP_VMWRITE
 \<and> hs_opcode (sample_hs 0x79 0xC1 3 0 1) = 0x0F"
proof -
  have "hde64_disasm sample_vmwrite (isf_rip (st_isf sample_frame)) = (3, sample_hs 0x79 0xC1 3 0 1)"
    by (simp add: sample_vmwrite_def sample_lib_def)
  from decoder_classes [OF this] show ?thesis
    by (simp add: decode_sample_vmwrite new_decoded_def)
qed

section \<open>The trap frame\<close>

text \<open>What a decoded instruction does to the general registers before the trap is left.\<close>

definition read_effect :: "vmx_emulator \<Rightarrow> vmx_decoded \<Rightarrow> amdv_saved_state64 \<Rightarrow> amdv_saved_state64" where
  "read_effect emu d st =
     (if dec_op d = VMXOP_VMREAD
      then case dec_dstReg d of Some r \<Rightarrow> slot_set st r (vmread emu (dec_field d)) | None \<Rightarrow> st
      else st)"

text \<open>The cases of a fault.\<close>

lemma handleUD_SomeE:
  assumes "handleUD lib sw m emu st = Some (b, m', emu', st')"
  obtains (refused) "\<not> b" "decodeVmx lib st = None" "m' = m" "emu' = emu" "st' = st"
  | (launched) d where "b" "decodeVmx lib st = Some d" "dec_op d \<in> {VMXOP_VMLAUNCH, VMXOP_VMRESUME}"
      "\<exists>r. vmlaunchResume sw m emu = Some (r, m', emu')" "st' = vm_succeed (read_effect emu d st) (dec_length d)"
  | (local) d where "b" "decodeVmx lib st = Some d" "dec_op d \<notin> {VMXOP_VMLAUNCH, VMXOP_VMRESUME}" "m' = m"
      "emu' = (if dec_op d = VMXOP_VMXON then vmxon emu else if dec_op d = VMXOP_VMXOFF then vmxoff emu
        else if dec_op d \<in> {VMXOP_VMPTRLD, VMXOP_VMCLEAR} then vmptrld emu
        else if dec_op d = VMXOP_VMWRITE then snd (vmwrite emu (dec_field d) (dec_srcValue d)) else emu)"
      "st' = vm_succeed (read_effect emu d st) (dec_length d)"
proof (cases "decodeVmx lib st")
  case None
  with assms show thesis
    by (intro refused) (auto simp: handleUD_def)
next
  case (Some d)
  note d = this and op = decode_not_none [OF this]
  show thesis
  proof (cases "dec_op d \<in> {VMXOP_VMLAUNCH, VMXOP_VMRESUME}")
    case True
    with assms d show thesis
      by (intro launched [of d]) (auto simp: handleUD_def read_effect_def split: option.splits)
  next
    case False
    with assms d op show thesis
      by (intro local [of d]) (auto simp: handleUD_def vmptrld_def vmclear_def read_effect_def split: vmx_opcode.splits option.splits)
  qed
qed

text \<open>
  A fault that is not a VMX instruction is handed back untouched: when \<open>handleUD\<close> refuses
  it, kernel memory, emulator and trap frame are what they were. It refuses exactly the faults the
  decoder rejects, and refusing never dereferences anything.
\<close>

theorem refused_fault_untouched:
  "handleUD lib sw m emu st = Some (False, m', emu', st') \<longleftrightarrow>
     decodeVmx lib st = None \<and> m' = m \<and> emu' = emu \<and> st' = st"
proof
  assume "handleUD lib sw m emu st = Some (False, m', emu', st')"
  then show "decodeVmx lib st = None \<and> m' = m \<and> emu' = emu \<and> st' = st"
    by (rule handleUD_SomeE) simp_all
qed (simp add: handleUD_def)

lemma vm_succeed_isf:
  "isf_rip (st_isf (vm_succeed s n)) = isf_rip (st_isf s) + ucast n"
  "isf_rflags (st_isf (vm_succeed s n)) = isf_rflags (st_isf s) AND NOT RFLAGS_STATUS_MASK"
  "isf_cs (st_isf (vm_succeed s n)) = isf_cs (st_isf s)"
  "isf_ss (st_isf (vm_succeed s n)) = isf_ss (st_isf s)"
  "st_cr2 (vm_succeed s n) = st_cr2 s"
  by (simp_all add: vm_succeed_def Let_def)

lemma slot_set_isf:
  "isf_rip (st_isf (slot_set s r v)) = isf_rip (st_isf s)"
  "isf_rflags (st_isf (slot_set s r v)) = isf_rflags (st_isf s)"
  "isf_cs (st_isf (slot_set s r v)) = isf_cs (st_isf s)"
  "isf_ss (st_isf (slot_set s r v)) = isf_ss (st_isf s)"
  "st_cr2 (slot_set s r v) = st_cr2 s"
  by (cases r; simp)+

lemma status_mask_bits: "bit RFLAGS_STATUS_MASK k \<longleftrightarrow> k \<in> {0, 2, 4, 6, 7, 11}"
proof -
  have mask: "RFLAGS_STATUS_MASK = flag 0 OR flag 2 OR flag 4 OR flag 6 OR flag 7 OR flag 11"
    by (simp add: RFLAGS_STATUS_MASK_def flag_def push_bit_eq_mult)
  show ?thesis
    unfolding mask by (auto simp: bit_or_iff bit_flag_iff)
qed

text \<open>
  C15: A consumed fault resumes behind the instruction as a successful VMX operation: \<open>RIP\<close>
  advances by the decoded length, CF, PF, AF, ZF, SF and OF are clear and every other flag is
  kept, \<open>CS\<close>, \<open>SS\<close> and \<open>CR2\<close> are kept, and no general register changes but the
  destination of a \<open>VMREAD\<close>, which receives the field's value.
\<close>

theorem consumed_fault_resumes:
  assumes "handleUD lib sw m emu st = Some (True, m', emu', st')" and "decodeVmx lib st = Some d"
  shows "isf_rip (st_isf st') = isf_rip (st_isf st) + ucast (dec_length d)
    \<and> (\<forall>k. bit (isf_rflags (st_isf st')) k \<longleftrightarrow> k \<notin> {0, 2, 4, 6, 7, 11} \<and> bit (isf_rflags (st_isf st)) k)
    \<and> isf_cs (st_isf st') = isf_cs (st_isf st) \<and> isf_ss (st_isf st') = isf_ss (st_isf st)
    \<and> st_cr2 st' = st_cr2 st
    \<and> (\<forall>r. slot_get st' r =
         (if dec_op d = VMXOP_VMREAD \<and> dec_dstReg d = Some r then vmread emu (dec_field d) else slot_get st r))"
proof -
  let ?st = "read_effect emu d st"
  have st': "st' = vm_succeed ?st (dec_length d)"
    using assms(1) by (rule handleUD_SomeE) (use assms(2) in auto)
  have frame: "isf_rip (st_isf ?st) = isf_rip (st_isf st)" "isf_rflags (st_isf ?st) = isf_rflags (st_isf st)"
    "isf_cs (st_isf ?st) = isf_cs (st_isf st)" "isf_ss (st_isf ?st) = isf_ss (st_isf st)" "st_cr2 ?st = st_cr2 st"
    by (simp_all add: read_effect_def slot_set_isf split: option.split)
  have "bit (isf_rflags (st_isf st')) k \<longleftrightarrow> k \<notin> {0, 2, 4, 6, 7, 11} \<and> bit (isf_rflags (st_isf st)) k" for k
    unfolding st' vm_succeed_isf frame
    by (auto simp: bit_and_iff bit_not_iff status_mask_bits dest: bit_imp_le_length)
  moreover have "slot_get st' r =
      (if dec_op d = VMXOP_VMREAD \<and> dec_dstReg d = Some r then vmread emu (dec_field d) else slot_get st r)" for r
    unfolding st' trap.get_leave by (auto simp: read_effect_def slot_get_set split: option.split)
  ultimately show ?thesis
    unfolding st' vm_succeed_isf frame by simp
qed

theorem consumed_fault_resumes_witness:
  "isf_rip (st_isf (snd (snd (snd (the (handleUD sample_vmread None Map.empty new_emulator sample_frame)))))) = 0x1003"
proof -
  have "handleUD sample_vmread None Map.empty new_emulator sample_frame =
      Some (True, Map.empty, new_emulator, vm_succeed (slot_set sample_frame At_rdx (vmread new_emulator 0x681E)) 3)"
    by (simp add: handleUD_def decode_sample_vmread)
  from consumed_fault_resumes [OF this decode_sample_vmread] this show ?thesis
    by (simp add: sample_frame_def)
qed

section \<open>Reading back what was written\<close>

lemma vmwrite_fVmcs: "fVmcs (snd (vmwrite emu f v)) = snd (shadow_write (fVmcs emu) f v)"
  by (simp add: vmwrite_def split: prod.split)

lemma fVmcb_vmwrite: "fVmcb (snd (vmwrite emu f v)) = fVmcb emu"
  by (simp add: vmwrite_def split: prod.split)

lemma consumed_write:
  assumes "handleUD lib sw m emu st = Some (True, m', emu', st')"
    and "decodeVmx lib st = Some w" and "dec_op w = VMXOP_VMWRITE"
  shows "fVmcs emu' = snd (shadow_write (fVmcs emu) (dec_field w) (dec_srcValue w))"
  using assms(1) by (rule handleUD_SomeE) (use assms(2,3) in \<open>auto simp: vmwrite_fVmcs\<close>)

lemma consumed_read:
  assumes "handleUD lib sw m emu st = Some (True, m', emu', st')"
    and "decodeVmx lib st = Some r" and "dec_op r = VMXOP_VMREAD" and "dec_dstReg r = Some x"
  shows "slot_get st' x = shadow_read (fVmcs emu) (dec_field r)"
  using assms(1)
  by (rule handleUD_SomeE) (use assms(2-4) in \<open>auto simp: trap.get_leave read_effect_def slot_get_set vmread_def\<close>)

text \<open>
  A \<open>VMREAD\<close> after a \<open>VMWRITE\<close>, both trapped, decoded and emulated, delivers the written
  value into its destination register if it names the same field, and what the shadow VMCS held
  before the write if it names another; provided the write found its field or a free slot.
\<close>

theorem vmread_after_vmwrite:
  assumes "shadow_wf (fVmcs emu)"
    and "dec_field w \<in> dom (shadow_map (fVmcs emu)) \<or> card (dom (shadow_map (fVmcs emu))) < MaxFields"
    and "handleUD lib1 sw m emu st1 = Some (True, m1, emu1, st1')"
    and "decodeVmx lib1 st1 = Some w" and "dec_op w = VMXOP_VMWRITE"
    and "handleUD lib2 sw m2 emu1 st2 = Some (True, m3, emu2, st2')"
    and "decodeVmx lib2 st2 = Some r" and "dec_op r = VMXOP_VMREAD" and "dec_dstReg r = Some x"
  shows "slot_get st2' x =
    (if dec_field r = dec_field w then dec_srcValue w else shadow_read (fVmcs emu) (dec_field r))"
  unfolding consumed_read [OF assms(6-9)] consumed_write [OF assms(3-5)]
  using assms(1,2) by (simp add: shadow.rd_wr shadow.wr_ok_iff)

definition after_sample_write :: vmx_emulator where
  "after_sample_write = snd (vmwrite new_emulator 0x681E 0xABC)"

lemma handle_sample_vmwrite:
  "handleUD sample_vmwrite sw m new_emulator sample_frame =
     Some (True, m, after_sample_write, vm_succeed sample_frame 3)"
  by (simp add: handleUD_def decode_sample_vmwrite after_sample_write_def)

lemma handle_sample_vmread:
  "handleUD sample_vmread sw m emu sample_frame =
     Some (True, m, emu, vm_succeed (slot_set sample_frame At_rdx (vmread emu 0x681E)) 3)"
  by (simp add: handleUD_def decode_sample_vmread)

lemma fVmcs_new_emulator: "fVmcs new_emulator = new_shadow"
  by (simp add: new_emulator_def)

theorem vmread_after_vmwrite_witness:
  "slot_get (vm_succeed (slot_set sample_frame At_rdx (vmread after_sample_write 0x681E)) 3) At_rdx = 0xABC"
  by (subst vmread_after_vmwrite [OF _ _ handle_sample_vmwrite decode_sample_vmwrite _
        handle_sample_vmread decode_sample_vmread])
    (simp_all add: fVmcs_new_emulator shadow_wf_new shadow_map_new MaxFields_def new_decoded_def)

text \<open>
  A write that does not fit is lost silently. With 256 other encodings stored, an emulated
  \<open>VMWRITE\<close> of a new field leaves the shadow VMCS unchanged and still reports VMsucceed
  (carry and zero flags clear), so a \<open>VMREAD\<close> of the field goes on yielding 0.
\<close>

theorem lost_write_reports_success:
  assumes "shadow_wf (fVmcs emu)" and "card (dom (shadow_map (fVmcs emu))) = MaxFields"
    and "dec_field w \<notin> dom (shadow_map (fVmcs emu))"
    and "decodeVmx lib st = Some w" and "dec_op w = VMXOP_VMWRITE"
  shows "\<exists>emu' st'. handleUD lib sw m emu st = Some (True, m, emu', st')
    \<and> \<not> bit (isf_rflags (st_isf st')) 0 \<and> \<not> bit (isf_rflags (st_isf st')) 6
    \<and> fVmcs emu' = fVmcs emu \<and> vmread emu' (dec_field w) = 0"
proof -
  have full: "shadow_write (fVmcs emu) (dec_field w) v = (False, fVmcs emu)" for v
  proof (rule shadow_write_full)
    show "find_slot (fVmcs emu) (dec_field w) 0 = None"
      using assms(1,3) by (simp add: find_slot_map domIff)
    show "MaxFields \<le> count (fVmcs emu)"
      using assms(1,2) by (simp add: card_dom_shadow_map)
  qed
  then have same: "snd (vmwrite emu (dec_field w) (dec_srcValue w)) = emu"
    by (simp add: vmwrite_def)
  have "handleUD lib sw m emu st = Some (True, m, emu, vm_succeed st (dec_length w))"
    by (simp add: handleUD_def assms(4,5) same)
  moreover have "vmread emu (dec_field w) = 0"
    using assms(1,3) by (simp add: vmread_def shadow_read_map domIff)
  moreover have "\<not> bit (isf_rflags (st_isf (vm_succeed st n))) k" if "k \<in> {0, 6}" for k n
    using that by (auto simp: vm_succeed_isf bit_and_iff bit_not_iff status_mask_bits)
  ultimately show ?thesis by blast
qed

theorem lost_write_reports_success_witness:
  "\<exists>emu' st'. handleUD sample_vmwrite None Map.empty (new_emulator\<lparr>fVmcs := full_shadow\<rparr>) sample_frame =
      Some (True, Map.empty, emu', st') \<and> vmread emu' 0x681E = 0"
proof -
  have "(0x681E :: u32) \<notin> dom (shadow_map full_shadow)"
    by (rule not_in_full_shadow) simp
  then show ?thesis
    using lost_write_reports_success [of "new_emulator\<lparr>fVmcs := full_shadow\<rparr>", OF _ _ _ decode_sample_vmwrite, of None Map.empty]
    by (auto simp: shadow_wf_full card_full_shadow new_decoded_def)
qed

section \<open>Launching the guest\<close>

text \<open>The page handed to the world-switch.\<close>

definition entry_page :: "vmx_emulator \<Rightarrow> page \<Rightarrow> page" where
  "entry_page emu v = vmcb_set64 (translateVmcsToVmcb (fVmcs emu) v) VMCB_RAX (fGuestRax emu)"

text \<open>The emulator after an exit that left \<open>v\<close> in the VMCB.\<close>

definition exit_emulator :: "vmx_emulator \<Rightarrow> guest_gprs \<Rightarrow> page \<Rightarrow> vmx_emulator" where
  "exit_emulator emu g v =
     emu\<lparr>fGprs := g, fGuestRax := vmcb_get64 v VMCB_RAX,
       fVmcs := setLaunched (translateVmcbToVmcs v (fVmcs emu) (fSvmFeatures emu)) True\<rparr>"

lemma vmlaunch_no_vmcb: "fVmcb emu = 0 \<Longrightarrow> vmlaunchResume sw m emu = Some (exit_reason_num EXIT_UNKNOWN, m, emu)"
  by (simp add: vmlaunchResume_def)

lemma vmlaunch_dangling: "fVmcb emu \<noteq> 0 \<Longrightarrow> m (fVmcb emu) = None \<Longrightarrow> vmlaunchResume sw m emu = None"
  by (simp add: vmlaunchResume_def)

lemma vmlaunch_disabled:
  assumes "fVmcb emu \<noteq> 0" and "m (fVmcb emu) = Some v"
  defines "v' \<equiv> vmcb_st (entry_page emu v) exit_code VMEXIT_INVALID"
  shows "vmlaunchResume None m emu =
    Some (ucast (vread (fVmcs (exit_emulator emu (fGprs emu) v')) VMCS_VM_EXIT_REASON),
          m(fVmcb emu \<mapsto> v'), exit_emulator emu (fGprs emu) v')"
  using assms(1,2) unfolding v'_def
  by (simp add: vmlaunchResume_def Let_def entry_page_def exit_emulator_def)

lemma vmlaunch_enabled:
  assumes "fVmcb emu \<noteq> 0" and "m (fVmcb emu) = Some v"
    and "switch (fVmcbPA emu) (fGprs emu) (m(fVmcb emu \<mapsto> entry_page emu v)) = (g, m')"
  shows "vmlaunchResume (Some switch) m emu =
    (case m' (fVmcb emu) of
       None \<Rightarrow> None
     | Some v' \<Rightarrow> Some (ucast (vread (fVmcs (exit_emulator emu g v')) VMCS_VM_EXIT_REASON),
                        m', exit_emulator emu g v'))"
  using assms
  by (simp add: vmlaunchResume_def Let_def entry_page_def exit_emulator_def split: option.split)

lemma vmcb_guest_entry_page: "vmcb_guest (entry_page emu v) = vmcb_guest (translateVmcsToVmcb (fVmcs emu) v)"
  by (simp add: entry_page_def vmcb_guest_cells vmcb_seg_cells kSegs_def page_simps)

lemma vmcb_guest_st_exit_code: "vmcb_guest (vmcb_st v exit_code (c :: u64)) = vmcb_guest v"
  by (simp add: vmcb_guest_cells vmcb_seg_cells kSegs_def page_simps)

lemma gv_efer_vmcb_guest: "gv_efer (vmcb_guest v) = vmcb_get64 v VMCB_EFER"
  by (simp add: vmcb_guest_cells)

lemma vmcs_guest_setLaunched: "vmcs_guest (setLaunched s b) = vmcs_guest s"
  by (simp add: vmcs_guest_fields vmcs_seg_def)

lemma exit_reason_invalid: "svmExitToVmxReason VMEXIT_INVALID i = EXIT_UNKNOWN"
  by (simp add: svmExitToVmxReason_def hw_consts word_le_nat_alt unsigned_minus_1_eq_mask mask_eq_exp_minus_1)

lemma rax_entry_page: "vmcb_get64 (entry_page emu v) VMCB_RAX = fGuestRax emu"
  by (simp add: entry_page_def cell64.get_put)

text \<open>An exit whose VMCB still holds the guest of the entry gives the shadow VMCS its own guest back.\<close>

lemma exit_guest_of_entry:
  assumes "shadow_wf (fVmcs emu)" and "exit_room (fVmcs emu)" and "vmcb_guest v' = vmcb_guest (entry_page emu v)"
  shows "vmcs_guest (fVmcs (exit_emulator emu g v')) = (vmcs_guest (fVmcs emu))
        \<lparr>gv_segs := map canon_seg (gv_segs (vmcs_guest (fVmcs emu))),
         gv_efer := gv_efer (vmcs_guest (fVmcs emu)) AND NOT EFER_SVME\<rparr>"
proof -
  have guest: "vmcb_guest v' = (vmcs_guest (fVmcs emu))\<lparr>gv_efer := vread (fVmcs emu) VMCS_GUEST_IA32_EFER OR EFER_SVME\<rparr>"
    by (simp add: assms(3) vmcb_guest_entry_page translate_guest_view)
  have efer: "vmcb_get64 v' VMCB_EFER = vread (fVmcs emu) VMCS_GUEST_IA32_EFER OR EFER_SVME"
    using arg_cong [OF guest, of gv_efer] by (simp add: gv_efer_vmcb_guest)
  have "vmcs_guest (fVmcs (exit_emulator emu g v')) = vmcs_guest (translateVmcbToVmcs v' (fVmcs emu) (fSvmFeatures emu))"
    by (simp add: exit_emulator_def vmcs_guest_setLaunched)
  also have "\<dots> = (vmcs_guest (fVmcs emu))
        \<lparr>gv_segs := map canon_seg (gv_segs (vmcs_guest (fVmcs emu))),
         gv_efer := gv_efer (vmcs_guest (fVmcs emu)) AND NOT EFER_SVME\<rparr>"
    unfolding exit_guest_view [OF assms(1,2)] guest efer
    by (simp add: vmcs_guest_fields EFER_SVME_def or_flag_and_not_flag)
  finally show ?thesis .
qed

text \<open>
  A launch in a build without guest entry is a faithful no-op: it reports \<open>UNKNOWN\<close>, leaves
  the guest state the VMCS describes as it was, up to the canonical form of segment attributes and
  the hidden SVME bit, keeps all general registers, marks the VMCS launched and writes no page but
  the bound VMCB.
\<close>

theorem disabled_launch_keeps_guest:
  assumes "fVmcb emu \<noteq> 0" and "m (fVmcb emu) = Some v"
    and "shadow_wf (fVmcs emu)" and "exit_room (fVmcs emu)"
  shows "\<exists>m' emu'. vmlaunchResume None m emu = Some (exit_reason_num EXIT_UNKNOWN, m', emu')
    \<and> vmcs_guest (fVmcs emu') = (vmcs_guest (fVmcs emu))
        \<lparr>gv_segs := map canon_seg (gv_segs (vmcs_guest (fVmcs emu))),
         gv_efer := gv_efer (vmcs_guest (fVmcs emu)) AND NOT EFER_SVME\<rparr>
    \<and> fGprs emu' = fGprs emu \<and> fGuestRax emu' = fGuestRax emu \<and> isLaunched (fVmcs emu')
    \<and> (\<forall>p. p \<noteq> fVmcb emu \<longrightarrow> m' p = m p)"
proof -
  let ?v = "vmcb_st (entry_page emu v) exit_code VMEXIT_INVALID"
  let ?e = "exit_emulator emu (fGprs emu) ?v"
  have code: "vmcb_ld ?v exit_code = VMEXIT_INVALID"
    by (simp add: page_simps)
  have rax: "vmcb_get64 ?v VMCB_RAX = fGuestRax emu"
    unfolding rax_entry_page [of emu v, symmetric] by (simp add: page_simps)
  have shadow': "fVmcs ?e = setLaunched (translateVmcbToVmcs ?v (fVmcs emu) (fSvmFeatures emu)) True"
    by (simp add: exit_emulator_def)
  have g: "vmcs_guest (fVmcs ?e) = (vmcs_guest (fVmcs emu))
        \<lparr>gv_segs := map canon_seg (gv_segs (vmcs_guest (fVmcs emu))),
         gv_efer := gv_efer (vmcs_guest (fVmcs emu)) AND NOT EFER_SVME\<rparr>"
    by (rule exit_guest_of_entry [OF assms(3,4) vmcb_guest_st_exit_code])
  have "vread (fVmcs ?e) VMCS_VM_EXIT_REASON = ucast (exit_reason_num EXIT_UNKNOWN)"
    using exit_read_registers(9) [OF assms(3,4), of ?v "fSvmFeatures emu"]
    by (simp only: shadow' code exit_reason_invalid shadow_read_setLaunched)
  then have "vmlaunchResume None m emu = Some (exit_reason_num EXIT_UNKNOWN, m(fVmcb emu \<mapsto> ?v), ?e)"
    by (simp only: vmlaunch_disabled [of emu m v, OF assms(1,2)] ucast_ucast_id32)
  moreover have "fGprs ?e = fGprs emu \<and> fGuestRax ?e = fGuestRax emu \<and> isLaunched (fVmcs ?e)"
    by (simp add: exit_emulator_def rax isLaunched_def setLaunched_def)
  ultimately show ?thesis
    using g by (intro exI [of _ "m(fVmcb emu \<mapsto> ?v)"] exI [of _ ?e]) simp
qed

text \<open>An emulator bound to one page of memory, for the witnesses.\<close>

definition bound_emulator :: vmx_emulator where
  "bound_emulator = emu_bind new_emulator 0x1000 0x1000 0"

definition one_page :: kmem where
  "one_page = [0x1000 \<mapsto> (\<lambda>_. 0)]"

lemma bound_emulator_simps:
  "fVmcb bound_emulator = 0x1000" "fVmcbPA bound_emulator = 0x1000" "fVmcs bound_emulator = new_shadow"
  "fGuestRax bound_emulator = 0" "fGprs bound_emulator = zero_gprs" "one_page 0x1000 = Some (\<lambda>_. 0)"
  by (simp_all add: bound_emulator_def emu_bind_def new_emulator_def one_page_def)

theorem disabled_launch_keeps_guest_witness:
  "\<exists>m' emu'. vmlaunchResume None one_page bound_emulator = Some (0xFFFFFFFF, m', emu')"
  using disabled_launch_keeps_guest [of bound_emulator one_page "\<lambda>_. 0"]
  by (auto simp: bound_emulator_simps shadow_wf_new exit_room_new)

text \<open>
  C19: A launch in a build with guest entry hands the world-switch the bound VMCB filled with the
  guest of the shadow VMCS and its \<open>RAX\<close>, together with the other general registers. When the store
  has room for the exit fields (\<open>exit_room\<close>; on a full one they are dropped), the launch then reports
  the VMX reason of the exit code and exposes to \<open>vmread\<close> the guest the world-switch left behind,
  with its segment attributes in canonical form, without \<open>EFER.SVME\<close>, and with the GDTR, IDTR and
  PAT of before the run in place of its own; \<open>RAX\<close> and the general registers are those it left.
\<close>

theorem enabled_launch_runs_guest:
  assumes "fVmcb emu \<noteq> 0" and "m (fVmcb emu) = Some v"
    and "shadow_wf (fVmcs emu)" and "exit_room (fVmcs emu)"
    and "switch (fVmcbPA emu) (fGprs emu) (m(fVmcb emu \<mapsto> entry_page emu v)) = (g, m')"
    and "m' (fVmcb emu) = Some v'"
  shows "vmcb_guest (entry_page emu v) = (vmcs_guest (fVmcs emu))
        \<lparr>gv_efer := gv_efer (vmcs_guest (fVmcs emu)) OR EFER_SVME\<rparr>
    \<and> vmcb_get64 (entry_page emu v) VMCB_RAX = fGuestRax emu
    \<and> (\<exists>emu'. vmlaunchResume (Some switch) m emu =
          Some (ucast (vmx_reason (load_le v' 0x070) (load_le v' 0x078)), m', emu')
        \<and> vmcs_guest (fVmcs emu') = (vmcb_guest v')\<lparr>gv_segs := map canon_seg (gv_segs (vmcb_guest v')),
             gv_efer := gv_efer (vmcb_guest v') AND NOT EFER_SVME,
             gv_gdtr := gv_gdtr (vmcs_guest (fVmcs emu)), gv_idtr := gv_idtr (vmcs_guest (fVmcs emu)),
             gv_pat := gv_pat (vmcs_guest (fVmcs emu))\<rparr>
        \<and> fGuestRax emu' = vmcb_get64 v' VMCB_RAX \<and> fGprs emu' = g)"
proof (intro conjI exI)
  let ?e = "exit_emulator emu g v'"
  have shadow': "fVmcs ?e = setLaunched (translateVmcbToVmcs v' (fVmcs emu) (fSvmFeatures emu)) True"
    by (simp add: exit_emulator_def)
  have "vread (fVmcs ?e) VMCS_VM_EXIT_REASON = vmx_reason (load_le v' 0x070) (load_le v' 0x078)"
    using exit_read_registers(9) [OF assms(3,4)] by (simp add: shadow' vmx_reason_code vmcb_ld_def layout)
  then show "vmlaunchResume (Some switch) m emu =
      Some (ucast (vmx_reason (load_le v' 0x070) (load_le v' 0x078)), m', ?e)"
    by (simp add: vmlaunch_enabled [of emu m v switch g m', OF assms(1,2,5)] assms(6))
  show "vmcs_guest (fVmcs ?e) = (vmcb_guest v')\<lparr>gv_segs := map canon_seg (gv_segs (vmcb_guest v')),
             gv_efer := gv_efer (vmcb_guest v') AND NOT EFER_SVME,
             gv_gdtr := gv_gdtr (vmcs_guest (fVmcs emu)), gv_idtr := gv_idtr (vmcs_guest (fVmcs emu)),
             gv_pat := gv_pat (vmcs_guest (fVmcs emu))\<rparr>"
    using exit_guest_view [OF assms(3,4), of v' "fSvmFeatures emu"]
    by (simp add: shadow' vmcs_guest_setLaunched gv_efer_vmcb_guest)
  show "vmcb_guest (entry_page emu v) = (vmcs_guest (fVmcs emu))
        \<lparr>gv_efer := gv_efer (vmcs_guest (fVmcs emu)) OR EFER_SVME\<rparr>"
    by (simp add: vmcb_guest_entry_page translate_guest_view) (simp add: vmcs_guest_fields)
  show "vmcb_get64 (entry_page emu v) VMCB_RAX = fGuestRax emu"
    by (rule rax_entry_page)
  show "fGuestRax ?e = vmcb_get64 v' VMCB_RAX" and "fGprs ?e = g"
    by (simp_all add: exit_emulator_def)
qed

text \<open>A guest that executes \<open>HLT\<close> at once, for the witness.\<close>

definition halting_switch :: world_switch where
  "halting_switch pa g m = (g, map_option (\<lambda>v. vmcb_st v exit_code VMEXIT_HLT) \<circ> m)"

theorem enabled_launch_runs_guest_witness:
  "\<exists>m' emu'. vmlaunchResume (Some halting_switch) one_page bound_emulator = Some (12, m', emu')"
proof -
  let ?e = "entry_page bound_emulator (\<lambda>_. 0)"
  let ?v = "vmcb_st ?e exit_code VMEXIT_HLT"
  let ?m = "map_option (\<lambda>v. vmcb_st v exit_code VMEXIT_HLT) \<circ> one_page(0x1000 \<mapsto> ?e)"
  have code: "load_le ?v 0x070 = (0x78 :: u64)"
    by (simp add: vmcb_access_defs layout load_store_same VMEXIT_HLT_def)
  have reason: "vmx_reason 0x78 i = 12" for i
    by (simp add: vmx_reason_def)
  have "halting_switch 0x1000 zero_gprs (one_page(0x1000 \<mapsto> ?e)) = (zero_gprs, ?m)"
    by (simp add: halting_switch_def)
  then show ?thesis
    using enabled_launch_runs_guest [of bound_emulator one_page "\<lambda>_. 0" halting_switch zero_gprs ?m ?v]
    by (auto simp: bound_emulator_simps shadow_wf_new exit_room_new code reason)
qed

section \<open>What the emulator ignores\<close>

lemma fVmxRoot_irrelevant_launch:
  "vmlaunchResume sw m (emu\<lparr>fVmxRoot := b\<rparr>) =
     map_option (\<lambda>(r, m', e). (r, m', e\<lparr>fVmxRoot := b\<rparr>)) (vmlaunchResume sw m emu)"
  by (simp add: vmlaunchResume_def Let_def split: option.split prod.split)

text \<open>
  The VMX-operation flag gates nothing. Whether or not \<open>VMXON\<close> was ever executed, a fault is
  accepted or refused alike, with the same effect on memory, registers, guest and shadow VMCS; so
  \<open>VMREAD\<close>, \<open>VMWRITE\<close> and \<open>VMLAUNCH\<close> succeed outside VMX operation.
\<close>

theorem vmx_root_gates_nothing:
  "map_option (\<lambda>(b, m', e, st'). (b, m', e\<lparr>fVmxRoot := x\<rparr>, st')) (handleUD lib sw m (emu\<lparr>fVmxRoot := r\<rparr>) st) =
   map_option (\<lambda>(b, m', e, st'). (b, m', e\<lparr>fVmxRoot := x\<rparr>, st')) (handleUD lib sw m emu st)"
proof (cases "decodeVmx lib st")
  case None
  then show ?thesis by (simp add: handleUD_def)
next
  case (Some d)
  show ?thesis
  proof (cases "vmlaunchResume sw m emu")
    case None
    with Some show ?thesis
      by (cases "dec_op d") (auto simp: handleUD_def fVmxRoot_irrelevant_launch vmxon_def vmxoff_def
          vmptrld_def vmclear_def vmwrite_def vmread_def split: prod.split option.split)
  next
    case (Some z)
    with \<open>decodeVmx lib st = Some d\<close> show ?thesis
      by (cases z; cases "dec_op d") (auto simp: handleUD_def fVmxRoot_irrelevant_launch vmxon_def vmxoff_def
          vmptrld_def vmclear_def vmwrite_def vmread_def split: prod.split option.split)
  qed
qed

text \<open>
  There is one shadow VMCS for all. An emulated \<open>VMPTRLD\<close> or \<open>VMCLEAR\<close> of any operand
  only clears the launched mark: every field reads as it did before, so a newly loaded VMCS shows
  the fields of the previous one and a cleared one keeps its contents.
\<close>

theorem loading_a_vmcs_keeps_fields:
  assumes "handleUD lib sw m emu st = Some (True, m', emu', st')"
    and "decodeVmx lib st = Some d" and "dec_op d \<in> {VMXOP_VMPTRLD, VMXOP_VMCLEAR}"
  shows "(\<forall>f. vmread emu' f = vmread emu f) \<and> \<not> isLaunched (fVmcs emu') \<and> m' = m"
  using assms(1)
  by (rule handleUD_SomeE)
    (use assms(2,3) in \<open>auto simp: vmptrld_def vmread_def isLaunched_def setLaunched_def [of _ False]
       shadow_read_setLaunched [unfolded setLaunched_def]\<close>)

definition sample_vmptrld :: hde_lib where
  "sample_vmptrld = sample_lib 4 (sample_hs 0xC7 0x30 0 6 0)"

lemma decode_sample_vmptrld:
  "decodeVmx sample_vmptrld sample_frame = Some (new_decoded\<lparr>dec_op := VMXOP_VMPTRLD, dec_length := 4\<rparr>)"
  by (simp add: decodeVmx_def sample_vmptrld_def sample_defs classify_def new_decoded_def)

lemma handle_sample_vmptrld:
  "handleUD sample_vmptrld sw m emu sample_frame = Some (True, m, vmptrld emu, vm_succeed sample_frame 4)"
  by (simp add: handleUD_def decode_sample_vmptrld)

theorem loading_a_vmcs_keeps_fields_witness:
  "vmread (vmptrld after_sample_write) 0x681E = vmread after_sample_write 0x681E"
  using loading_a_vmcs_keeps_fields [OF handle_sample_vmptrld decode_sample_vmptrld] by simp

text \<open>
  The decoder looks at ModRM.reg of \<open>0F C7\<close> but not at its mod field, so \<open>RDRAND\<close>, which
  is the register form of the same opcode (and faults on processors without it), is taken for
  \<open>VMPTRLD\<close>: the fault is consumed, reported as success, and the destination register keeps its
  old value.
\<close>

theorem rdrand_taken_for_vmptrld:
  assumes "hde64_disasm lib (isf_rip (st_isf st)) = (len, hs)" and "len \<noteq> 0"
    and "hs_flags hs AND F_ERROR lib = 0" and "hs_opcode hs = 0x0F" and "hs_opcode2 hs = 0xC7"
    and "hs_modrm_mod hs = 3" and "hs_modrm_reg hs = 6" and "hs_p_rep hs = 0" and "hs_p_66 hs = 0"
  shows "\<exists>st'. handleUD lib sw m emu st = Some (True, m, vmptrld emu, st')
    \<and> (\<forall>r. slot_get st' r = slot_get st r)"
proof -
  have "decodeVmx lib st = Some (new_decoded\<lparr>dec_op := VMXOP_VMPTRLD, dec_length := ucast len\<rparr>)"
    using assms by (simp add: decodeVmx_def classify_def Let_def)
  then have "handleUD lib sw m emu st = Some (True, m, vmptrld emu, vm_succeed st (ucast len))"
    by (simp add: handleUD_def)
  then show ?thesis
    by (auto simp: trap.get_leave)
qed

theorem rdrand_taken_for_vmptrld_witness:
  "\<exists>st'. handleUD (sample_lib 3 (sample_hs 0xC7 0xF0 3 6 0)) None Map.empty new_emulator sample_frame =
      Some (True, Map.empty, vmptrld new_emulator, st') \<and> slot_get st' At_rax = 0x681E"
proof -
  let ?hs = "sample_hs 0xC7 0xF0 3 6 0"
  have "hde64_disasm (sample_lib 3 ?hs) (isf_rip (st_isf sample_frame)) = (3, ?hs)"
    by (simp add: sample_lib_def)
  then have "\<exists>st'. handleUD (sample_lib 3 ?hs) None Map.empty new_emulator sample_frame =
      Some (True, Map.empty, vmptrld new_emulator, st') \<and> (\<forall>r. slot_get st' r = slot_get sample_frame r)"
    by (rule rdrand_taken_for_vmptrld) (simp_all add: sample_hs_def sample_lib_def)
  then obtain st' where h: "handleUD (sample_lib 3 ?hs) None Map.empty new_emulator sample_frame =
      Some (True, Map.empty, vmptrld new_emulator, st')" and r: "\<forall>r. slot_get st' r = slot_get sample_frame r"
    by blast
  have "slot_get st' At_rax = slot_get sample_frame At_rax"
    using r ..
  also have "\<dots> = 0x681E"
    by (simp add: sample_frame_def)
  finally show ?thesis
    using h by blast
qed

section \<open>Every reachable state\<close>

text \<open>One step: some thread of the kernel faults in some state of its registers.\<close>

inductive ud_step :: "hde_lib \<Rightarrow> world_switch option \<Rightarrow> kmem \<times> vmx_emulator \<Rightarrow> kmem \<times> vmx_emulator \<Rightarrow> bool"
  for lib sw where
  fault: "handleUD lib sw m emu st = Some (b, m', emu', st') \<Longrightarrow> ud_step lib sw (m, emu) (m', emu')"

inductive_cases ud_stepE: "ud_step lib sw (m, emu) s'"

text \<open>A world-switch that never unmaps the VMCB it was given.\<close>

definition keeps_mapped :: "world_switch option \<Rightarrow> u64 \<Rightarrow> bool" where
  "keeps_mapped sw p \<longleftrightarrow>
     (case sw of None \<Rightarrow> True | Some f \<Rightarrow> \<forall>pa g m. m p \<noteq> None \<longrightarrow> snd (f pa g m) p \<noteq> None)"

text \<open>The invariant of the emulator bound to the page at \<open>p\<close>.\<close>

definition emu_inv :: "u64 \<Rightarrow> kmem \<times> vmx_emulator \<Rightarrow> bool" where
  "emu_inv p s \<longleftrightarrow> shadow_wf (fVmcs (snd s)) \<and> fVmcb (snd s) = p \<and> (p = 0 \<or> fst s p \<noteq> None)"

lemma launch_total:
  assumes "emu_inv p (m, emu)" and "keeps_mapped sw p"
  shows "\<exists>r m' emu'. vmlaunchResume sw m emu = Some (r, m', emu') \<and> emu_inv p (m', emu')
           \<and> (sw = None \<longrightarrow> (\<forall>q. q \<noteq> p \<longrightarrow> m' q = m q))"
proof (cases "p = 0")
  case True
  with assms show ?thesis
    by (simp add: emu_inv_def vmlaunch_no_vmcb)
next
  case False
  with assms(1) obtain v where p: "fVmcb emu \<noteq> 0" "fVmcb emu = p" "m (fVmcb emu) = Some v" and wf: "shadow_wf (fVmcs emu)"
    by (auto simp: emu_inv_def)
  have inv': "emu_inv p (m', exit_emulator emu g v')" if "m' p \<noteq> None" for m' g v'
    using that wf p(2)
    by (simp add: emu_inv_def exit_emulator_def shadow_wf_setLaunched shadow_wf_translateVmcbToVmcs)
  show ?thesis
  proof (cases sw)
    case None
    let ?v = "vmcb_st (entry_page emu v) exit_code VMEXIT_INVALID"
    have "emu_inv p (m(fVmcb emu \<mapsto> ?v), exit_emulator emu (fGprs emu) ?v)"
      using p(2) by (intro inv') simp
    then show ?thesis
      unfolding None vmlaunch_disabled [of emu m v, OF p(1,3)] using p(2) by auto
  next
    case (Some f)
    obtain g m' where f: "f (fVmcbPA emu) (fGprs emu) (m(fVmcb emu \<mapsto> entry_page emu v)) = (g, m')"
      by force
    have "snd (f (fVmcbPA emu) (fGprs emu) (m(fVmcb emu \<mapsto> entry_page emu v))) p \<noteq> None"
      using assms(2) p(2) by (simp add: keeps_mapped_def Some)
    with f obtain v' where v': "m' p = Some v'" by auto
    then have "emu_inv p (m', exit_emulator emu g v')"
      by (intro inv') simp
    with p(2) v' show ?thesis
      unfolding Some vmlaunch_enabled [of emu m v f g m', OF p(1,3) f] by auto
  qed
qed

lemma fault_total:
  assumes "emu_inv p (m, emu)" and "keeps_mapped sw p"
  shows "\<exists>b m' emu' st'. handleUD lib sw m emu st = Some (b, m', emu', st') \<and> emu_inv p (m', emu')
           \<and> (sw = None \<longrightarrow> (\<forall>q. q \<noteq> p \<longrightarrow> m' q = m q))"
proof (cases "decodeVmx lib st")
  case None
  with assms(1) show ?thesis by (auto simp: handleUD_def)
next
  case (Some d)
  have local: "emu_inv p (m, e)"
    if "e \<in> {emu, vmxon emu, vmxoff emu, vmptrld emu, vmclear emu, snd (vmwrite emu (dec_field d) (dec_srcValue d))}" for e
    using that assms(1)
    by (auto simp: emu_inv_def vmxon_def vmxoff_def vmptrld_def vmclear_def vmwrite_fVmcs fVmcb_vmwrite
        shadow_wf_setLaunched shadow_wf_write)
  obtain r m' emu' where l: "vmlaunchResume sw m emu = Some (r, m', emu')" "emu_inv p (m', emu')"
    "sw = None \<longrightarrow> (\<forall>q. q \<noteq> p \<longrightarrow> m' q = m q)"
    using launch_total [OF assms] by blast
  show ?thesis
    using Some l local by (cases "dec_op d") (auto simp: handleUD_def)
qed

lemma ud_steps_inv:
  assumes "(ud_step lib sw)\<^sup>*\<^sup>* s s'" and "emu_inv p s" and "keeps_mapped sw p"
  shows "emu_inv p s' \<and> (sw = None \<longrightarrow> (\<forall>q. q \<noteq> p \<longrightarrow> fst s' q = fst s q))"
  using assms(1)
proof (induction rule: rtranclp_induct)
  case base
  with assms(2) show ?case by simp
next
  case (step t u)
  obtain m emu where t: "t = (m, emu)" by force
  from step.hyps(2) obtain st b m' emu' st' where u: "u = (m', emu')"
    and h: "handleUD lib sw m emu st = Some (b, m', emu', st')"
    unfolding t by (auto elim: ud_stepE)
  from step.IH have "emu_inv p (m, emu)"
    by (simp add: t)
  from fault_total [OF this assms(3), of lib st] h step.IH show ?case
    by (auto simp: t u)
qed

text \<open>
  The emulator as a family of calls, one per trap frame, over the kernel memory and its own state.
\<close>

definition emu_run ::
  "hde_lib \<Rightarrow> world_switch option \<Rightarrow> amdv_saved_state64 \<Rightarrow> kmem \<times> vmx_emulator \<Rightarrow> (kmem \<times> vmx_emulator) option" where
  "emu_run lib sw st s = map_option (\<lambda>(b, m, emu, st'). (m, emu)) (handleUD lib sw (fst s) (snd s) st)"

interpretation emulator_life: safe_calls "emu_run lib sw" "\<lambda>s. emu_inv p s \<and> keeps_mapped sw p" for lib sw p
proof
  fix st :: amdv_saved_state64 and s
  assume inv: "emu_inv p s \<and> keeps_mapped sw p"
  obtain m emu where s: "s = (m, emu)" by force
  from fault_total [of p m emu sw lib st] inv s show "\<exists>s'. emu_run lib sw st s = Some s' \<and> emu_inv p s' \<and> keeps_mapped sw p"
    by (auto simp: emu_run_def)
qed

text \<open>
  C4: Starting from a freshly constructed emulator bound to a mapped VMCB (or to none), no sequence
  of trapped instructions makes the emulator dereference an unmapped page, provided the
  world-switch keeps the VMCB mapped; the shadow VMCS stays well formed and the bound pointer
  fixed. Without guest entry no page but the VMCB is ever written.
\<close>

theorem reachable_emulator_safe:
  assumes "(ud_step lib sw)\<^sup>*\<^sup>* (m0, emu_bind new_emulator p pa f) (m, emu)"
    and "p = 0 \<or> m0 p \<noteq> None" and "keeps_mapped sw p"
  shows "handleUD lib sw m emu st \<noteq> None \<and> shadow_wf (fVmcs emu) \<and> fVmcb emu = p
    \<and> (sw = None \<longrightarrow> (\<forall>q. q \<noteq> p \<longrightarrow> m q = m0 q))"
proof -
  have "emu_inv p (m0, emu_bind new_emulator p pa f)"
    using assms(2) by (simp add: emu_inv_def emu_bind_def new_emulator_def shadow_wf_new)
  from ud_steps_inv [OF assms(1) this assms(3)] have inv: "emu_inv p (m, emu)"
    and frame: "sw = None \<longrightarrow> (\<forall>q. q \<noteq> p \<longrightarrow> m q = m0 q)"
    by simp_all
  from fault_total [OF inv assms(3), of lib st] inv frame show ?thesis
    by (auto simp: emu_inv_def)
qed

theorem reachable_emulator_safe_witness:
  "\<exists>m emu. (ud_step sample_vmlaunch None)\<^sup>*\<^sup>* (one_page, bound_emulator) (m, emu)
     \<and> isLaunched (fVmcs emu) \<and> handleUD sample_vmlaunch None m emu sample_frame \<noteq> None \<and> fVmcb emu = 0x1000"
proof -
  have "emu_inv 0x1000 (one_page, bound_emulator)"
    by (simp add: emu_inv_def bound_emulator_simps shadow_wf_new)
  then obtain r m emu where l: "vmlaunchResume None one_page bound_emulator = Some (r, m, emu)"
    using launch_total [of "0x1000" one_page bound_emulator None] by (auto simp: keeps_mapped_def)
  have launched: "isLaunched (fVmcs emu)"
    using l vmlaunch_disabled [of bound_emulator one_page "\<lambda>_. 0"]
    by (auto simp: bound_emulator_simps exit_emulator_def isLaunched_def setLaunched_def)
  have "handleUD sample_vmlaunch None one_page bound_emulator sample_frame =
      Some (True, m, emu, vm_succeed sample_frame 3)"
    by (simp add: handleUD_def decode_sample_vmlaunch l)
  then have reach: "(ud_step sample_vmlaunch None)\<^sup>*\<^sup>* (one_page, bound_emulator) (m, emu)"
    by (blast intro: ud_step.intros r_into_rtranclp)
  have safe: "handleUD sample_vmlaunch None m emu sample_frame \<noteq> None \<and> fVmcb emu = 0x1000"
    using reachable_emulator_safe [OF reach [unfolded bound_emulator_def], of sample_frame]
    by (simp add: keeps_mapped_def one_page_def)
  show ?thesis
    using reach launched safe by (intro exI [of _ m] exI [of _ emu]) blast
qed

end
