(* ===== verification/VmxProgram.thy ===== *)
theory VmxProgram
  imports VmxEmuProps ShadowProps
begin

text \<open>
  Whole runs of a guest hypervisor on the emulator: straight-line code of VMX instructions, each
  trapped and emulated in turn, and the abstract machine such a run implements on the shadow VMCS.
\<close>

section \<open>Straight-line VMX code\<close>

text \<open>
  Every instruction traps at the address the one before it left in RIP. A fault that is handed back,
  or a kernel fault, ends the run.
\<close>

primrec run_traps ::
  "hde_lib \<Rightarrow> world_switch option \<Rightarrow> nat \<Rightarrow> kmem \<times> vmx_emulator \<times> amdv_saved_state64
    \<Rightarrow> (kmem \<times> vmx_emulator \<times> amdv_saved_state64) option" where
  "run_traps lib sw 0 s = Some s"
| "run_traps lib sw (Suc n) s =
     (case s of (m, emu, st) \<Rightarrow>
        (case handleUD lib sw m emu st of
           Some (True, m', emu', st') \<Rightarrow> run_traps lib sw n (m', emu', st')
         | _ \<Rightarrow> None))"

text \<open>
  The address behind \<open>n\<close> instructions from \<open>a\<close> on, if each is one the decoder takes: a VMX
  instruction, with register operands where it has any.
\<close>

definition takes :: "hde_lib \<Rightarrow> u64 \<Rightarrow> u8 option" where
  "takes lib a =
     (case hde64_disasm lib a of (len, hs) \<Rightarrow>
        if len = 0 \<or> hs_flags hs AND F_ERROR lib \<noteq> 0 then None
        else case classify hs of
          None \<Rightarrow> None
        | Some op \<Rightarrow>
            if op \<in> {VMXOP_VMREAD, VMXOP_VMWRITE} \<and> hs_modrm_mod hs \<noteq> 3 then None
            else Some (ucast len))"

primrec code_end :: "hde_lib \<Rightarrow> nat \<Rightarrow> u64 \<Rightarrow> u64 option" where
  "code_end lib 0 a = Some a"
| "code_end lib (Suc n) a =
     (case takes lib a of None \<Rightarrow> None | Some len \<Rightarrow> code_end lib n (a + ucast len))"

lemma decode_takes:
  "map_option dec_length (decodeVmx lib st) = takes lib (isf_rip (st_isf st))"
  by (auto simp: decodeVmx_def takes_def Let_def new_decoded_def split: prod.split option.split)

lemma consumed_iff_decodes:
  assumes "handleUD lib sw m emu st = Some (b, m', emu', st')"
  shows "b \<longleftrightarrow> decodeVmx lib st \<noteq> None"
  using assms by (rule handleUD_SomeE) auto

lemma consumed_rip:
  assumes "handleUD lib sw m emu st = Some (True, m', emu', st')" and "decodeVmx lib st = Some d"
  shows "isf_rip (st_isf st') = isf_rip (st_isf st) + ucast (dec_length d)"
proof -
  have "st' = vm_succeed (read_effect emu d st) (dec_length d)"
    using assms(1) by (rule handleUD_SomeE) (use assms(2) in auto)
  then show ?thesis
    by (simp add: vm_succeed_isf read_effect_def slot_set_isf split: option.split)
qed

text \<open>
  C14: straight-line VMX code runs through. From any register state and any emulator whose VMCB is
  mapped (or not bound), code of \<open>n\<close> instructions the decoder takes is executed by exactly \<open>n\<close>
  faults, every one of them consumed, none faulting in the kernel, and ends behind the last
  instruction; no instruction is executed twice and none is skipped.
\<close>

theorem vmx_code_runs_through:
  assumes "emu_inv p (m, emu)" and "keeps_mapped sw p"
    and "code_end lib n (isf_rip (st_isf st)) = Some b"
  shows "\<exists>m' emu' st'. run_traps lib sw n (m, emu, st) = Some (m', emu', st')
    \<and> isf_rip (st_isf st') = b \<and> emu_inv p (m', emu')"
  using assms(1,3)
proof (induction n arbitrary: m emu st)
  case 0
  then show ?case by simp
next
  case (Suc n)
  obtain c m1 emu1 st1 where h: "handleUD lib sw m emu st = Some (c, m1, emu1, st1)" "emu_inv p (m1, emu1)"
    using fault_total [OF Suc.prems(1) assms(2), of lib st] by blast
  obtain len where len: "takes lib (isf_rip (st_isf st)) = Some len"
      "code_end lib n (isf_rip (st_isf st) + ucast len) = Some b"
    using Suc.prems(2) by (auto split: option.splits)
  then obtain d where d: "decodeVmx lib st = Some d" "dec_length d = len"
    using decode_takes [of lib st] by (cases "decodeVmx lib st") auto
  with consumed_iff_decodes [OF h(1)] have c: "c = True" by simp
  have "isf_rip (st_isf st1) = isf_rip (st_isf st) + ucast len"
    using consumed_rip [OF h(1) [unfolded c] d(1)] d(2) by simp
  with len(2) Suc.IH [OF h(2), of st1] h(1) c show ?case by simp
qed

theorem vmx_code_runs_through_witness:
  "\<exists>m' emu' st'. run_traps sample_vmlaunch None 2 (one_page, bound_emulator, sample_frame) = Some (m', emu', st')
    \<and> isf_rip (st_isf st') = 0x1006"
proof -
  have "emu_inv 0x1000 (one_page, bound_emulator)"
    by (simp add: emu_inv_def bound_emulator_simps shadow_wf_new)
  moreover have "keeps_mapped None 0x1000"
    by (simp add: keeps_mapped_def)
  moreover have "takes sample_vmlaunch a = Some 3" for a
    by (simp add: takes_def sample_vmlaunch_def sample_lib_def sample_hs_def classify_def)
  then have "code_end sample_vmlaunch 2 (isf_rip (st_isf sample_frame)) = Some 0x1006"
    unfolding numeral_2_eq_2 by (simp add: sample_frame_def)
  ultimately show ?thesis
    using vmx_code_runs_through [of "0x1000" one_page bound_emulator None sample_vmlaunch 2 sample_frame "0x1006"]
    by blast
qed

section \<open>The abstract VMCS machine\<close>

text \<open>What a trapped instruction asks of the store: a write, a change of the launch state, or nothing.\<close>

definition asked :: "hde_lib \<Rightarrow> amdv_saved_state64 \<Rightarrow> store_call list" where
  "asked lib st =
     (case decodeVmx lib st of
        None \<Rightarrow> []
      | Some d \<Rightarrow>
          (case dec_op d of
             VMXOP_VMWRITE \<Rightarrow> [CallWrite (dec_field d) (dec_srcValue d)]
           | VMXOP_VMPTRLD \<Rightarrow> [CallSetLaunched False]
           | VMXOP_VMCLEAR \<Rightarrow> [CallSetLaunched False]
           | _ \<Rightarrow> []))"

definition launches :: "hde_lib \<Rightarrow> amdv_saved_state64 \<Rightarrow> bool" where
  "launches lib st =
     (case decodeVmx lib st of
        None \<Rightarrow> False | Some d \<Rightarrow> dec_op d \<in> {VMXOP_VMLAUNCH, VMXOP_VMRESUME})"

lemma emu_run_asked:
  assumes "\<not> launches lib st"
  shows "emu_run lib sw st (m, emu) =
    Some (m, emu\<lparr>fVmcs := fold store_step (asked lib st) (fVmcs emu),
                 fVmxRoot := fVmxRoot (snd (the (emu_run lib sw st (m, emu))))\<rparr>)"
proof (cases "decodeVmx lib st")
  case None
  then show ?thesis
    by (simp add: emu_run_def handleUD_def asked_def)
next
  case (Some d)
  with assms show ?thesis
    by (cases "dec_op d")
      (simp_all add: emu_run_def handleUD_def asked_def launches_def vmxon_def vmxoff_def vmptrld_def
        vmclear_def vmwrite_def split: prod.split)
qed

lemma session_outcome:
  assumes "shadow_wf (fVmcs emu)" and "\<forall>st \<in> set frames. \<not> launches lib st"
  shows "\<exists>s r. run_calls (emu_run lib sw) frames (m, emu) = Some (m, emu\<lparr>fVmcs := s, fVmxRoot := r\<rparr>)
    \<and> shadow_wf s \<and> store_abs s = fold spec_step (concat (map (asked lib) frames)) (store_abs (fVmcs emu))"
  using assms
proof (induction frames arbitrary: emu)
  case Nil
  then show ?case
    by (intro exI [of _ "fVmcs emu"] exI [of _ "fVmxRoot emu"]) simp
next
  case (Cons st frames)
  obtain r where step: "emu_run lib sw st (m, emu) =
      Some (m, emu\<lparr>fVmcs := fold store_step (asked lib st) (fVmcs emu), fVmxRoot := r\<rparr>)"
    using emu_run_asked [of lib st sw m emu] Cons.prems(2) by auto
  let ?emu = "emu\<lparr>fVmcs := fold store_step (asked lib st) (fVmcs emu), fVmxRoot := r\<rparr>"
  have sim: "shadow_wf (fVmcs ?emu)"
      "store_abs (fVmcs ?emu) = fold spec_step (asked lib st) (store_abs (fVmcs emu))"
    using store_steps_sim [OF Cons.prems(1), of "asked lib st"] by simp_all
  from Cons.IH [OF sim(1)] Cons.prems(2) step sim(2) show ?case by simp
qed

text \<open>
  between launches the emulator is the abstract VMCS machine. Any sequence of faults, in any
  threads and with any registers, that contains no launch leaves the kernel memory alone and takes
  the contents and the launch state of the shadow VMCS exactly where the specification (a map of at
  most 256 fields) takes them on the writes and loads the faults ask for; every later VMREAD then
  delivers the specification's value.
\<close>

theorem trapped_session_refines_map:
  assumes "shadow_wf (fVmcs emu)" and "\<forall>st \<in> set frames. \<not> launches lib st"
  shows "\<exists>emu'. run_calls (emu_run lib sw) frames (m, emu) = Some (m, emu')
    \<and> store_abs (fVmcs emu') = fold spec_step (concat (map (asked lib) frames)) (store_abs (fVmcs emu))
    \<and> vmread emu' e = (case fst (store_abs (fVmcs emu')) e of None \<Rightarrow> 0 | Some v \<Rightarrow> v)"
proof -
  obtain s r where "run_calls (emu_run lib sw) frames (m, emu) = Some (m, emu\<lparr>fVmcs := s, fVmxRoot := r\<rparr>)"
      "shadow_wf s" "store_abs s = fold spec_step (concat (map (asked lib) frames)) (store_abs (fVmcs emu))"
    using session_outcome [OF assms] by blast
  then show ?thesis
    by (simp add: vmread_def shadow_read_map store_abs_def)
qed

theorem trapped_session_refines_map_witness:
  "\<exists>emu'. run_calls (emu_run sample_vmwrite None) [sample_frame] (Map.empty, new_emulator) = Some (Map.empty, emu')
    \<and> vmread emu' 0x681E = 0xABC"
proof -
  have wf: "shadow_wf (fVmcs new_emulator)" and s0: "store_abs (fVmcs new_emulator) = (Map.empty, False)"
    by (simp_all add: new_emulator_def shadow_wf_new store_abs_def shadow_map_new)
      (simp add: isLaunched_def new_shadow_def)
  have asked: "asked sample_vmwrite sample_frame = [CallWrite 0x681E 0xABC]"
    and "\<forall>st \<in> set [sample_frame]. \<not> launches sample_vmwrite st"
    by (simp_all add: asked_def launches_def decode_sample_vmwrite new_decoded_def)
  from trapped_session_refines_map [OF wf this(2), of None Map.empty "0x681E"] show ?thesis
    by (auto simp: asked s0 spec_write_def)
qed

section \<open>From the writes of the guest hypervisor to the guest that runs\<close>

text \<open>The guest a map of VMCS fields describes; a field that was never written reads as 0.\<close>

definition field_of :: "(u32 \<rightharpoonup> u64) \<Rightarrow> u32 \<Rightarrow> u64" where
  "field_of m e = (case m e of None \<Rightarrow> 0 | Some v \<Rightarrow> v)"

definition spec_guest :: "(u32 \<rightharpoonup> u64) \<Rightarrow> guest_view" where
  "spec_guest m = fields_guest (field_of m)"

lemma vmcs_guest_spec: "shadow_wf s \<Longrightarrow> vmcs_guest s = spec_guest (shadow_map s)"
  by (simp add: vmcs_guest_def spec_guest_def fields_guest_def fields_seg_def field_of_def shadow_read_map)

text \<open>
  C5: what the guest hypervisor programs is what runs. After any sequence of faults without a launch,
  a VMLAUNCH or VMRESUME hands the world-switch the bound VMCB filled with a page that describes
  exactly the guest the specification's map of the written fields describes (with the SVME bit that
  VMRUN demands), at the physical address, with the general registers and \<open>RAX\<close> the emulator holds; if
  the world-switch comes back with the page still mapped, the launch is consumed and execution
  resumes behind it with VMsucceed.
\<close>

theorem programmed_guest_enters:
  assumes "shadow_wf (fVmcs emu)" and "\<forall>st \<in> set frames. \<not> launches lib st"
    and "launches lib st" and "fVmcb emu \<noteq> 0" and "m (fVmcb emu) = Some v"
    and "keeps_mapped (Some switch) (fVmcb emu)"
  shows "\<exists>emu1 page emu2 d.
      run_calls (emu_run lib (Some switch)) frames (m, emu) = Some (m, emu1)
    \<and> (let g = spec_guest (fst (fold spec_step (concat (map (asked lib) frames)) (store_abs (fVmcs emu))))
       in vmcb_guest page = g\<lparr>gv_efer := gv_efer g OR EFER_SVME\<rparr>)
    \<and> vmcb_get64 page VMCB_RAX = fGuestRax emu
    \<and> handleUD lib (Some switch) m emu1 st =
        Some (True, snd (switch (fVmcbPA emu) (fGprs emu) (m(fVmcb emu \<mapsto> page))), emu2, vm_succeed st (dec_length d))
    \<and> decodeVmx lib st = Some d \<and> fGprs emu2 = fst (switch (fVmcbPA emu) (fGprs emu) (m(fVmcb emu \<mapsto> page)))
    \<and> isLaunched (fVmcs emu2)"
proof -
  obtain s r where run: "run_calls (emu_run lib (Some switch)) frames (m, emu) = Some (m, emu\<lparr>fVmcs := s, fVmxRoot := r\<rparr>)"
      and wf: "shadow_wf s"
      and abs: "store_abs s = fold spec_step (concat (map (asked lib) frames)) (store_abs (fVmcs emu))"
    using session_outcome [OF assms(1,2)] by blast
  let ?e = "emu\<lparr>fVmcs := s, fVmxRoot := r\<rparr>"
  let ?p = "entry_page ?e v"
  obtain g m' where sw: "switch (fVmcbPA emu) (fGprs emu) (m(fVmcb emu \<mapsto> ?p)) = (g, m')"
    by force
  have "m' (fVmcb emu) \<noteq> None"
    using assms(6) sw unfolding keeps_mapped_def option.case by (metis fun_upd_same option.discI snd_conv)
  then obtain v' where v': "m' (fVmcb emu) = Some v'" by auto
  obtain d where d: "decodeVmx lib st = Some d" "dec_op d \<in> {VMXOP_VMLAUNCH, VMXOP_VMRESUME}"
    using assms(3) by (auto simp: launches_def split: option.splits)
  have "\<exists>x. vmlaunchResume (Some switch) m ?e = Some (x, m', exit_emulator ?e g v')"
    using vmlaunch_enabled [of ?e m v switch g m'] assms(4,5) sw v' by simp
  then have "handleUD lib (Some switch) m ?e st = Some (True, m', exit_emulator ?e g v', vm_succeed st (dec_length d))"
    using d by (auto simp: handleUD_def)
  moreover have "vmcb_guest ?p = (spec_guest (fst (store_abs s)))\<lparr>gv_efer := gv_efer (spec_guest (fst (store_abs s))) OR EFER_SVME\<rparr>"
    by (simp add: vmcb_guest_entry_page translate_guest_view vmcs_guest_spec [OF wf, symmetric] store_abs_def)
      (simp add: vmcs_guest_def fields_guest_def vmcs_enc.simps)
  moreover have "vmcb_get64 ?p VMCB_RAX = fGuestRax emu"
    using rax_entry_page [of ?e v] by simp
  moreover have "fGprs (exit_emulator ?e g v') = g" "isLaunched (fVmcs (exit_emulator ?e g v'))"
    by (simp_all add: exit_emulator_def isLaunched_def setLaunched_def)
  ultimately show ?thesis
    using run d(1) sw unfolding abs [symmetric] Let_def
    by (intro exI [of _ ?e] exI [of _ ?p] exI [of _ "exit_emulator ?e g v'"] exI [of _ d]) simp
qed

text \<open>A program of two instructions: VMWRITE of the guest's RIP, then VMLAUNCH.\<close>

definition sample_program :: hde_lib where
  "sample_program = \<lparr>hde64_disasm = (\<lambda>a. if a = 0x1000
     then hde64_disasm sample_vmwrite a else hde64_disasm sample_vmlaunch a), F_ERROR = 0x1000\<rparr>"

definition launch_frame :: amdv_saved_state64 where
  "launch_frame = sample_frame\<lparr>st_isf := (st_isf sample_frame)\<lparr>isf_rip := 0x1003\<rparr>\<rparr>"

lemma decode_program:
  "decodeVmx sample_program sample_frame = decodeVmx sample_vmwrite sample_frame"
  "decodeVmx sample_program launch_frame = Some (new_decoded\<lparr>dec_op := VMXOP_VMLAUNCH, dec_length := 3\<rparr>)"
  by (simp_all add: decodeVmx_def sample_program_def launch_frame_def sample_vmwrite_def sample_vmlaunch_def
      sample_defs classify_def new_decoded_def)

theorem programmed_guest_enters_witness:
  "\<exists>emu1 page emu2 m2. run_calls (emu_run sample_program (Some halting_switch)) [sample_frame] (one_page, bound_emulator)
       = Some (one_page, emu1)
    \<and> gv_rip (vmcb_guest page) = 0xABC
    \<and> handleUD sample_program (Some halting_switch) one_page emu1 launch_frame
        = Some (True, m2, emu2, vm_succeed launch_frame 3)
    \<and> isLaunched (fVmcs emu2)"
proof -
  have prem: "shadow_wf (fVmcs bound_emulator)" "\<forall>st \<in> set [sample_frame]. \<not> launches sample_program st"
      "launches sample_program launch_frame" "fVmcb bound_emulator \<noteq> 0"
      "one_page (fVmcb bound_emulator) = Some (\<lambda>_. 0)"
      "keeps_mapped (Some halting_switch) (fVmcb bound_emulator)"
    by (simp_all add: keeps_mapped_def bound_emulator_simps shadow_wf_new launches_def decode_program decode_sample_vmwrite
        new_decoded_def halting_switch_def)
  have asked: "concat (map (asked sample_program) [sample_frame]) = [CallWrite 0x681E 0xABC]"
    by (simp add: asked_def decode_program decode_sample_vmwrite new_decoded_def)
  have s0: "store_abs (fVmcs bound_emulator) = (Map.empty, False)"
    by (simp add: bound_emulator_simps store_abs_def shadow_map_new) (simp add: isLaunched_def new_shadow_def)
  have rip: "gv_rip (spec_guest (fst (fold spec_step [CallWrite 0x681E 0xABC] (Map.empty, False)))) = 0xABC"
    by (simp add: spec_guest_def fields_guest_def field_of_def spec_write_def)
  obtain emu1 page emu2 d where
    1: "run_calls (emu_run sample_program (Some halting_switch)) [sample_frame] (one_page, bound_emulator) = Some (one_page, emu1)"
    and 2: "let g = spec_guest (fst (fold spec_step [CallWrite 0x681E 0xABC] (Map.empty, False)))
       in vmcb_guest page = g\<lparr>gv_efer := gv_efer g OR EFER_SVME\<rparr>"
    and 3: "handleUD sample_program (Some halting_switch) one_page emu1 launch_frame = Some (True,
        snd (halting_switch (fVmcbPA bound_emulator) (fGprs bound_emulator) (one_page(fVmcb bound_emulator \<mapsto> page))),
        emu2, vm_succeed launch_frame (dec_length d))"
    and 4: "decodeVmx sample_program launch_frame = Some d" "isLaunched (fVmcs emu2)"
    using programmed_guest_enters [where m = one_page, OF prem] unfolding asked s0 by blast
  have "gv_rip (vmcb_guest page) = 0xABC"
    using 2 rip by (simp add: Let_def)
  moreover have "dec_length d = 3"
    using 4(1) by (auto simp: decode_program new_decoded_def)
  ultimately show ?thesis
    using 1 3 4(2) by auto
qed

end
