(* ===== verification/WorldSwitch.thy ===== *)
theory WorldSwitch
  imports VmxEmu
begin

text \<open>
  The guest entry routine \<open>svmWorldSwitch\<close> of \<^verbatim>\<open>src/svm_switch.S\<close>, instruction by
  instruction, on a machine with the sixteen general-purpose registers, a memory of aligned 64-bit
  words (the host stack and the register block of the emulator), the pages of the kernel (the VMCB
  among them), the state that only VMLOAD and VMSAVE move (FS, GS, TR, LDTR and the SYSCALL and
  SYSENTER MSRs), and the global interrupt flag. What the SVM instructions do to the guest is a
  parameter; what they do to the host registers is not.
\<close>

section \<open>The machine\<close>

datatype reg =
    RAX | RBX | RCX | RDX | RSP | RBP | RSI | RDI
  | R8 | R9 | R10 | R11 | R12 | R13 | R14 | R15

text \<open>
  The processor: whether \<open>EFER.SVME\<close> is set, what VMLOAD reads from and VMSAVE writes to the VMCB
  at a physical address, and what a run of the guest does to the general-purpose registers, the
  VMLOAD state, the pages and the words.
\<close>

record 'h svm_cpu =
  cpu_svme :: bool
  cpu_vmload :: "u64 \<Rightarrow> kmem \<Rightarrow> 'h"
  cpu_vmsave :: "u64 \<Rightarrow> 'h \<Rightarrow> kmem \<Rightarrow> kmem"
  cpu_guest :: "u64 \<Rightarrow> (reg \<Rightarrow> u64) \<Rightarrow> 'h \<Rightarrow> kmem \<Rightarrow> (u64 \<Rightarrow> u64)
    \<Rightarrow> (reg \<Rightarrow> u64) \<times> 'h \<times> kmem \<times> (u64 \<Rightarrow> u64)"

record 'h machine =
  x_regs :: "reg \<Rightarrow> u64"
  x_words :: "u64 \<Rightarrow> u64"
  x_pages :: kmem
  x_hidden :: 'h
  x_gif :: bool
  x_return :: "u64 option"

definition aligned :: "u64 \<Rightarrow> bool" where
  "aligned a \<longleftrightarrow> uint a mod 8 = 0"

section \<open>Instructions\<close>

datatype instr =
    PUSH reg
  | POP reg
  | MOV reg reg
  | LOAD reg reg u64
  | STORE reg u64 reg
  | ADD_SP u64
  | CLGI
  | STGI
  | VMLOAD
  | VMRUN
  | VMSAVE
  | RET

definition read_word :: "'h machine \<Rightarrow> u64 \<Rightarrow> u64 option" where
  "read_word s a = (if aligned a then Some (x_words s a) else None)"

definition set_reg :: "reg \<Rightarrow> u64 \<Rightarrow> 'h machine \<Rightarrow> 'h machine" where
  "set_reg r v s = s\<lparr>x_regs := (x_regs s)(r := v)\<rparr>"

text \<open>
  VMRUN takes the VMCB address from RAX. The guest starts with the host's registers, except RAX and
  RSP, which are in the VMCB; the exit gives RAX and RSP back to the host, leaves every other
  register as the guest left it, and clears the global interrupt flag.
\<close>

definition vmrun :: "'h svm_cpu \<Rightarrow> 'h machine \<Rightarrow> 'h machine" where
  "vmrun cpu s =
     (case cpu_guest cpu (x_regs s RAX) (x_regs s) (x_hidden s) (x_pages s) (x_words s) of
        (rs, h, pages, words) \<Rightarrow>
          s\<lparr>x_regs := rs(RAX := x_regs s RAX, RSP := x_regs s RSP), x_hidden := h, x_pages := pages,
            x_words := words, x_gif := False\<rparr>)"

fun exec_instr :: "'h svm_cpu \<Rightarrow> instr \<Rightarrow> 'h machine \<Rightarrow> 'h machine option" where
  "exec_instr cpu (PUSH r) s =
     (let a = x_regs s RSP - 8 in
      if aligned a then Some (set_reg RSP a (s\<lparr>x_words := (x_words s)(a := x_regs s r)\<rparr>)) else None)"
| "exec_instr cpu (POP r) s =
     map_option (\<lambda>v. set_reg r v (set_reg RSP (x_regs s RSP + 8) s)) (read_word s (x_regs s RSP))"
| "exec_instr cpu (MOV d r) s = Some (set_reg d (x_regs s r) s)"
| "exec_instr cpu (LOAD d b off) s =
     map_option (\<lambda>v. set_reg d v s) (read_word s (x_regs s b + off))"
| "exec_instr cpu (STORE b off r) s =
     (let a = x_regs s b + off in
      if aligned a then Some (s\<lparr>x_words := (x_words s)(a := x_regs s r)\<rparr>) else None)"
| "exec_instr cpu (ADD_SP n) s = Some (set_reg RSP (x_regs s RSP + n) s)"
| "exec_instr cpu CLGI s = (if cpu_svme cpu then Some (s\<lparr>x_gif := False\<rparr>) else None)"
| "exec_instr cpu STGI s = (if cpu_svme cpu then Some (s\<lparr>x_gif := True\<rparr>) else None)"
| "exec_instr cpu VMLOAD s =
     (if cpu_svme cpu then Some (s\<lparr>x_hidden := cpu_vmload cpu (x_regs s RAX) (x_pages s)\<rparr>) else None)"
| "exec_instr cpu VMRUN s = (if cpu_svme cpu then Some (vmrun cpu s) else None)"
| "exec_instr cpu VMSAVE s =
     (if cpu_svme cpu
      then Some (s\<lparr>x_pages := cpu_vmsave cpu (x_regs s RAX) (x_hidden s) (x_pages s)\<rparr>) else None)"
| "exec_instr cpu RET s =
     map_option (\<lambda>v. (set_reg RSP (x_regs s RSP + 8) s)\<lparr>x_return := Some v\<rparr>) (read_word s (x_regs s RSP))"

section \<open>The routine\<close>

definition svmWorldSwitch :: "instr list" where
  "svmWorldSwitch =
     [PUSH RBP, PUSH RBX, PUSH R12, PUSH R13, PUSH R14, PUSH R15,
      PUSH RDI, PUSH RSI,
      MOV RAX RSI,
      LOAD RBX RAX 0x00, LOAD RCX RAX 0x08, LOAD RDX RAX 0x10, LOAD RBP RAX 0x18,
      LOAD RSI RAX 0x20, LOAD RDI RAX 0x28, LOAD R8 RAX 0x30, LOAD R9 RAX 0x38,
      LOAD R10 RAX 0x40, LOAD R11 RAX 0x48, LOAD R12 RAX 0x50, LOAD R13 RAX 0x58,
      LOAD R14 RAX 0x60, LOAD R15 RAX 0x68,
      LOAD RAX RSP 8,
      CLGI, VMLOAD, VMRUN, VMSAVE, STGI,
      LOAD RAX RSP 0,
      STORE RAX 0x00 RBX, STORE RAX 0x08 RCX, STORE RAX 0x10 RDX, STORE RAX 0x18 RBP,
      STORE RAX 0x20 RSI, STORE RAX 0x28 RDI, STORE RAX 0x30 R8, STORE RAX 0x38 R9,
      STORE RAX 0x40 R10, STORE RAX 0x48 R11, STORE RAX 0x50 R12, STORE RAX 0x58 R13,
      STORE RAX 0x60 R14, STORE RAX 0x68 R15,
      ADD_SP 16,
      POP R15, POP R14, POP R13, POP R12, POP RBX, POP RBP,
      RET]"

text \<open>
  The block \<open>GuestGprs\<close> in memory: the members in the order of the struct, eight bytes each.
\<close>

definition guest_gprs_members :: "reg list" where
  "guest_gprs_members = [RBX, RCX, RDX, RBP, RSI, RDI, R8, R9, R10, R11, R12, R13, R14, R15]"

definition gprs_of :: "(reg \<Rightarrow> u64) \<Rightarrow> guest_gprs" where
  "gprs_of rs = \<lparr>g_rbx = rs RBX, g_rcx = rs RCX, g_rdx = rs RDX, g_rbp = rs RBP, g_rsi = rs RSI,
     g_rdi = rs RDI, g_r8 = rs R8, g_r9 = rs R9, g_r10 = rs R10, g_r11 = rs R11, g_r12 = rs R12,
     g_r13 = rs R13, g_r14 = rs R14, g_r15 = rs R15\<rparr>"

definition member_offset :: "reg \<Rightarrow> u64" where
  "member_offset r = of_nat (offset_of (map (\<lambda>r. (r, 8)) guest_gprs_members) r)"

definition gprs_at :: "(u64 \<Rightarrow> u64) \<Rightarrow> u64 \<Rightarrow> guest_gprs" where
  "gprs_at words g = gprs_of (\<lambda>r. words (g + member_offset r))"

text \<open>
  The routine as the emulator calls it: \<open>svmWorldSwitch(fVmcbPA, &fGprs)\<close> on a host whose RSI is the
  address of \<open>fGprs\<close>, with the members of the struct in memory. A faulting call never comes back; it
  is kept apart from the answers of a call that does.
\<close>

primrec gprs_get :: "guest_gprs \<Rightarrow> reg \<Rightarrow> u64" where
  "gprs_get gp RAX = 0"
| "gprs_get gp RBX = g_rbx gp"
| "gprs_get gp RCX = g_rcx gp"
| "gprs_get gp RDX = g_rdx gp"
| "gprs_get gp RSP = 0"
| "gprs_get gp RBP = g_rbp gp"
| "gprs_get gp RSI = g_rsi gp"
| "gprs_get gp RDI = g_rdi gp"
| "gprs_get gp R8 = g_r8 gp"
| "gprs_get gp R9 = g_r9 gp"
| "gprs_get gp R10 = g_r10 gp"
| "gprs_get gp R11 = g_r11 gp"
| "gprs_get gp R12 = g_r12 gp"
| "gprs_get gp R13 = g_r13 gp"
| "gprs_get gp R14 = g_r14 gp"
| "gprs_get gp R15 = g_r15 gp"

definition stored :: "u64 \<Rightarrow> (reg \<Rightarrow> u64) \<Rightarrow> reg list \<Rightarrow> (u64 \<Rightarrow> u64) \<Rightarrow> u64 \<Rightarrow> u64" where
  "stored b v rs w = fold (\<lambda>r w. w(b + member_offset r := v r)) rs w"

definition host_call :: "'h machine \<Rightarrow> u64 \<Rightarrow> guest_gprs \<Rightarrow> kmem \<Rightarrow> 'h machine" where
  "host_call host pa gp m =
     host\<lparr>x_regs := (x_regs host)(RDI := pa), x_pages := m,
          x_words := stored (x_regs host RSI) (gprs_get gp) guest_gprs_members (x_words host)\<rparr>"

definition asm_switch ::
  "'h svm_cpu \<Rightarrow> 'h machine \<Rightarrow> u64 \<Rightarrow> guest_gprs \<Rightarrow> kmem \<Rightarrow> (guest_gprs \<times> kmem) option" where
  "asm_switch cpu host pa gp m =
     map_option (\<lambda>s. (gprs_at (x_words s) (x_regs host RSI), x_pages s))
       (run_calls (exec_instr cpu) svmWorldSwitch (host_call host pa gp m))"

section \<open>The instruction wrappers of SVM.h\<close>

definition amdv_vmrun :: "'h svm_cpu \<Rightarrow> u64 \<Rightarrow> 'h machine \<Rightarrow> 'h machine option" where
  "amdv_vmrun cpu vmcb_pa s = exec_instr cpu VMRUN (set_reg RAX vmcb_pa s)"

definition amdv_vmload :: "'h svm_cpu \<Rightarrow> u64 \<Rightarrow> 'h machine \<Rightarrow> 'h machine option" where
  "amdv_vmload cpu vmcb_pa s = exec_instr cpu VMLOAD (set_reg RAX vmcb_pa s)"

definition amdv_vmsave :: "'h svm_cpu \<Rightarrow> u64 \<Rightarrow> 'h machine \<Rightarrow> 'h machine option" where
  "amdv_vmsave cpu vmcb_pa s = exec_instr cpu VMSAVE (set_reg RAX vmcb_pa s)"

definition amdv_stgi :: "'h svm_cpu \<Rightarrow> 'h machine \<Rightarrow> 'h machine option" where
  "amdv_stgi cpu s = exec_instr cpu STGI s"

definition amdv_clgi :: "'h svm_cpu \<Rightarrow> 'h machine \<Rightarrow> 'h machine option" where
  "amdv_clgi cpu s = exec_instr cpu CLGI s"

end
