(* ===== verification/WorldSwitchProps.thy ===== *)
theory WorldSwitchProps
  imports WorldSwitch VmxEmuProps
begin

text \<open>
  The routine keeps the calling convention, hands the guest exactly the registers of the block, and
  implements the abstract guest entry the emulator is built on; it does not bring back the host state
  VMLOAD replaced.
\<close>

section \<open>Straight-line blocks\<close>

lemma run_calls_seq:
  "run_calls f xs s = Some t \<Longrightarrow> run_calls f (xs @ ys) s = run_calls f ys t"
  by (induction xs arbitrary: s) (auto split: option.splits)

lemma aligned_word_of_int: "aligned (word_of_int x) \<longleftrightarrow> x mod 8 = 0"
proof -
  have "x mod 2 ^ 64 mod 8 = x mod 8"
    by (rule mod_mod_cancel) simp
  then show ?thesis
    by (simp add: aligned_def uint_word_of_int)
qed

lemma aligned_add: "aligned a \<Longrightarrow> aligned b \<Longrightarrow> aligned (a + b)"
  unfolding word_add_def [of a b] aligned_word_of_int by (simp add: aligned_def mod_0_imp_dvd)

lemma aligned_sub: "aligned a \<Longrightarrow> aligned b \<Longrightarrow> aligned (a - b)"
  unfolding word_sub_wi [of a b] aligned_word_of_int by (simp add: aligned_def mod_0_imp_dvd)

lemma aligned_numerals [simp]:
  "aligned 8" "aligned 16" "aligned 24" "aligned 32" "aligned 40" "aligned 48" "aligned 56" "aligned 64"
  by (simp_all add: aligned_def)

lemmas member_defs = member_offset_def guest_gprs_members_def

lemma member_offset_simps [simp]:
  "member_offset RBX = 0" "member_offset RCX = 8" "member_offset RDX = 0x10" "member_offset RBP = 0x18"
  "member_offset RSI = 0x20" "member_offset RDI = 0x28" "member_offset R8 = 0x30" "member_offset R9 = 0x38"
  "member_offset R10 = 0x40" "member_offset R11 = 0x48" "member_offset R12 = 0x50" "member_offset R13 = 0x58"
  "member_offset R14 = 0x60" "member_offset R15 = 0x68"
  by (simp_all add: member_defs)

lemma aligned_member: "r \<in> set guest_gprs_members \<Longrightarrow> aligned (member_offset r)"
  by (auto simp: guest_gprs_members_def) (simp_all add: aligned_def)

lemma inj_member: "inj_on (\<lambda>r. g + member_offset r) (set guest_gprs_members)"
  by (rule inj_onI) (auto simp: guest_gprs_members_def)

text \<open>
  The offsets in the assembly are those of the struct: the routine is its prologue, a load of
  every member, the SVM instructions, a store of every member, and the epilogue.
\<close>

definition saved_regs :: "reg list" where
  "saved_regs = [RBP, RBX, R12, R13, R14, R15]"

definition enter_guest :: "instr list" where
  "enter_guest = [LOAD RAX RSP 8, CLGI, VMLOAD, VMRUN, VMSAVE, STGI, LOAD RAX RSP 0]"

lemma svmWorldSwitch_blocks:
  "svmWorldSwitch =
     map PUSH (saved_regs @ [RDI, RSI]) @ [MOV RAX RSI]
     @ map (\<lambda>r. LOAD r RAX (member_offset r)) guest_gprs_members
     @ enter_guest
     @ map (\<lambda>r. STORE RAX (member_offset r) r) guest_gprs_members
     @ [ADD_SP 16] @ map POP (rev saved_regs) @ [RET]"
  by (simp add: svmWorldSwitch_def guest_gprs_members_def saved_regs_def enter_guest_def)

lemma run_loads:
  assumes "RAX \<notin> set rs" and "\<forall>r \<in> set rs. aligned (x_regs s RAX + off r)"
  shows "run_calls (exec_instr cpu) (map (\<lambda>r. LOAD r RAX (off r)) rs) s =
    Some (s\<lparr>x_regs := (\<lambda>r. if r \<in> set rs then x_words s (x_regs s RAX + off r) else x_regs s r)\<rparr>)"
  using assms
proof (induction rs arbitrary: s)
  case Nil
  then show ?case by simp
next
  case (Cons r rs)
  let ?t = "set_reg r (x_words s (x_regs s RAX + off r)) s"
  have "exec_instr cpu (LOAD r RAX (off r)) s = Some ?t"
    using Cons.prems by (simp add: read_word_def)
  moreover have "run_calls (exec_instr cpu) (map (\<lambda>r. LOAD r RAX (off r)) rs) ?t =
      Some (?t\<lparr>x_regs := (\<lambda>q. if q \<in> set rs then x_words ?t (x_regs ?t RAX + off q) else x_regs ?t q)\<rparr>)"
    using Cons.prems by (intro Cons.IH) (auto simp: set_reg_def)
  ultimately show ?case
    using Cons.prems(1) by (auto simp: set_reg_def fun_eq_iff)
qed

lemma run_stores:
  assumes "\<forall>r \<in> set rs. aligned (x_regs s RAX + member_offset r)"
  shows "run_calls (exec_instr cpu) (map (\<lambda>r. STORE RAX (member_offset r) r) rs) s =
    Some (s\<lparr>x_words := stored (x_regs s RAX) (x_regs s) rs (x_words s)\<rparr>)"
  using assms by (induction rs arbitrary: s) (simp_all add: Let_def stored_def)

lemma stored_other: "(\<forall>r \<in> set rs. a \<noteq> b + member_offset r) \<Longrightarrow> stored b v rs w a = w a"
  by (induction rs arbitrary: w) (auto simp: stored_def)

lemma stored_read:
  assumes "inj_on (\<lambda>r. b + member_offset r) (set rs)" and "r \<in> set rs"
  shows "stored b v rs w (b + member_offset r) = v r"
  using assms
proof (induction rs arbitrary: w)
  case Nil
  then show ?case by simp
next
  case (Cons q rs)
  show ?case
  proof (cases "r \<in> set rs")
    case True
    with Cons.prems Cons.IH show ?thesis
      by (simp add: stored_def)
  next
    case False
    with Cons.prems(2) have "r = q" by simp
    moreover have "\<forall>p \<in> set rs. b + member_offset r \<noteq> b + member_offset p"
      using Cons.prems False by (auto simp: inj_on_def)
    ultimately show ?thesis
      using stored_other [of rs "b + member_offset r" b v "w(b + member_offset q := v q)"]
      by (simp add: stored_def)
  qed
qed

section \<open>The stack frame\<close>

text \<open>The return address and the eight words the routine pushes below it.\<close>

definition stack_frame :: "u64 \<Rightarrow> u64 set" where
  "stack_frame sp = {sp, sp - 8, sp - 16, sp - 24, sp - 32, sp - 40, sp - 48, sp - 56, sp - 64}"

definition gprs_block :: "u64 \<Rightarrow> u64 set" where
  "gprs_block g = (\<lambda>r. g + member_offset r) ` set guest_gprs_members"

text \<open>A call as the C++ side makes it: both pointers aligned, the block not on the routine's frame.\<close>

definition call_ok :: "'h machine \<Rightarrow> bool" where
  "call_ok s \<longleftrightarrow> aligned (x_regs s RSP) \<and> aligned (x_regs s RSI)
     \<and> stack_frame (x_regs s RSP) \<inter> gprs_block (x_regs s RSI) = {}"

text \<open>Whatever the guest does, it cannot write the host words in \<open>A\<close>.\<close>

definition guest_isolated :: "'h svm_cpu \<Rightarrow> u64 set \<Rightarrow> bool" where
  "guest_isolated cpu A \<longleftrightarrow>
     (\<forall>pa rs h k w rs' h' k' w'. cpu_guest cpu pa rs h k w = (rs', h', k', w') \<longrightarrow> (\<forall>a \<in> A. w' a = w a))"

definition framed :: "'h machine \<Rightarrow> u64 \<Rightarrow> u64" where
  "framed s = (let sp = x_regs s RSP in
     (x_words s)(sp - 8 := x_regs s RBP, sp - 16 := x_regs s RBX, sp - 24 := x_regs s R12,
       sp - 32 := x_regs s R13, sp - 40 := x_regs s R14, sp - 48 := x_regs s R15,
       sp - 56 := x_regs s RDI, sp - 64 := x_regs s RSI))"

lemma framed_reads:
  "framed s (x_regs s RSP) = x_words s (x_regs s RSP)"
  "framed s (x_regs s RSP - 8) = x_regs s RBP" "framed s (x_regs s RSP - 16) = x_regs s RBX"
  "framed s (x_regs s RSP - 24) = x_regs s R12" "framed s (x_regs s RSP - 32) = x_regs s R13"
  "framed s (x_regs s RSP - 40) = x_regs s R14" "framed s (x_regs s RSP - 48) = x_regs s R15"
  "framed s (x_regs s RSP - 56) = x_regs s RDI" "framed s (x_regs s RSP - 64) = x_regs s RSI"
  by (simp_all add: framed_def Let_def)

lemma framed_other: "a \<notin> stack_frame (x_regs s RSP) \<Longrightarrow> framed s a = x_words s a"
  by (simp add: framed_def stack_frame_def Let_def)

lemma run_prologue:
  assumes "aligned (x_regs s RSP)"
  shows "run_calls (exec_instr cpu) (map PUSH (saved_regs @ [RDI, RSI]) @ [MOV RAX RSI]) s =
    Some (s\<lparr>x_regs := (x_regs s)(RSP := x_regs s RSP - 64, RAX := x_regs s RSI), x_words := framed s\<rparr>)"
proof -
  have "aligned (x_regs s RSP - 8)" "aligned (x_regs s RSP - 16)" "aligned (x_regs s RSP - 24)"
    "aligned (x_regs s RSP - 32)" "aligned (x_regs s RSP - 40)" "aligned (x_regs s RSP - 48)"
    "aligned (x_regs s RSP - 56)" "aligned (x_regs s RSP - 64)"
    using assms by (simp_all add: aligned_sub)
  then show ?thesis
    by (simp add: saved_regs_def set_reg_def Let_def framed_def)
qed

lemma run_epilogue:
  assumes sp: "x_regs t RSP = sp - 64" and "aligned sp"
  shows "run_calls (exec_instr cpu) ([ADD_SP 16] @ map POP (rev saved_regs) @ [RET]) t =
    Some (t\<lparr>x_regs := (x_regs t)(R15 := x_words t (sp - 48), R14 := x_words t (sp - 40),
        R13 := x_words t (sp - 32), R12 := x_words t (sp - 24), RBX := x_words t (sp - 16),
        RBP := x_words t (sp - 8), RSP := sp + 8), x_return := Some (x_words t sp)\<rparr>)"
proof -
  have "aligned (sp - 8)" "aligned (sp - 16)" "aligned (sp - 24)"
    "aligned (sp - 32)" "aligned (sp - 40)" "aligned (sp - 48)"
    using assms(2) by (simp_all add: aligned_sub)
  then show ?thesis
    using assms by (simp add: saved_regs_def set_reg_def read_word_def fun_eq_iff)
qed

section \<open>The whole routine\<close>

text \<open>The registers at VMRUN, and the answer of the guest started with them.\<close>

definition entry_regs :: "'h machine \<Rightarrow> reg \<Rightarrow> u64" where
  "entry_regs s = (\<lambda>r. if r \<in> set guest_gprs_members then x_words s (x_regs s RSI + member_offset r)
     else x_regs s r)(RSP := x_regs s RSP - 64, RAX := x_regs s RDI)"

definition guest_answer :: "'h svm_cpu \<Rightarrow> 'h machine \<Rightarrow> (reg \<Rightarrow> u64) \<times> 'h \<times> kmem \<times> (u64 \<Rightarrow> u64)" where
  "guest_answer cpu s =
     cpu_guest cpu (x_regs s RDI) (entry_regs s) (cpu_vmload cpu (x_regs s RDI) (x_pages s)) (x_pages s)
       (framed s)"

lemma gprs_of_entry: "gprs_of (entry_regs s) = gprs_at (x_words s) (x_regs s RSI)"
  by (simp add: gprs_of_def gprs_at_def entry_regs_def guest_gprs_members_def)

lemma member_aligned:
  "aligned g \<Longrightarrow> r \<in> set guest_gprs_members \<Longrightarrow> aligned (g + member_offset r)"
  by (simp add: aligned_add aligned_member)

lemma run_enter_guest:
  assumes "cpu_svme cpu" and "aligned sp"
    and t: "x_regs t RSP = sp - 64" "x_words t (sp - 56) = pa"
    and ans: "cpu_guest cpu pa ((x_regs t)(RAX := pa)) (cpu_vmload cpu pa (x_pages t)) (x_pages t) (x_words t)
        = (rs, h, k, w)"
  shows "run_calls (exec_instr cpu) enter_guest t =
    Some (t\<lparr>x_regs := rs(RSP := sp - 64, RAX := w (sp - 64)), x_words := w,
            x_pages := cpu_vmsave cpu pa h k, x_hidden := h, x_gif := True\<rparr>)"
proof -
  have "aligned (sp - 56)" "aligned (sp - 64)"
    using assms(2) by (simp_all add: aligned_sub)
  with assms show ?thesis
    by (simp add: enter_guest_def read_word_def set_reg_def vmrun_def fun_upd_twist)
qed

lemma run_switch:
  assumes svme: "cpu_svme cpu" and call: "call_ok s"
    and ans: "guest_answer cpu s = (rs, h, k, w)" and iso: "\<forall>a \<in> stack_frame (x_regs s RSP). w a = framed s a"
  shows "run_calls (exec_instr cpu) svmWorldSwitch s =
    Some (s\<lparr>x_regs := rs(RAX := x_regs s RSI, RBP := x_regs s RBP, RBX := x_regs s RBX, R12 := x_regs s R12,
              R13 := x_regs s R13, R14 := x_regs s R14, R15 := x_regs s R15, RSP := x_regs s RSP + 8),
            x_words := stored (x_regs s RSI) rs guest_gprs_members w,
            x_pages := cpu_vmsave cpu (x_regs s RDI) h k, x_hidden := h, x_gif := True,
            x_return := Some (x_words s (x_regs s RSP))\<rparr>)"
proof -
  define sp where "sp = x_regs s RSP"
  define g where "g = x_regs s RSI"
  define pa where "pa = x_regs s RDI"
  have al: "aligned sp" "aligned g" and apart: "stack_frame sp \<inter> gprs_block g = {}"
    using call by (simp_all add: call_ok_def sp_def g_def)
  have far: "a \<noteq> g + member_offset r" if "a \<in> stack_frame sp" "r \<in> set guest_gprs_members" for a r
    using apart that by (auto simp: gprs_block_def)
  have rax: "RAX \<notin> set guest_gprs_members" and rsp: "RSP \<notin> set guest_gprs_members"
    by (simp_all add: guest_gprs_members_def)
  define s1 where "s1 = s\<lparr>x_regs := (x_regs s)(RSP := sp - 64, RAX := g), x_words := framed s\<rparr>"
  have 1: "run_calls (exec_instr cpu) (map PUSH (saved_regs @ [RDI, RSI]) @ [MOV RAX RSI]) s = Some s1"
    using run_prologue [of s cpu] al(1) by (simp add: s1_def sp_def g_def)
  define s2 where "s2 = s1\<lparr>x_regs := (\<lambda>r. if r \<in> set guest_gprs_members
      then x_words s (g + member_offset r) else x_regs s1 r)\<rparr>"
  have "framed s (g + member_offset r) = x_words s (g + member_offset r)" if "r \<in> set guest_gprs_members" for r
    using far [OF _ that] by (intro framed_other) (auto simp: sp_def)
  then have 2: "run_calls (exec_instr cpu) (map (\<lambda>r. LOAD r RAX (member_offset r)) guest_gprs_members) s1 = Some s2"
    using run_loads [OF rax, of s1 member_offset cpu] member_aligned [OF al(2)]
    by (simp add: s1_def s2_def cong: if_cong)
  have regs2: "(x_regs s2)(RAX := pa) = entry_regs s" "x_words s2 = framed s" "x_pages s2 = x_pages s"
    using rax rsp by (auto simp: s2_def s1_def entry_regs_def fun_eq_iff sp_def g_def pa_def)
  have fr: "x_regs s2 RSP = sp - 64" "x_words s2 (sp - 56) = pa"
    using rsp framed_reads(8) [of s] by (simp_all add: s2_def s1_def sp_def pa_def)
  have wsp: "w (sp - 64) = g"
    using iso framed_reads(9) [of s] by (simp add: stack_frame_def sp_def g_def)
  define s3 where "s3 = s2\<lparr>x_regs := rs(RSP := sp - 64, RAX := g), x_words := w,
      x_pages := cpu_vmsave cpu pa h k, x_hidden := h, x_gif := True\<rparr>"
  have 3: "run_calls (exec_instr cpu) enter_guest s2 = Some s3"
    using run_enter_guest [OF svme al(1) fr] ans regs2 wsp by (simp add: s3_def guest_answer_def pa_def)
  define s4 where "s4 = s3\<lparr>x_words := stored g rs guest_gprs_members w\<rparr>"
  have "stored g (rs(RSP := sp - 64, RAX := g)) guest_gprs_members w = stored g rs guest_gprs_members w"
    by (simp add: stored_def guest_gprs_members_def)
  then have 4: "run_calls (exec_instr cpu) (map (\<lambda>r. STORE RAX (member_offset r) r) guest_gprs_members) s3 = Some s4"
    using run_stores [of guest_gprs_members s3 cpu] member_aligned [OF al(2)] by (simp add: s3_def s4_def)
  have w4: "x_words s4 a = framed s a" if "a \<in> stack_frame sp" for a
    using stored_other [of guest_gprs_members a g rs w] far [OF that] iso that by (simp add: s4_def sp_def)
  have sp4: "x_regs s4 RSP = sp - 64"
    by (simp add: s4_def s3_def)
  have mem4: "x_words s4 sp = x_words s sp" "x_words s4 (sp - 8) = x_regs s RBP"
    "x_words s4 (sp - 16) = x_regs s RBX" "x_words s4 (sp - 24) = x_regs s R12"
    "x_words s4 (sp - 32) = x_regs s R13" "x_words s4 (sp - 40) = x_regs s R14"
    "x_words s4 (sp - 48) = x_regs s R15"
    by (simp_all only: w4 framed_reads [of s, folded sp_def] stack_frame_def insert_iff simp_thms)
  have "run_calls (exec_instr cpu) ([ADD_SP 16] @ map POP (rev saved_regs) @ [RET]) s4 =
    Some (s4\<lparr>x_regs := (x_regs s4)(R15 := x_regs s R15, R14 := x_regs s R14, R13 := x_regs s R13,
        R12 := x_regs s R12, RBX := x_regs s RBX, RBP := x_regs s RBP, RSP := sp + 8),
        x_return := Some (x_words s sp)\<rparr>)"
    using run_epilogue [OF sp4 al(1), of cpu] unfolding mem4 .
  then have 5: "run_calls (exec_instr cpu) ([ADD_SP 16] @ map POP (rev saved_regs) @ [RET]) s4 =
    Some (s\<lparr>x_regs := rs(RAX := g, RBP := x_regs s RBP, RBX := x_regs s RBX, R12 := x_regs s R12,
              R13 := x_regs s R13, R14 := x_regs s R14, R15 := x_regs s R15, RSP := sp + 8),
            x_words := stored g rs guest_gprs_members w, x_pages := cpu_vmsave cpu pa h k, x_hidden := h,
            x_gif := True, x_return := Some (x_words s sp)\<rparr>)"
    by (simp add: s4_def s3_def s2_def s1_def fun_upd_twist)
  let ?run = "run_calls (exec_instr cpu)"
  let ?loads = "map (\<lambda>r. LOAD r RAX (member_offset r)) guest_gprs_members"
  let ?stores = "map (\<lambda>r. STORE RAX (member_offset r) r) guest_gprs_members"
  let ?epilogue = "[ADD_SP 16] @ map POP (rev saved_regs) @ [RET]"
  have code: "svmWorldSwitch = (map PUSH (saved_regs @ [RDI, RSI]) @ [MOV RAX RSI])
      @ ?loads @ enter_guest @ ?stores @ ?epilogue"
    by (simp only: svmWorldSwitch_blocks append_assoc)
  have "?run svmWorldSwitch s = ?run (?loads @ enter_guest @ ?stores @ ?epilogue) s1"
    unfolding code by (rule run_calls_seq [OF 1])
  also have "\<dots> = ?run (enter_guest @ ?stores @ ?epilogue) s2"
    by (rule run_calls_seq [OF 2])
  also have "\<dots> = ?run (?stores @ ?epilogue) s3"
    by (rule run_calls_seq [OF 3])
  also have "\<dots> = ?run ?epilogue s4"
    by (rule run_calls_seq [OF 4])
  finally show ?thesis
    unfolding sp_def [symmetric] g_def [symmetric] pa_def [symmetric] 5 .
qed

section \<open>The contract of the routine\<close>

lemma gprs_of_stored:
  "gprs_at (stored g rs guest_gprs_members w) g = gprs_of rs"
proof -
  have "stored g rs guest_gprs_members w (g + member_offset r) = rs r" if "r \<in> set guest_gprs_members" for r
    by (rule stored_read [OF inj_member that])
  from this [of RBX] this [of RCX] this [of RDX] this [of RBP] this [of RSI] this [of RDI] this [of R8]
    this [of R9] this [of R10] this [of R11] this [of R12] this [of R13] this [of R14] this [of R15]
  show ?thesis
    unfolding gprs_at_def gprs_of_def by (simp add: guest_gprs_members_def)
qed

lemma isolated_answer:
  assumes "guest_isolated cpu (stack_frame (x_regs s RSP))" and "guest_answer cpu s = (rs, h, k, w)"
  shows "\<forall>a \<in> stack_frame (x_regs s RSP). w a = framed s a"
  using assms unfolding guest_isolated_def guest_answer_def by blast

text \<open>
  C6: a call of the world-switch returns, keeping the calling convention. The return address is the
  caller's, the stack pointer is popped past it, the six callee-saved registers and the global
  interrupt flag hold what the caller may expect, the guest was started with exactly the registers
  in the block, the block receives exactly the registers the guest stopped with, and every word
  outside the block and the routine's own frame is as the guest left it.
\<close>

theorem world_switch_contract:
  assumes "cpu_svme cpu" and "call_ok s" and "guest_isolated cpu (stack_frame (x_regs s RSP))"
  shows "\<exists>rs0 w0 rs h k w s'.
      gprs_of rs0 = gprs_at (x_words s) (x_regs s RSI)
    \<and> (\<forall>a. a \<notin> stack_frame (x_regs s RSP) \<longrightarrow> w0 a = x_words s a)
    \<and> cpu_guest cpu (x_regs s RDI) rs0 (cpu_vmload cpu (x_regs s RDI) (x_pages s)) (x_pages s) w0 = (rs, h, k, w)
    \<and> run_calls (exec_instr cpu) svmWorldSwitch s = Some s'
    \<and> x_return s' = Some (x_words s (x_regs s RSP)) \<and> x_regs s' RSP = x_regs s RSP + 8
    \<and> (\<forall>r \<in> {RBP, RBX, R12, R13, R14, R15}. x_regs s' r = x_regs s r) \<and> x_gif s'
    \<and> gprs_at (x_words s') (x_regs s RSI) = gprs_of rs \<and> x_pages s' = cpu_vmsave cpu (x_regs s RDI) h k
    \<and> (\<forall>a. a \<notin> gprs_block (x_regs s RSI) \<longrightarrow> x_words s' a = w a)"
proof -
  obtain rs h k w where ans: "guest_answer cpu s = (rs, h, k, w)"
    by (cases "guest_answer cpu s")
  note run = run_switch [OF assms(1,2) ans isolated_answer [OF assms(3) ans]]
  then obtain s' where r: "run_calls (exec_instr cpu) svmWorldSwitch s = Some s'"
    and regs: "x_regs s' = rs(RAX := x_regs s RSI, RBP := x_regs s RBP, RBX := x_regs s RBX, R12 := x_regs s R12,
              R13 := x_regs s R13, R14 := x_regs s R14, R15 := x_regs s R15, RSP := x_regs s RSP + 8)"
    and words: "x_words s' = stored (x_regs s RSI) rs guest_gprs_members w"
    and rest: "x_return s' = Some (x_words s (x_regs s RSP))" "x_gif s'"
      "x_pages s' = cpu_vmsave cpu (x_regs s RDI) h k"
    by simp
  have "\<forall>a. a \<notin> gprs_block (x_regs s RSI) \<longrightarrow> x_words s' a = w a"
    using stored_other [of guest_gprs_members _ "x_regs s RSI" rs w] by (auto simp: gprs_block_def words)
  moreover have "gprs_at (x_words s') (x_regs s RSI) = gprs_of rs"
    by (simp only: words gprs_of_stored)
  moreover have "x_regs s' RSP = x_regs s RSP + 8" "\<forall>r \<in> {RBP, RBX, R12, R13, R14, R15}. x_regs s' r = x_regs s r"
    by (simp_all add: regs)
  moreover have "\<forall>a. a \<notin> stack_frame (x_regs s RSP) \<longrightarrow> framed s a = x_words s a"
    by (simp add: framed_other)
  ultimately show ?thesis
    using r rest ans [unfolded guest_answer_def] gprs_of_entry [of s] by blast
qed

section \<open>A concrete machine\<close>

text \<open>
  A processor whose guest sets RBX and stops at HLT, with the FS base as the VMLOAD state, and a
  host about to call the routine.
\<close>

definition sample_cpu :: "bool \<Rightarrow> u64 svm_cpu" where
  "sample_cpu svme = \<lparr>cpu_svme = svme, cpu_vmload = (\<lambda>pa m. 0x6000), cpu_vmsave = (\<lambda>pa h m. m),
     cpu_guest = (\<lambda>pa rs h m w. (rs(RBX := 0x42), h, map_option (\<lambda>v. vmcb_st v exit_code VMEXIT_HLT) \<circ> m, w))\<rparr>"

definition sample_host :: "u64 machine" where
  "sample_host = \<lparr>x_regs = (\<lambda>r. if r = RSP then 0x9000 else if r = RSI then 0x4000 else 0x55),
     x_words = (\<lambda>a. 0x11), x_pages = one_page, x_hidden = 0x7000, x_gif = True, x_return = None\<rparr>"

lemma sample_host_ok: "call_ok sample_host"
  by (auto simp: call_ok_def sample_host_def aligned_def stack_frame_def gprs_block_def guest_gprs_members_def)

lemma sample_cpu_isolated: "guest_isolated (sample_cpu b) A"
  by (simp add: guest_isolated_def sample_cpu_def)

lemma sample_cpu_svme: "cpu_svme (sample_cpu b) = b"
  by (simp add: sample_cpu_def)

theorem world_switch_contract_witness:
  "\<exists>s'. run_calls (exec_instr (sample_cpu True)) svmWorldSwitch sample_host = Some s'
    \<and> x_return s' = Some 0x11 \<and> x_regs s' RSP = 0x9008 \<and> x_regs s' R12 = 0x55 \<and> x_gif s'"
proof -
  have "cpu_svme (sample_cpu True)"
    by (simp add: sample_cpu_svme)
  from world_switch_contract [OF this sample_host_ok sample_cpu_isolated] show ?thesis
    by (auto simp: sample_host_def)
qed

section \<open>The routine implements the guest entry of the emulator\<close>

text \<open>
  \<open>f\<close> is what a guest does between VMLOAD and VMSAVE: to the registers of the block and the pages.
\<close>

definition runs_guest :: "'h svm_cpu \<Rightarrow> world_switch \<Rightarrow> bool" where
  "runs_guest cpu f \<longleftrightarrow>
     (\<forall>pa rs k w rs' h' k' w'. cpu_guest cpu pa rs (cpu_vmload cpu pa k) k w = (rs', h', k', w') \<longrightarrow>
        f pa (gprs_of rs) k = (gprs_of rs', cpu_vmsave cpu pa h' k'))"

lemma gprs_of_get: "gprs_of (gprs_get gp) = gp"
  by (simp add: gprs_of_def)

lemma asm_switch_runs:
  assumes "cpu_svme cpu" and "call_ok host" and "guest_isolated cpu (stack_frame (x_regs host RSP))"
    and f: "runs_guest cpu f"
  shows "asm_switch cpu host pa gp m = Some (f pa gp m)"
proof -
  let ?s = "host_call host pa gp m"
  have regs: "x_regs ?s RSI = x_regs host RSI" "x_regs ?s RSP = x_regs host RSP" "x_regs ?s RDI = pa"
      "x_pages ?s = m"
    by (simp_all add: host_call_def)
  have call: "call_ok ?s" and iso: "guest_isolated cpu (stack_frame (x_regs ?s RSP))"
    using assms(2,3) by (simp_all add: call_ok_def regs)
  obtain rs h k w where ans: "guest_answer cpu ?s = (rs, h, k, w)"
    by (cases "guest_answer cpu ?s")
  have gp: "gprs_of (entry_regs ?s) = gp"
    by (simp add: gprs_of_entry regs) (simp add: host_call_def gprs_of_stored gprs_of_get)
  have "f pa (gprs_of (entry_regs ?s)) m = (gprs_of rs, cpu_vmsave cpu pa h k)"
    using f ans unfolding runs_guest_def guest_answer_def regs by blast
  then have "f pa gp m = (gprs_of rs, cpu_vmsave cpu pa h k)"
    by (simp only: gp)
  then show ?thesis
    using run_switch [OF assms(1) call ans isolated_answer [OF iso ans]]
    by (simp add: asm_switch_def regs gprs_of_stored)
qed

text \<open>
  C13: entering the guest through the assembly is the guest entry the emulator is verified against.
  On a processor with SVME set whose guest cannot write the routine's stack frame, no call of
  \<open>svmWorldSwitch\<close> faults, and a launch that goes through it has exactly the result of a launch
  through the guest's own run on the registers of the block and the pages.
\<close>

theorem launch_through_world_switch:
  assumes "cpu_svme cpu" and "call_ok host" and "guest_isolated cpu (stack_frame (x_regs host RSP))"
    and "runs_guest cpu f"
  shows "asm_switch cpu host pa gp m \<noteq> None
    \<and> vmlaunchResume (Some (\<lambda>pa gp m. the (asm_switch cpu host pa gp m))) m emu = vmlaunchResume (Some f) m emu"
  by (simp add: asm_switch_runs [OF assms])

lemma sample_runs: "runs_guest (sample_cpu b) (\<lambda>pa gp m. halting_switch pa (gp\<lparr>g_rbx := 0x42\<rparr>) m)"
  by (auto simp: runs_guest_def sample_cpu_def halting_switch_def gprs_of_def)

theorem launch_through_world_switch_witness:
  "vmlaunchResume (Some (\<lambda>pa gp m. the (asm_switch (sample_cpu True) sample_host pa gp m))) one_page bound_emulator
     = vmlaunchResume (Some (\<lambda>pa gp m. halting_switch pa (gp\<lparr>g_rbx := 0x42\<rparr>) m)) one_page bound_emulator"
proof -
  have "cpu_svme (sample_cpu True)"
    by (simp add: sample_cpu_svme)
  from launch_through_world_switch [OF this sample_host_ok sample_cpu_isolated sample_runs] show ?thesis
    by blast
qed

section \<open>What the routine does not do\<close>

text \<open>
  C27: the host state that VMLOAD replaces is not restored. The routine never saves the host's FS,
  GS, TR, LDTR and SYSCALL state before VMLOAD and never loads it back after VMSAVE, so, even for a
  guest that changes none of its own, it returns to the kernel with the guest's.
\<close>

theorem host_vmload_state_lost:
  assumes "cpu_svme cpu" and "call_ok s" and "guest_isolated cpu (stack_frame (x_regs s RSP))"
    and "\<forall>pa rs h k w. fst (snd (cpu_guest cpu pa rs h k w)) = h"
    and "x_hidden s \<noteq> cpu_vmload cpu (x_regs s RDI) (x_pages s)"
  shows "\<exists>s'. run_calls (exec_instr cpu) svmWorldSwitch s = Some s'
    \<and> x_hidden s' = cpu_vmload cpu (x_regs s RDI) (x_pages s) \<and> x_hidden s' \<noteq> x_hidden s"
proof -
  obtain rs h k w where ans: "guest_answer cpu s = (rs, h, k, w)"
    by (cases "guest_answer cpu s")
  have "h = cpu_vmload cpu (x_regs s RDI) (x_pages s)"
    using assms(4) arg_cong [OF ans, of "\<lambda>x. fst (snd x)"] by (simp add: guest_answer_def)
  with run_switch [OF assms(1,2) ans isolated_answer [OF assms(3) ans]] assms(5) show ?thesis
    by simp
qed

theorem host_vmload_state_lost_witness:
  "\<exists>s'. run_calls (exec_instr (sample_cpu True)) svmWorldSwitch sample_host = Some s'
    \<and> x_hidden sample_host = 0x7000 \<and> x_hidden s' = 0x6000"
proof -
  have "cpu_svme (sample_cpu True)" "\<forall>pa rs h k w. fst (snd (cpu_guest (sample_cpu True) pa rs h k w)) = h"
    "x_hidden sample_host \<noteq> cpu_vmload (sample_cpu True) (x_regs sample_host RDI) (x_pages sample_host)"
    by (simp_all add: sample_cpu_def sample_host_def)
  from host_vmload_state_lost [OF this(1) sample_host_ok sample_cpu_isolated this(2,3)] show ?thesis
    by (auto simp: sample_cpu_def sample_host_def)
qed

lemma run_calls_stuck: "(\<And>t. run_calls f ys t = None) \<Longrightarrow> run_calls f (xs @ ys) s = None"
  by (induction xs arbitrary: s) (auto split: option.splits)

text \<open>
  the routine faults on a CPU whose \<open>EFER.SVME\<close> is clear, with the callee-saved registers still
  on the stack. The emulator does not check: \<open>enable()\<close> sets SVME on one CPU only, and a launch on
  any other, or after \<open>disable()\<close>, ends here.
\<close>

theorem world_switch_needs_svme:
  assumes "\<not> cpu_svme cpu"
  shows "run_calls (exec_instr cpu) svmWorldSwitch s = None \<and> asm_switch cpu host pa gp m = None"
proof -
  have stuck: "run_calls (exec_instr cpu) (CLGI # rest) t = None" for rest t
    using assms by simp
  have "CLGI \<in> set svmWorldSwitch"
    by (simp add: svmWorldSwitch_def)
  then obtain pre post where code: "svmWorldSwitch = pre @ CLGI # post"
    using split_list by metis
  have "run_calls (exec_instr cpu) svmWorldSwitch s = None" for s
    unfolding code by (rule run_calls_stuck [OF stuck])
  then show ?thesis
    by (simp add: asm_switch_def)
qed

theorem world_switch_needs_svme_witness:
  "run_calls (exec_instr (sample_cpu False)) svmWorldSwitch sample_host = None"
  using world_switch_needs_svme [of "sample_cpu False" sample_host] by (simp add: sample_cpu_svme)

end
