(* ===== verification/SvmBackend.thy ===== *)
theory SvmBackend
  imports SvmHw "HOL-Library.Monad_Syntax"
begin

text \<open>
  The class \<open>SvmBackend\<close> of \<^verbatim>\<open>src/kern_svm.hpp\<close> and \<^verbatim>\<open>src/kern_svm.cpp\<close>: detection,
  enabling and disabling of SVM on one CPU, and the two pages it owns. Parameters: the CPU
  (\<open>CPUID\<close>, \<open>rdmsr64\<close>, \<open>wrmsr64\<close>) and the answers of
  \<open>IOBufferMemoryDescriptor\<close> to the allocation requests. Live descriptors are kept explicitly, so
  that using or releasing one that is gone is a fault.
\<close>

section \<open>The machine and the memory allocator\<close>

record 'c cpu_if =
  hw_cpuid :: "u32 \<Rightarrow> u32 \<Rightarrow> u32 \<times> u32 \<times> u32 \<times> u32"
  hw_rdmsr :: "'c \<Rightarrow> u32 \<Rightarrow> u64"
  hw_wrmsr :: "'c \<Rightarrow> u32 \<Rightarrow> u64 \<Rightarrow> 'c"

text \<open>
  A buffer as \<open>IOBufferMemoryDescriptor\<close> hands it out: its address (0 when
  \<open>getBytesNoCopy\<close> returns null), first physical segment, and whether it is wired.
\<close>

record io_buf =
  buf_va :: u64
  buf_pa :: u64
  buf_seg :: u64
  buf_wired :: bool

text \<open>
  The answer to one request: whether a descriptor is returned, whether \<open>prepare\<close> succeeds on it,
  the buffer, and what its page holds before anyone writes to it. An answer may depend on the
  number of the request and on what is mapped already.
\<close>

record io_answer =
  ans_ok :: bool
  ans_prepares :: bool
  ans_buf :: io_buf
  ans_bytes :: page

type_synonym io_lib = "nat \<Rightarrow> kmem \<Rightarrow> io_answer"

record 'c world =
  w_cpu :: 'c
  w_requests :: nat
  w_bufs :: "nat \<rightharpoonup> io_buf \<times> bool"
  w_mem :: kmem

definition rdmsr64 :: "'c cpu_if \<Rightarrow> 'c world \<Rightarrow> u32 \<Rightarrow> u64" where
  "rdmsr64 hw w r = hw_rdmsr hw (w_cpu w) r"

definition wrmsr64 :: "'c cpu_if \<Rightarrow> 'c world \<Rightarrow> u32 \<Rightarrow> u64 \<Rightarrow> 'c world" where
  "wrmsr64 hw w r v = w\<lparr>w_cpu := hw_wrmsr hw (w_cpu w) r v\<rparr>"

definition amdv_cpuid :: "'c cpu_if \<Rightarrow> u32 \<Rightarrow> u32 \<Rightarrow> u32 \<times> u32 \<times> u32 \<times> u32" where
  "amdv_cpuid hw leaf subleaf = hw_cpuid hw leaf subleaf"

text \<open>The operations of the descriptor class the code calls; a dead descriptor is a fault.\<close>

definition io_alloc :: "io_lib \<Rightarrow> 'c world \<Rightarrow> nat option \<times> 'c world" where
  "io_alloc io w =
     (let n = w_requests w; a = io n (w_mem w); w = w\<lparr>w_requests := Suc n\<rparr>
      in if ans_ok a then
           (Some n,
            w\<lparr>w_bufs := (w_bufs w)(n \<mapsto> ((ans_buf a)\<lparr>buf_wired := False\<rparr>, ans_prepares a)),
              w_mem := (if buf_va (ans_buf a) = 0 then w_mem w
                        else (w_mem w)(buf_va (ans_buf a) \<mapsto> ans_bytes a))\<rparr>)
         else (None, w))"

definition io_prepare :: "'c world \<Rightarrow> nat \<Rightarrow> (bool \<times> 'c world) kresult" where
  "io_prepare w d =
     (case w_bufs w d of
        None \<Rightarrow> None
      | Some (b, ok) \<Rightarrow> Some (ok, if ok then w\<lparr>w_bufs := (w_bufs w)(d \<mapsto> (b\<lparr>buf_wired := True\<rparr>, ok))\<rparr> else w))"

definition io_complete :: "'c world \<Rightarrow> nat \<Rightarrow> 'c world kresult" where
  "io_complete w d =
     (case w_bufs w d of
        None \<Rightarrow> None
      | Some (b, ok) \<Rightarrow> Some (w\<lparr>w_bufs := (w_bufs w)(d \<mapsto> (b\<lparr>buf_wired := False\<rparr>, ok))\<rparr>))"

definition io_release :: "'c world \<Rightarrow> nat \<Rightarrow> 'c world kresult" where
  "io_release w d =
     (case w_bufs w d of
        None \<Rightarrow> None
      | Some (b, ok) \<Rightarrow> Some
          (w\<lparr>w_bufs := (w_bufs w)(d := None),
             w_mem := (if buf_va b = 0 then w_mem w else (w_mem w)(buf_va b := None))\<rparr>))"

definition io_buffer :: "'c world \<Rightarrow> nat \<Rightarrow> io_buf kresult" where
  "io_buffer w d = map_option fst (w_bufs w d)"

definition memset_zero :: "'c world \<Rightarrow> u64 \<Rightarrow> nat \<Rightarrow> 'c world kresult" where
  "memset_zero w va n =
     (case w_mem w va of
        None \<Rightarrow> None
      | Some p \<Rightarrow> Some (w\<lparr>w_mem := (w_mem w)(va \<mapsto> (\<lambda>a. if a < n then 0 else p a))\<rparr>))"

section \<open>The backend\<close>

record svm_backend =
  fHsaveDesc :: "nat option"
  fVmcbDesc :: "nat option"
  fHsavePA :: u64
  be_fVmcb :: u64
  be_fVmcbPA :: u64
  fEnabled :: bool
  fSvmRevision :: u32
  fNumAsids :: u32
  be_fSvmFeatures :: u32

definition new_backend :: svm_backend where
  "new_backend = \<lparr>fHsaveDesc = None, fVmcbDesc = None, fHsavePA = 0, be_fVmcb = 0, be_fVmcbPA = 0,
     fEnabled = False, fSvmRevision = 0, fNumAsids = 0, be_fSvmFeatures = 0\<rparr>"

definition detect :: "'c cpu_if \<Rightarrow> 'c world \<Rightarrow> svm_backend \<Rightarrow> bool \<times> svm_backend" where
  "detect hw w be =
     (let (a, b, c, d) = amdv_cpuid hw CPUID_VENDOR 0 in
      if b \<noteq> 0x68747541 \<or> d \<noteq> 0x69746e65 \<or> c \<noteq> 0x444d4163 then (False, be)
      else let (a, b, c, d) = amdv_cpuid hw CPUID_EXT_MAX 0 in
      if a < CPUID_SVM_FEATURES then (False, be)
      else let (a, b, c, d) = amdv_cpuid hw CPUID_EXT_FEATURES 0 in
      if c AND CPUID_ECX_SVM = 0 then (False, be)
      else let (a, b, c, d) = amdv_cpuid hw CPUID_SVM_FEATURES 0;
               be = be\<lparr>fSvmRevision := a AND 0xFF, fNumAsids := b, be_fSvmFeatures := d\<rparr>;
               vmcr = rdmsr64 hw w MSR_VM_CR in
      if vmcr AND VM_CR_SVMDIS \<noteq> 0 then (False, be)
      else (True, be))"

text \<open>
  The answer on success: the descriptor and physical address the out-parameters receive, and the
  address returned.
\<close>

definition allocContiguousPage ::
  "io_lib \<Rightarrow> 'c world \<Rightarrow> ((nat \<times> u64 \<times> u64) option \<times> 'c world) kresult" where
  "allocContiguousPage io w =
     (case io_alloc io w of
        (None, w) \<Rightarrow> Some (None, w)
      | (Some desc, w) \<Rightarrow> do {
          (ok, w) \<leftarrow> io_prepare w desc;
          if \<not> ok then do {
            w \<leftarrow> io_release w desc;
            Some (None, w)
          } else do {
            b \<leftarrow> io_buffer w desc;
            if buf_pa b = 0 \<or> buf_va b = 0 \<or> buf_seg b < of_nat VMCB_SIZE then do {
              w \<leftarrow> io_complete w desc;
              w \<leftarrow> io_release w desc;
              Some (None, w)
            } else do {
              w \<leftarrow> memset_zero w (buf_va b) VMCB_SIZE;
              Some (Some (desc, buf_pa b, buf_va b), w)
            }
          }
        })"

definition release_desc :: "'c world \<Rightarrow> nat option \<Rightarrow> 'c world kresult" where
  "release_desc w desc =
     (case desc of
        None \<Rightarrow> Some w
      | Some d \<Rightarrow> do { w \<leftarrow> io_complete w d; io_release w d })"

definition disable :: "'c cpu_if \<Rightarrow> 'c world \<Rightarrow> svm_backend \<Rightarrow> ('c world \<times> svm_backend) kresult" where
  "disable hw w be =
     (let (w, be) = (if fEnabled be then
            let efer = rdmsr64 hw w MSR_EFER;
                w = wrmsr64 hw w MSR_EFER (efer AND NOT EFER_SVME);
                w = wrmsr64 hw w MSR_VM_HSAVE_PA 0
            in (w, be\<lparr>fEnabled := False\<rparr>)
          else (w, be))
      in do {
        w \<leftarrow> release_desc w (fVmcbDesc be);
        w \<leftarrow> release_desc w (fHsaveDesc be);
        Some (w, be\<lparr>fVmcbDesc := None, fHsaveDesc := None, be_fVmcb := 0, be_fVmcbPA := 0, fHsavePA := 0\<rparr>)
      })"

text \<open>The three control fields \<open>enable\<close> writes into the zeroed VMCB.\<close>

definition init_vmcb :: "page \<Rightarrow> page" where
  "init_vmcb v =
     (let v = vmcb_st v intercept_1 (INTERCEPT_CPUID OR INTERCEPT_HLT);
          v = vmcb_st v intercept_2 (INTERCEPT2_VMRUN OR INTERCEPT2_VMMCALL)
      in vmcb_st v guest_asid (1 :: u32))"

definition enable ::
  "'c cpu_if \<Rightarrow> io_lib \<Rightarrow> 'c world \<Rightarrow> svm_backend \<Rightarrow> (bool \<times> 'c world \<times> svm_backend) kresult" where
  "enable hw io w be = do {
     (r, w) \<leftarrow> allocContiguousPage io w;
     case r of
       None \<Rightarrow> Some (False, w, be)
     | Some (desc, hsavePhys, _) \<Rightarrow>
         (let be = be\<lparr>fHsaveDesc := Some desc, fHsavePA := hsavePhys\<rparr>;
              efer = rdmsr64 hw w MSR_EFER;
              w = wrmsr64 hw w MSR_EFER (efer OR EFER_SVME)
          in if rdmsr64 hw w MSR_EFER AND EFER_SVME = 0 then Some (False, w, be)
          else let w = wrmsr64 hw w MSR_VM_HSAVE_PA (fHsavePA be) in do {
            (r, w) \<leftarrow> allocContiguousPage io w;
            case r of
              None \<Rightarrow> do {
                (w, be) \<leftarrow> disable hw w (be\<lparr>be_fVmcb := 0\<rparr>);
                Some (False, w, be)
              }
            | Some (desc, pa, va) \<Rightarrow> do {
                v \<leftarrow> w_mem w va;
                Some (True, w\<lparr>w_mem := (w_mem w)(va \<mapsto> init_vmcb v)\<rparr>,
                  be\<lparr>fVmcbDesc := Some desc, be_fVmcbPA := pa, be_fVmcb := va, fEnabled := True\<rparr>)
              }
          })
   }"

end
