(* ===== verification/SvmBackendProps.thy ===== *)
theory SvmBackendProps
  imports SvmBackend
begin

text \<open>
  Detection, allocation and the life cycle of the SVM backend. The allocator is only assumed to hand
  out pages that are not mapped yet, and the MSRs to read back what was written to them.
\<close>

section \<open>Assumptions on the environment\<close>

definition fresh_io :: "io_lib \<Rightarrow> bool" where
  "fresh_io io \<longleftrightarrow> (\<forall>n m. ans_ok (io n m) \<longrightarrow> m (buf_va (ans_buf (io n m))) = None)"

text \<open>
  MSRs are separate cells; \<open>VM_HSAVE_PA\<close> reads back what was written, and \<open>EFER.SVME\<close> never
  reads as set after a write that cleared it.
\<close>

definition msr_laws :: "'c cpu_if \<Rightarrow> bool" where
  "msr_laws hw \<longleftrightarrow>
     (\<forall>c r r' v. r \<noteq> r' \<longrightarrow> hw_rdmsr hw (hw_wrmsr hw c r v) r' = hw_rdmsr hw c r')
     \<and> (\<forall>c v. hw_rdmsr hw (hw_wrmsr hw c MSR_VM_HSAVE_PA v) MSR_VM_HSAVE_PA = v)
     \<and> (\<forall>c v. bit (hw_rdmsr hw (hw_wrmsr hw c MSR_EFER v) MSR_EFER) 12 \<longrightarrow> bit v 12)"

section \<open>Invariants\<close>

text \<open>Live descriptors have been requested, and own pages that are mapped and not shared.\<close>

definition world_ok :: "'c world \<Rightarrow> bool" where
  "world_ok w \<longleftrightarrow>
     (\<forall>d b k. w_bufs w d = Some (b, k) \<longrightarrow>
        d < w_requests w \<and> (buf_va b \<noteq> 0 \<longrightarrow> w_mem w (buf_va b) \<noteq> None))
     \<and> (\<forall>d d' b b' k k'. w_bufs w d = Some (b, k) \<longrightarrow> w_bufs w d' = Some (b', k') \<longrightarrow>
        buf_va b = buf_va b' \<longrightarrow> buf_va b \<noteq> 0 \<longrightarrow> d = d')"

text \<open>\<open>d\<close> is a live, wired descriptor of a whole page at \<open>va\<close>, physical \<open>pa\<close>.\<close>

definition live_page :: "'c world \<Rightarrow> nat \<Rightarrow> u64 \<Rightarrow> u64 \<Rightarrow> bool" where
  "live_page w d pa va \<longleftrightarrow>
     (\<exists>b k. w_bufs w d = Some (b, k) \<and> buf_wired b \<and> buf_pa b = pa \<and> buf_va b = va
        \<and> of_nat VMCB_SIZE \<le> buf_seg b) \<and> pa \<noteq> 0 \<and> va \<noteq> 0"

lemma world_ok_mapped:
  "world_ok w \<Longrightarrow> live_page w d pa va \<Longrightarrow> w_mem w va \<noteq> None"
  by (auto simp: world_ok_def live_page_def)

section \<open>Allocation\<close>

lemmas io_defs = io_alloc_def io_prepare_def io_complete_def io_release_def io_buffer_def memset_zero_def

definition alloc_post ::
  "'c world \<Rightarrow> (nat \<times> u64 \<times> u64) option \<Rightarrow> 'c world \<Rightarrow> bool" where
  "alloc_post w r w' \<longleftrightarrow>
     w_cpu w' = w_cpu w \<and> w_requests w' = Suc (w_requests w) \<and>
     (case r of
        None \<Rightarrow> w_bufs w' = w_bufs w \<and> w_mem w' = w_mem w
      | Some (d, pa, va) \<Rightarrow>
          d = w_requests w \<and> live_page w' d pa va \<and> w_mem w va = None
          \<and> (\<exists>x. w_bufs w' = (w_bufs w)(d \<mapsto> x))
          \<and> (\<exists>p. w_mem w' = (w_mem w)(va \<mapsto> p) \<and> (\<forall>a < VMCB_SIZE. p a = 0)))"

lemma bind_some_case:
  "(case x of None \<Rightarrow> None | Some y \<Rightarrow> f y) = x \<bind> f"
  by (cases x) auto

lemma allocContiguousPage_post:
  assumes io: "fresh_io io" and w: "world_ok w"
  shows "\<exists>r w'. allocContiguousPage io w = Some (r, w') \<and> alloc_post w r w'"
proof -
  let ?n = "w_requests w"
  let ?a = "io ?n (w_mem w)"
  let ?b = "ans_buf ?a"
  have new: "w_bufs w ?n = None"
    using w by (metis less_irrefl world_ok_def not_Some_eq surj_pair)
  show ?thesis
  proof (cases "ans_ok ?a")
    case False
    then show ?thesis
      by (simp add: allocContiguousPage_def io_alloc_def Let_def alloc_post_def)
  next
    case ok: True
    have free: "w_mem w (buf_va ?b) = None"
      using io ok by (simp add: fresh_io_def)
    have undo: "(w_bufs w)(?n := None) = w_bufs w" "(w_mem w)(buf_va ?b := None) = w_mem w"
      using new free by auto
    show ?thesis
    proof (cases "ans_prepares ?a \<and> \<not> (buf_pa ?b = 0 \<or> buf_va ?b = 0 \<or> buf_seg ?b < of_nat VMCB_SIZE)")
      case True
      then show ?thesis
        using ok free
        by (auto simp: allocContiguousPage_def io_defs Let_def alloc_post_def live_page_def)
    next
      case False
      then show ?thesis
        using ok undo
        by (auto simp: allocContiguousPage_def io_defs Let_def alloc_post_def)
    qed
  qed
qed

lemma world_okD:
  assumes "world_ok w" and "w_bufs w d = Some (b, k)"
  shows "d < w_requests w" and "buf_va b \<noteq> 0 \<Longrightarrow> w_mem w (buf_va b) \<noteq> None"
    and "w_bufs w d' = Some (b', k') \<Longrightarrow> buf_va b = buf_va b' \<Longrightarrow> buf_va b \<noteq> 0 \<Longrightarrow> d = d'"
  using assms unfolding world_ok_def by blast+

lemma world_ok_alloc:
  assumes w: "world_ok w" and post: "alloc_post w r w'"
  shows "world_ok w'"
proof (cases r)
  case None
  with post have "w_bufs w' = w_bufs w" "w_mem w' = w_mem w" "w_requests w' = Suc (w_requests w)"
    by (simp_all add: alloc_post_def)
  with world_okD [OF w] show ?thesis
    unfolding world_ok_def by (metis less_SucI)
next
  case (Some r')
  obtain d pa va where r': "r' = (d, pa, va)" by (cases r')
  obtain b k p where p: "w_bufs w' = (w_bufs w)(d \<mapsto> (b, k))" "w_mem w' = (w_mem w)(va \<mapsto> p)"
      "buf_va b = va" "w_mem w va = None" "w_requests w' = Suc d" "d = w_requests w" "va \<noteq> 0"
    using post unfolding Some r' alloc_post_def live_page_def by auto
  have old: "d' < d" "buf_va b' \<noteq> va" "buf_va b' \<noteq> 0 \<longrightarrow> w_mem w (buf_va b') \<noteq> None"
    if "w_bufs w d' = Some (b', k')" for d' b' k'
    using world_okD [OF w that] p(4,6,7) by auto
  show ?thesis
    unfolding world_ok_def p(1,2,5)
  proof (intro conjI allI impI)
    fix d1 b1 k1 assume e1: "((w_bufs w)(d \<mapsto> (b, k))) d1 = Some (b1, k1)"
    show "d1 < Suc d"
      using e1 old(1) by (cases "d1 = d") (auto simp: less_SucI)
    show "((w_mem w)(va \<mapsto> p)) (buf_va b1) \<noteq> None" if "buf_va b1 \<noteq> 0"
      using e1 old(3) that p(3) by (cases "d1 = d") auto
    fix d2 b2 k2 assume e2: "((w_bufs w)(d \<mapsto> (b, k))) d2 = Some (b2, k2)"
      and eq: "buf_va b1 = buf_va b2" "buf_va b1 \<noteq> 0"
    show "d1 = d2"
    proof (cases "d1 = d \<or> d2 = d")
      case True
      with e1 e2 eq(1) p(3) old(2) show ?thesis
        by (cases "d1 = d"; cases "d2 = d") auto
    next
      case False
      with e1 e2 eq show ?thesis
        using world_okD(3) [OF w] by simp
    qed
  qed
qed

section \<open>Release\<close>

definition descs :: "svm_backend \<Rightarrow> nat set" where
  "descs be = set_option (fVmcbDesc be) \<union> set_option (fHsaveDesc be)"

definition descs_ok :: "'c world \<Rightarrow> svm_backend \<Rightarrow> bool" where
  "descs_ok w be \<longleftrightarrow>
     (\<forall>d \<in> descs be. w_bufs w d \<noteq> None)
     \<and> (\<forall>d. fVmcbDesc be = Some d \<longrightarrow> fHsaveDesc be \<noteq> Some d)"

text \<open>The pages behind a set of descriptors.\<close>

definition pages_of :: "'c world \<Rightarrow> nat set \<Rightarrow> u64 set" where
  "pages_of w ds = {buf_va b | d b k. d \<in> ds \<and> w_bufs w d = Some (b, k) \<and> buf_va b \<noteq> 0}"

lemma pages_of_cpu [simp]: "pages_of (w\<lparr>w_cpu := c\<rparr>) ds = pages_of w ds"
  by (simp add: pages_of_def)

definition disabled_backend :: "svm_backend \<Rightarrow> svm_backend" where
  "disabled_backend be = be\<lparr>fVmcbDesc := None, fHsaveDesc := None, be_fVmcb := 0, be_fVmcbPA := 0,
     fHsavePA := 0, fEnabled := False\<rparr>"

definition disabled_cpu :: "'c cpu_if \<Rightarrow> svm_backend \<Rightarrow> 'c \<Rightarrow> 'c" where
  "disabled_cpu hw be c =
     (if fEnabled be then
        hw_wrmsr hw (hw_wrmsr hw c MSR_EFER (hw_rdmsr hw c MSR_EFER AND NOT EFER_SVME)) MSR_VM_HSAVE_PA 0
      else c)"

lemma release_desc_post:
  assumes "\<forall>d. desc = Some d \<longrightarrow> w_bufs w d \<noteq> None"
  shows "release_desc w desc =
    Some (w\<lparr>w_bufs := w_bufs w |` (- set_option desc), w_mem := w_mem w |` (- pages_of w (set_option desc))\<rparr>)"
proof (cases desc)
  case None
  then show ?thesis
    by (simp add: release_desc_def pages_of_def restrict_map_def)
next
  case (Some d)
  with assms obtain b k where "w_bufs w d = Some (b, k)"
    by fastforce
  moreover from this have "pages_of w {d} = (if buf_va b = 0 then {} else {buf_va b})"
    by (auto simp: pages_of_def)
  ultimately show ?thesis
    using Some by (auto simp: release_desc_def io_complete_def io_release_def restrict_map_def fun_eq_iff)
qed

lemma disable_post:
  assumes "descs_ok w be"
  shows "disable hw w be =
    Some (w\<lparr>w_cpu := disabled_cpu hw be (w_cpu w), w_bufs := w_bufs w |` (- descs be),
            w_mem := w_mem w |` (- pages_of w (descs be))\<rparr>, disabled_backend be)"
proof -
  have v: "\<forall>d. fVmcbDesc be = Some d \<longrightarrow> w_bufs w d \<noteq> None"
    and h: "\<forall>d. fHsaveDesc be = Some d \<longrightarrow> w_bufs w d \<noteq> None \<and> fVmcbDesc be \<noteq> Some d"
    using assms by (auto simp: descs_ok_def descs_def)
  let ?b1 = "w_bufs w |` (- set_option (fVmcbDesc be))"
  have h1: "\<forall>d. fHsaveDesc be = Some d \<longrightarrow> ?b1 d \<noteq> None"
    using h by (auto simp: restrict_map_def)
  have bufs: "?b1 |` (- set_option (fHsaveDesc be)) = w_bufs w |` (- descs be)"
    by (auto simp: descs_def restrict_map_def)
  have pg: "- pages_of w (descs be) =
      (- pages_of w (set_option (fVmcbDesc be))) \<inter> (- pages_of w (set_option (fHsaveDesc be)))"
    by (auto simp: pages_of_def descs_def)
  have pages: "pages_of w' (set_option (fHsaveDesc be)) = pages_of w (set_option (fHsaveDesc be))"
    if "w_bufs w' = ?b1" for w' :: "'a world"
    using h that by (auto simp: pages_of_def restrict_map_def split: if_splits)
  show ?thesis
    using v h1 bufs pages pg
    by (simp add: disable_def Let_def rdmsr64_def wrmsr64_def release_desc_post disabled_cpu_def
        disabled_backend_def)
qed

lemma world_ok_disabled:
  assumes w: "world_ok w"
  shows "world_ok (w\<lparr>w_cpu := c, w_bufs := w_bufs w |` (- ds), w_mem := w_mem w |` (- pages_of w ds)\<rparr>)"
proof -
  have "buf_va b \<notin> pages_of w ds" if "w_bufs w d = Some (b, k)" "d \<notin> ds" for d b k
    using world_okD(3) [OF w that(1)] that(2) by (auto simp: pages_of_def)
  then show ?thesis
    using w unfolding world_ok_def by (auto simp: restrict_map_def split: if_splits)
qed

section \<open>The backend's invariant\<close>

definition backend_ok :: "'c world \<Rightarrow> svm_backend \<Rightarrow> bool" where
  "backend_ok w be \<longleftrightarrow>
     (\<forall>d. fHsaveDesc be = Some d \<longrightarrow> (\<exists>va. live_page w d (fHsavePA be) va) \<and> fVmcbDesc be \<noteq> Some d)
     \<and> (\<forall>d. fVmcbDesc be = Some d \<longrightarrow> live_page w d (be_fVmcbPA be) (be_fVmcb be))
     \<and> (fVmcbDesc be = None \<longrightarrow> be_fVmcb be = 0)
     \<and> (fEnabled be \<longrightarrow> fHsaveDesc be \<noteq> None \<and> fVmcbDesc be \<noteq> None)"

lemma backend_ok_descs: "backend_ok w be \<Longrightarrow> descs_ok w be"
  by (auto simp: backend_ok_def descs_ok_def descs_def live_page_def)

lemma backend_ok_disabled: "backend_ok w (disabled_backend be)"
  by (simp add: backend_ok_def disabled_backend_def)

lemma backend_ok_new: "backend_ok w new_backend"
  by (simp add: backend_ok_def new_backend_def)

section \<open>What enabling can do\<close>

definition svme_on :: "'c cpu_if \<Rightarrow> 'c world \<Rightarrow> 'c world" where
  "svme_on hw w = wrmsr64 hw w MSR_EFER (rdmsr64 hw w MSR_EFER OR EFER_SVME)"

definition svme_set :: "'c cpu_if \<Rightarrow> 'c world \<Rightarrow> bool" where
  "svme_set hw w \<longleftrightarrow> rdmsr64 hw w MSR_EFER AND EFER_SVME \<noteq> 0"

lemma world_of_cpu [simp]:
  "w_bufs (svme_on hw w) = w_bufs w" "w_mem (svme_on hw w) = w_mem w"
  "w_requests (svme_on hw w) = w_requests w"
  "w_bufs (wrmsr64 hw w r v) = w_bufs w" "w_mem (wrmsr64 hw w r v) = w_mem w"
  "w_requests (wrmsr64 hw w r v) = w_requests w"
  by (simp_all add: svme_on_def wrmsr64_def)

lemma world_ok_cpu [simp]:
  "world_ok (svme_on hw w) = world_ok w" "world_ok (wrmsr64 hw w r v) = world_ok w"
  by (simp_all add: world_ok_def)

lemma enable_cases [consumes 2, case_names no_save_area no_svme no_vmcb enabled]:
  assumes "fresh_io io" and "world_ok w"
  obtains
    w1 where "alloc_post w None w1" "enable hw io w be = Some (False, w1, be)"
  | w1 d pa va where "alloc_post w (Some (d, pa, va)) w1" "\<not> svme_set hw (svme_on hw w1)"
      "enable hw io w be = Some (False, svme_on hw w1, be\<lparr>fHsaveDesc := Some d, fHsavePA := pa\<rparr>)"
  | w1 d pa va w2 where "alloc_post w (Some (d, pa, va)) w1" "svme_set hw (svme_on hw w1)"
      "alloc_post (wrmsr64 hw (svme_on hw w1) MSR_VM_HSAVE_PA pa) None w2"
      "enable hw io w be =
         (case disable hw w2 (be\<lparr>fHsaveDesc := Some d, fHsavePA := pa, be_fVmcb := 0\<rparr>) of
            None \<Rightarrow> None | Some (w3, be3) \<Rightarrow> Some (False, w3, be3))"
  | w1 d pa va w2 d' pa' va' v where "alloc_post w (Some (d, pa, va)) w1" "svme_set hw (svme_on hw w1)"
      "alloc_post (wrmsr64 hw (svme_on hw w1) MSR_VM_HSAVE_PA pa) (Some (d', pa', va')) w2"
      "w_mem w2 va' = Some v" "\<forall>a < VMCB_SIZE. v a = 0"
      "enable hw io w be =
         Some (True, w2\<lparr>w_mem := (w_mem w2)(va' \<mapsto> init_vmcb v)\<rparr>,
           be\<lparr>fHsaveDesc := Some d, fHsavePA := pa, fVmcbDesc := Some d', be_fVmcbPA := pa',
              be_fVmcb := va', fEnabled := True\<rparr>)"
proof -
  obtain r1 w1 where a1: "allocContiguousPage io w = Some (r1, w1)" and p1: "alloc_post w r1 w1"
    using allocContiguousPage_post [OF assms] by blast
  show thesis
  proof (cases r1)
    case None
    then show thesis
      using that(1) [of w1] a1 p1 by (simp add: enable_def)
  next
    case (Some x)
    obtain d pa va where r1: "r1 = Some (d, pa, va)" using Some by (cases x) auto
    let ?w2 = "svme_on hw w1"
    let ?w3 = "wrmsr64 hw ?w2 MSR_VM_HSAVE_PA pa"
    show thesis
    proof (cases "svme_set hw ?w2")
      case False
      with that(2) [of d pa va w1] a1 p1 r1 show thesis
        by (simp add: enable_def Let_def svme_set_def svme_on_def)
    next
      case True
      have "world_ok ?w3"
        using world_ok_alloc [OF assms(2) p1] by simp
      then obtain r2 w4 where a2: "allocContiguousPage io ?w3 = Some (r2, w4)" and p2: "alloc_post ?w3 r2 w4"
        using allocContiguousPage_post [OF assms(1)] by blast
      have en: "enable hw io w be = (case r2 of
            None \<Rightarrow> (case disable hw w4 (be\<lparr>fHsaveDesc := Some d, fHsavePA := pa, be_fVmcb := 0\<rparr>) of
                None \<Rightarrow> None | Some (w5, be5) \<Rightarrow> Some (False, w5, be5))
          | Some (d', pa', va') \<Rightarrow> do {
              v \<leftarrow> w_mem w4 va';
              Some (True, w4\<lparr>w_mem := (w_mem w4)(va' \<mapsto> init_vmcb v)\<rparr>,
                be\<lparr>fHsaveDesc := Some d, fHsavePA := pa, fVmcbDesc := Some d', be_fVmcbPA := pa',
                   be_fVmcb := va', fEnabled := True\<rparr>) })"
        using True a1 a2 r1
        by (simp add: enable_def Let_def svme_set_def svme_on_def bind_some_case split: option.splits)
      show thesis
      proof (cases r2)
        case None
        with that(3) [of d pa va w1 w4] True p1 p2 r1 en show thesis by simp
      next
        case (Some y)
        obtain d' pa' va' where r2: "r2 = Some (d', pa', va')" using Some by (cases y) auto
        obtain v where "w_mem w4 va' = Some v" "\<forall>a < VMCB_SIZE. v a = 0"
          using p2 r2 by (auto simp: alloc_post_def)
        with that(4) [of d pa va w1 d' pa' va' w4 v] True p1 p2 r1 r2 en show thesis by simp
      qed
    qed
  qed
qed

lemma live_page_alloc:
  assumes "world_ok w" and "alloc_post w r w'" and "live_page w d pa va"
  shows "live_page w' d pa va" and "r = Some (d', pa', va') \<Longrightarrow> d \<noteq> d'" and "r = Some (d', pa', va') \<Longrightarrow> va \<noteq> va'"
proof -
  obtain b k where b: "w_bufs w d = Some (b, k)" "buf_va b = va" "va \<noteq> 0"
    using assms(3) by (auto simp: live_page_def)
  have d: "d < w_requests w" "w_mem w va \<noteq> None"
    using world_okD(1,2) [OF assms(1) b(1)] b by auto
  show "d \<noteq> d'" if "r = Some (d', pa', va')"
    using assms(2) d that by (auto simp: alloc_post_def)
  show "va \<noteq> va'" if "r = Some (d', pa', va')"
    using assms(2) d that by (auto simp: alloc_post_def)
  have "w_bufs w' d = w_bufs w d"
    using assms(2) d(1) by (cases r) (auto simp: alloc_post_def)
  with assms(3) show "live_page w' d pa va"
    by (simp add: live_page_def)
qed

lemma live_page_new: "alloc_post w (Some (d, pa, va)) w' \<Longrightarrow> live_page w' d pa va"
  unfolding alloc_post_def option.case prod.case by blast

lemma live_page_cpu [simp]:
  "live_page (svme_on hw w) = live_page w" "live_page (wrmsr64 hw w r v) = live_page w"
  "live_page (w\<lparr>w_mem := m\<rparr>) = live_page w"
  by (auto simp: live_page_def fun_eq_iff)

lemma world_ok_write: "world_ok w \<Longrightarrow> world_ok (w\<lparr>w_mem := (w_mem w)(va \<mapsto> v)\<rparr>)"
  by (auto simp: world_ok_def)

section \<open>The life cycle is safe\<close>

datatype backend_call = Detect | Enable | Disable

fun backend_run ::
  "'c cpu_if \<Rightarrow> io_lib \<Rightarrow> backend_call \<Rightarrow> 'c world \<times> svm_backend \<Rightarrow> ('c world \<times> svm_backend) option" where
  "backend_run hw io Detect (w, be) = Some (w, snd (detect hw w be))"
| "backend_run hw io Enable (w, be) = map_option snd (enable hw io w be)"
| "backend_run hw io Disable (w, be) = disable hw w be"

definition backend_inv :: "io_lib \<Rightarrow> 'c world \<times> svm_backend \<Rightarrow> bool" where
  "backend_inv io s \<longleftrightarrow> fresh_io io \<and> world_ok (fst s) \<and> backend_ok (fst s) (snd s)"

lemma detect_frame:
  "snd (detect hw w be) = be\<lparr>fSvmRevision := fSvmRevision (snd (detect hw w be)),
     fNumAsids := fNumAsids (snd (detect hw w be)), be_fSvmFeatures := be_fSvmFeatures (snd (detect hw w be))\<rparr>"
  by (simp add: detect_def Let_def split: prod.split)

lemma backend_ok_detect: "backend_ok w be \<Longrightarrow> backend_ok w (snd (detect hw w be))"
  by (subst detect_frame) (simp add: backend_ok_def)

lemma disable_keeps:
  assumes "world_ok w" and "descs_ok w be"
  shows "\<exists>w' be'. disable hw w be = Some (w', be') \<and> world_ok w' \<and> backend_ok w' be'"
  using world_ok_disabled [OF assms(1)] disable_post [OF assms(2)] backend_ok_disabled by blast

lemma enable_keeps:
  assumes io: "fresh_io io" and w: "world_ok w" and be: "backend_ok w be"
  shows "\<exists>r w' be'. enable hw io w be = Some (r, w', be') \<and> world_ok w' \<and> backend_ok w' be'"
  using io w
proof (cases rule: enable_cases [of io w hw be])
  case (no_save_area w1)
  then have "backend_ok w1 be"
    using be live_page_alloc(1) [OF w no_save_area(1)] unfolding backend_ok_def by blast
  with no_save_area world_ok_alloc [OF w] show ?thesis by blast
next
  case (no_svme w1 d pa va)
  note old = live_page_alloc(1,2) [OF w no_svme(1)] and new = live_page_new [OF no_svme(1)]
  have "\<forall>d'. fVmcbDesc be = Some d' \<longrightarrow> live_page w1 d' (be_fVmcbPA be) (be_fVmcb be) \<and> d' \<noteq> d"
    using be old(1) old(2) [OF _ refl] unfolding backend_ok_def by blast
  then have "backend_ok (svme_on hw w1) (be\<lparr>fHsaveDesc := Some d, fHsavePA := pa\<rparr>)"
    using be new unfolding backend_ok_def by auto
  with no_svme world_ok_alloc [OF w no_svme(1)] show ?thesis by auto
next
  case (no_vmcb w1 d pa va w2)
  note w1 = world_ok_alloc [OF w no_vmcb(1)]
  note w2 = world_ok_alloc [OF _ no_vmcb(3), unfolded world_ok_cpu, OF w1]
  note old = live_page_alloc(1,2) [OF w no_vmcb(1)] and new = live_page_new [OF no_vmcb(1)]
  note keep = live_page_alloc(1) [OF _ no_vmcb(3), unfolded world_ok_cpu live_page_cpu, OF w1]
  let ?be = "be\<lparr>fHsaveDesc := Some d, fHsavePA := pa, be_fVmcb := 0\<rparr>"
  have "\<forall>d'. fVmcbDesc be = Some d' \<longrightarrow> live_page w2 d' (be_fVmcbPA be) (be_fVmcb be) \<and> d' \<noteq> d"
    using be old(1) old(2) [OF _ refl] keep unfolding backend_ok_def by blast
  moreover have "live_page w2 d pa va"
    using new keep by blast
  ultimately have "descs_ok w2 ?be"
    by (auto simp: descs_ok_def descs_def live_page_def)
  from disable_keeps [OF w2 this] obtain w' be' where
    "disable hw w2 ?be = Some (w', be')" "world_ok w'" "backend_ok w' be'"
    by blast
  moreover from this no_vmcb(4) have "enable hw io w be = Some (False, w', be')"
    by simp
  ultimately show ?thesis by blast
next
  case (enabled w1 d pa va w2 d' pa' va' v)
  note w1 = world_ok_alloc [OF w enabled(1)]
  note w2 = world_ok_alloc [OF _ enabled(3), unfolded world_ok_cpu, OF w1]
  note new = live_page_new [OF enabled(1)] and new' = live_page_new [OF enabled(3)]
  note keep = live_page_alloc [OF _ enabled(3), unfolded world_ok_cpu live_page_cpu, OF w1]
  have "backend_ok (w2\<lparr>w_mem := (w_mem w2)(va' \<mapsto> init_vmcb v)\<rparr>)
      (be\<lparr>fHsaveDesc := Some d, fHsavePA := pa, fVmcbDesc := Some d', be_fVmcbPA := pa',
              be_fVmcb := va', fEnabled := True\<rparr>)"
    using new' keep(1) [OF new] keep(2) [OF new refl] by (auto simp: backend_ok_def)
  with enabled(6) world_ok_write [OF w2] show ?thesis by blast
qed

interpretation backend_life: safe_calls "backend_run hw io" "backend_inv io" for hw io
proof
  fix s :: "'a world \<times> svm_backend" and x
  assume "backend_inv io s"
  then obtain w be where s: "s = (w, be)" "fresh_io io" "world_ok w" "backend_ok w be"
    by (cases s) (simp add: backend_inv_def)
  show "\<exists>s'. backend_run hw io x s = Some s' \<and> backend_inv io s'"
  proof (cases x)
    case Detect
    with s show ?thesis by (simp add: backend_inv_def backend_ok_detect)
  next
    case Enable
    from enable_keeps [OF s(2,3,4), of hw] obtain r w' be' where
      "enable hw io w be = Some (r, w', be')" "world_ok w'" "backend_ok w' be'"
      by blast
    with Enable s show ?thesis by (simp add: backend_inv_def)
  next
    case Disable
    from disable_keeps [OF s(3) backend_ok_descs [OF s(4)], of hw] obtain w' be' where
      "disable hw w be = Some (w', be')" "world_ok w'" "backend_ok w' be'"
      by blast
    with Disable s show ?thesis by (simp add: backend_inv_def)
  qed
qed

section \<open>A concrete machine\<close>

text \<open>
  An SVM-capable AMD processor whose MSRs are plain cells, and an allocator with a page at
  \<open>0x1000 * (n + 1)\<close> for request number \<open>n\<close>, refusing the requests in \<open>bad\<close>.
\<close>

definition amd_cpu :: "(u32 \<Rightarrow> u64) cpu_if" where
  "amd_cpu = \<lparr>hw_cpuid = (\<lambda>leaf sub.
       if leaf = 0 then (0xD, 0x68747541, 0x444d4163, 0x69746e65)
       else if leaf = 0x80000000 then (0x8000001E, 0, 0, 0)
       else if leaf = 0x80000001 then (0, 0, 4, 0)
       else if leaf = 0x8000000A then (1, 0x8000, 0, 9)
       else (0, 0, 0, 0)),
     hw_rdmsr = (\<lambda>c r. c r), hw_wrmsr = (\<lambda>c r v. c(r := v))\<rparr>"

definition sample_io :: "nat set \<Rightarrow> io_lib" where
  "sample_io bad n m =
     (let va = of_nat (0x1000 * (n + 1)) in
      \<lparr>ans_ok = (n \<notin> bad \<and> m va = None), ans_prepares = True,
       ans_buf = \<lparr>buf_va = va, buf_pa = va + 0x100000, buf_seg = 0x1000, buf_wired = False\<rparr>,
       ans_bytes = (\<lambda>_. 0xAA)\<rparr>)"

definition boot_world :: "(u32 \<Rightarrow> u64) world" where
  "boot_world = \<lparr>w_cpu = (\<lambda>_. 0), w_requests = 0, w_bufs = Map.empty, w_mem = Map.empty\<rparr>"

lemma msr_laws_amd: "msr_laws amd_cpu"
  by (simp add: msr_laws_def amd_cpu_def)

lemma fresh_sample_io: "fresh_io (sample_io bad)"
  by (simp add: fresh_io_def sample_io_def Let_def)

lemma world_ok_boot: "world_ok boot_world"
  by (simp add: world_ok_def boot_world_def)

lemma backend_inv_boot: "backend_inv (sample_io bad) (boot_world, new_backend)"
  by (simp add: backend_inv_def fresh_sample_io world_ok_boot backend_ok_new)

section \<open>Detection\<close>

text \<open>The twelve bytes of the vendor string, in the order EBX, EDX, ECX.\<close>

definition vendor_string :: "u32 \<times> u32 \<times> u32 \<times> u32 \<Rightarrow> u8 list" where
  "vendor_string r = (case r of (a, b, c, d) \<Rightarrow> le_bytes b @ le_bytes d @ le_bytes c)"

lemma vendor_magic:
  "vendor_string (a, b, c, d) = map of_char ''AuthenticAMD'' \<longleftrightarrow>
     b = 0x68747541 \<and> d = 0x69746e65 \<and> c = 0x444d4163"
proof -
  have "map of_char ''AuthenticAMD'' = le_bytes 0x68747541 @ le_bytes 0x69746e65 @ le_bytes 0x444d4163"
    by (simp add: le_bytes_def upt_rec)
  then show ?thesis
    by (simp add: vendor_string_def le_bytes_eq_iff le_bytes_def [of _, THEN arg_cong, of length])
qed

definition svm_advertised :: "'c cpu_if \<Rightarrow> bool" where
  "svm_advertised hw \<longleftrightarrow>
     vendor_string (amdv_cpuid hw CPUID_VENDOR 0) = map of_char ''AuthenticAMD''
     \<and> CPUID_SVM_FEATURES \<le> fst (amdv_cpuid hw CPUID_EXT_MAX 0)
     \<and> bit (fst (snd (snd (amdv_cpuid hw CPUID_EXT_FEATURES 0)))) 2"

lemma detect_spec:
  "detect hw w be =
    (svm_advertised hw \<and> \<not> bit (rdmsr64 hw w MSR_VM_CR) 4,
     if svm_advertised hw then
       be\<lparr>fSvmRevision := fst (amdv_cpuid hw CPUID_SVM_FEATURES 0) AND 0xFF,
          fNumAsids := fst (snd (amdv_cpuid hw CPUID_SVM_FEATURES 0)),
          be_fSvmFeatures := snd (snd (snd (amdv_cpuid hw CPUID_SVM_FEATURES 0)))\<rparr>
     else be)"
proof -
  obtain a0 b0 c0 d0 where l0: "amdv_cpuid hw CPUID_VENDOR 0 = (a0, b0, c0, d0)" by (metis prod_cases4)
  obtain a1 b1 c1 d1 where l1: "amdv_cpuid hw CPUID_EXT_MAX 0 = (a1, b1, c1, d1)" by (metis prod_cases4)
  obtain a2 b2 c2 d2 where l2: "amdv_cpuid hw CPUID_EXT_FEATURES 0 = (a2, b2, c2, d2)" by (metis prod_cases4)
  obtain a3 b3 c3 d3 where l3: "amdv_cpuid hw CPUID_SVM_FEATURES 0 = (a3, b3, c3, d3)" by (metis prod_cases4)
  have "c2 AND CPUID_ECX_SVM = 0 \<longleftrightarrow> \<not> bit c2 2" "r AND VM_CR_SVMDIS = 0 \<longleftrightarrow> \<not> bit r 4" for r
    by (simp_all add: CPUID_ECX_SVM_def VM_CR_SVMDIS_def bit_reads)
  note bits = this
  have adv: "svm_advertised hw \<longleftrightarrow>
      (b0 = 0x68747541 \<and> d0 = 0x69746e65 \<and> c0 = 0x444d4163) \<and> CPUID_SVM_FEATURES \<le> a1 \<and> bit c2 2"
    unfolding svm_advertised_def l0 l1 l2 fst_conv snd_conv vendor_magic by (rule refl)
  have "detect hw w be =
      (if \<not> svm_advertised hw then (False, be)
       else (\<not> bit (rdmsr64 hw w MSR_VM_CR) 4,
             be\<lparr>fSvmRevision := a3 AND 0xFF, fNumAsids := b3, be_fSvmFeatures := d3\<rparr>))"
    unfolding detect_def l0 l1 l2 l3 Let_def prod.case bits adv by (simp only: not_le [symmetric]) simp
  then show ?thesis
    unfolding l3 by simp
qed

text \<open>
  \<open>detect()\<close> accepts a CPU exactly when its vendor string is AuthenticAMD, the SVM leaf
  exists, CPUID advertises SVM, and the firmware has not set \<open>VM_CR.SVMDIS\<close>. The revision, ASID
  count and feature fields are filled from the SVM leaf as soon as the first three hold, even when
  the answer is no, and nothing else of the backend changes.
\<close>

theorem detect_decides:
  fixes hw :: "'c cpu_if"
  defines "leaf \<equiv> (\<lambda>l. amdv_cpuid hw l 0)"
  defines "advertised \<equiv> vendor_string (leaf CPUID_VENDOR) = map of_char ''AuthenticAMD''
      \<and> CPUID_SVM_FEATURES \<le> fst (leaf CPUID_EXT_MAX)
      \<and> bit (fst (snd (snd (leaf CPUID_EXT_FEATURES)))) 2"
  shows "detect hw w be =
    (advertised \<and> \<not> bit (rdmsr64 hw w MSR_VM_CR) 4,
     if advertised then
       be\<lparr>fSvmRevision := fst (leaf CPUID_SVM_FEATURES) AND 0xFF,
          fNumAsids := fst (snd (leaf CPUID_SVM_FEATURES)),
          be_fSvmFeatures := snd (snd (snd (leaf CPUID_SVM_FEATURES)))\<rparr>
     else be)"
  unfolding detect_spec svm_advertised_def advertised_def leaf_def by (rule refl)

section \<open>Allocation\<close>

text \<open>
  \<open>allocContiguousPage\<close> never faults and is all or nothing. When it returns a page, the
  descriptor is new, live and wired, both addresses are non-null, the segment holds a whole page,
  and the page, which was not mapped before, is mapped and reads as 4096 zero bytes. When it returns
  null, the set of live buffers and the kernel memory are exactly what they were.
\<close>

theorem allocation_all_or_nothing:
  assumes "fresh_io io" and "world_ok w"
  shows "\<exists>r w'. allocContiguousPage io w = Some (r, w') \<and> world_ok w' \<and> w_cpu w' = w_cpu w \<and>
     (case r of
        None \<Rightarrow> w_bufs w' = w_bufs w \<and> w_mem w' = w_mem w
      | Some (d, pa, va) \<Rightarrow>
          w_bufs w d = None \<and> live_page w' d pa va \<and> w_mem w va = None
          \<and> (\<exists>p. w_mem w' = (w_mem w)(va \<mapsto> p) \<and> (\<forall>a. a < 4096 \<longrightarrow> p a = 0)))"
proof -
  obtain r w' where a: "allocContiguousPage io w = Some (r, w')" and p: "alloc_post w r w'"
    using allocContiguousPage_post [OF assms] by blast
  have "w_bufs w (w_requests w) = None"
    using world_okD(1) [OF assms(2), of "w_requests w"] by (cases "w_bufs w (w_requests w)") auto
  with p world_ok_alloc [OF assms(2) p] have "world_ok w' \<and> w_cpu w' = w_cpu w \<and>
     (case r of
        None \<Rightarrow> w_bufs w' = w_bufs w \<and> w_mem w' = w_mem w
      | Some (d, pa, va) \<Rightarrow>
          w_bufs w d = None \<and> live_page w' d pa va \<and> w_mem w va = None
          \<and> (\<exists>p. w_mem w' = (w_mem w)(va \<mapsto> p) \<and> (\<forall>a. a < 4096 \<longrightarrow> p a = 0)))"
    by (cases r) (auto simp: alloc_post_def VMCB_SIZE_def)
  with a show ?thesis by blast
qed

theorem allocation_all_or_nothing_witness:
  "\<exists>r w'. allocContiguousPage (sample_io {0}) boot_world = Some (r, w') \<and> world_ok w'
     \<and> w_cpu w' = w_cpu boot_world"
  using allocation_all_or_nothing [OF fresh_sample_io world_ok_boot, of "{0}"] by blast

section \<open>Enabling\<close>

lemma init_vmcb_reads:
  shows "vmcb_ld (init_vmcb v) intercept_1 = INTERCEPT_CPUID OR INTERCEPT_HLT"
    and "vmcb_ld (init_vmcb v) intercept_2 = INTERCEPT2_VMRUN OR INTERCEPT2_VMMCALL"
    and "vmcb_ld (init_vmcb v) guest_asid = (1 :: u32)"
  by (simp_all add: init_vmcb_def Let_def vmcb_ld_def vmcb_st_def layout load_store_same load_store_apart)

lemma init_vmcb_zero:
  assumes "\<forall>a < VMCB_SIZE. v a = 0"
    and "a < VMCB_SIZE" "a < 0x0C \<or> 0x14 \<le> a" "a < 0x58 \<or> 0x5C \<le> a"
  shows "init_vmcb v a = 0"
proof -
  have "a < 0x0C \<or> 0x0C + LENGTH(32) div 8 \<le> a" "a < 0x10 \<or> 0x10 + LENGTH(32) div 8 \<le> a"
      "a < 0x58 \<or> 0x58 + LENGTH(32) div 8 \<le> a"
    using assms(3,4) by auto
  with assms(1,2) show ?thesis
    by (simp add: init_vmcb_def Let_def vmcb_st_def layout store_le_outside)
qed

lemma svme_set_iff: "svme_set hw w \<longleftrightarrow> bit (hw_rdmsr hw (w_cpu w) MSR_EFER) 12"
  by (simp add: svme_set_def rdmsr64_def EFER_SVME_def bit_reads)

text \<open>
  C23: when \<open>enable()\<close> returns true, SVM is on in \<open>EFER\<close>, \<open>VM_HSAVE_PA\<close> holds the physical
  address of the save area, the save area and the VMCB are two different live wired pages, and the
  VMCB is zero except for the CPUID and HLT intercepts, the VMRUN and VMMCALL intercepts and ASID 1.
\<close>

theorem enable_prepares_vmcb:
  assumes io: "fresh_io io" and w: "world_ok w" and msr: "msr_laws hw"
    and ok: "enable hw io w be = Some (True, w', be')"
  shows "fEnabled be' \<and> svme_set hw w' \<and> rdmsr64 hw w' MSR_VM_HSAVE_PA = fHsavePA be'
    \<and> (\<exists>d va d'. fHsaveDesc be' = Some d \<and> fVmcbDesc be' = Some d' \<and> d \<noteq> d' \<and> va \<noteq> be_fVmcb be'
        \<and> live_page w' d (fHsavePA be') va \<and> live_page w' d' (be_fVmcbPA be') (be_fVmcb be'))
    \<and> (\<exists>v. w_mem w' (be_fVmcb be') = Some v
        \<and> vmcb_ld v intercept_1 = INTERCEPT_CPUID OR INTERCEPT_HLT
        \<and> vmcb_ld v intercept_2 = INTERCEPT2_VMRUN OR INTERCEPT2_VMMCALL
        \<and> vmcb_ld v guest_asid = (1 :: u32)
        \<and> (\<forall>a. a < 4096 \<and> (a < 0x0C \<or> 0x14 \<le> a) \<and> (a < 0x58 \<or> 0x5C \<le> a) \<longrightarrow> v a = 0))"
  using io w
proof (cases rule: enable_cases [of io w hw be])
  case (enabled w1 d pa va w2 d' pa' va' v)
  note w1 = world_ok_alloc [OF w enabled(1)]
  note new = live_page_new [OF enabled(1)] and new' = live_page_new [OF enabled(3)]
  note keep = live_page_alloc [OF _ enabled(3), unfolded world_ok_cpu live_page_cpu, OF w1 new]
  have w': "w' = w2\<lparr>w_mem := (w_mem w2)(va' \<mapsto> init_vmcb v)\<rparr>"
    and be': "be' = be\<lparr>fHsaveDesc := Some d, fHsavePA := pa, fVmcbDesc := Some d', be_fVmcbPA := pa',
              be_fVmcb := va', fEnabled := True\<rparr>"
    using ok enabled(6) by simp_all
  have cpu: "w_cpu w' = hw_wrmsr hw (w_cpu (svme_on hw w1)) MSR_VM_HSAVE_PA pa"
    using enabled(3) by (simp add: w' alloc_post_def wrmsr64_def)
  have "svme_set hw w'" "rdmsr64 hw w' MSR_VM_HSAVE_PA = pa"
    using msr enabled(2) cpu by (simp_all add: svme_set_iff rdmsr64_def msr_laws_def MSR_EFER_def MSR_VM_HSAVE_PA_def)
  moreover have "d \<noteq> d'" "va \<noteq> va'" "live_page w' d pa va" "live_page w' d' pa' va'"
    using keep new' w' by simp_all
  ultimately show ?thesis
    using init_vmcb_zero [OF enabled(5)] by (auto simp: be' w' VMCB_SIZE_def init_vmcb_reads)
qed (use ok in \<open>auto split: option.splits\<close>)

theorem enable_prepares_vmcb_witness:
  "\<exists>w' be'. enable amd_cpu (sample_io {}) boot_world new_backend = Some (True, w', be')
     \<and> fEnabled be' \<and> svme_set amd_cpu w' \<and> rdmsr64 amd_cpu w' MSR_VM_HSAVE_PA = 0x101000"
proof -
  define r where "r = enable amd_cpu (sample_io {}) boot_world new_backend"
  have "\<exists>w' be'. r = Some (True, w', be') \<and> fHsavePA be' = 0x101000"
    unfolding r_def enable_def allocContiguousPage_def io_defs boot_world_def sample_io_def new_backend_def
    by (simp add: Let_def rdmsr64_def wrmsr64_def amd_cpu_def EFER_SVME_def flag_def VMCB_SIZE_def)
  then obtain w' be' where e: "enable amd_cpu (sample_io {}) boot_world new_backend = Some (True, w', be')"
      and pa: "fHsavePA be' = 0x101000"
    by (auto simp: r_def)
  from enable_prepares_vmcb [OF fresh_sample_io world_ok_boot msr_laws_amd e] pa e show ?thesis
    by auto
qed

section \<open>Disabling\<close>

lemma svme_cleared:
  assumes "msr_laws hw" and "fEnabled be"
  shows "\<not> bit (hw_rdmsr hw (disabled_cpu hw be c) MSR_EFER) 12"
    and "hw_rdmsr hw (disabled_cpu hw be c) MSR_VM_HSAVE_PA = 0"
proof -
  let ?v = "hw_rdmsr hw c MSR_EFER AND NOT EFER_SVME"
  let ?c = "hw_wrmsr hw c MSR_EFER ?v"
  have d: "disabled_cpu hw be c = hw_wrmsr hw ?c MSR_VM_HSAVE_PA 0"
    using assms(2) by (simp add: disabled_cpu_def)
  show "hw_rdmsr hw (disabled_cpu hw be c) MSR_VM_HSAVE_PA = 0"
    using assms(1) unfolding d msr_laws_def by blast
  have "MSR_VM_HSAVE_PA \<noteq> MSR_EFER"
    by (simp add: MSR_EFER_def MSR_VM_HSAVE_PA_def)
  then have "hw_rdmsr hw (disabled_cpu hw be c) MSR_EFER = hw_rdmsr hw ?c MSR_EFER"
    using assms(1) unfolding d msr_laws_def by blast
  moreover have "\<not> bit ?v 12"
    by (simp add: EFER_SVME_def bit_simps)
  then have "\<not> bit (hw_rdmsr hw ?c MSR_EFER) 12"
    using assms(1) unfolding msr_laws_def by blast
  ultimately show "\<not> bit (hw_rdmsr hw (disabled_cpu hw be c) MSR_EFER) 12"
    by simp
qed

text \<open>Releasing the two buffers a world gained gives the world back.\<close>

lemma release_two:
  assumes p1: "alloc_post w (Some (d, pa, va)) w1" and p2: "alloc_post w2 (Some (d', pa', va')) w3"
    and w: "world_ok w" and same: "w_bufs w2 = w_bufs w1" "w_mem w2 = w_mem w1" "w_requests w2 = w_requests w1"
    and w4: "w_bufs w4 = w_bufs w3" "w_mem w4 = (w_mem w3)(va' := x)"
  shows "w_bufs w4 |` (- {d', d}) = w_bufs w" and "w_mem w4 |` (- pages_of w4 {d', d}) = w_mem w"
proof -
  obtain b k p where 1: "w_bufs w1 = (w_bufs w)(d \<mapsto> (b, k))" "w_mem w1 = (w_mem w)(va \<mapsto> p)"
      "buf_va b = va" "w_mem w va = None" "w_requests w1 = Suc d" "va \<noteq> 0" "d = w_requests w"
    using p1 unfolding alloc_post_def live_page_def by auto
  obtain b' k' p' where 2: "w_bufs w3 = (w_bufs w2)(d' \<mapsto> (b', k'))" "w_mem w3 = (w_mem w2)(va' \<mapsto> p')"
      "buf_va b' = va'" "w_mem w2 va' = None" "d' = w_requests w2" "va' \<noteq> 0"
    using p2 unfolding alloc_post_def live_page_def by auto
  have ne: "d \<noteq> d'"
    using 1(5) 2(5) same(3) by simp
  have none: "w_bufs w d = None" "w_bufs w d' = None"
    using world_okD(1) [OF w, of d] world_okD(1) [OF w, of d'] 1(5,7) 2(5) same(3)
    by (cases "w_bufs w d"; cases "w_bufs w d'"; force)+
  show "w_bufs w4 |` (- {d', d}) = w_bufs w"
    unfolding w4 2(1) same 1(1) using none by (auto simp: restrict_map_def fun_eq_iff)
  have b: "w_bufs w4 d = Some (b, k)" "w_bufs w4 d' = Some (b', k')"
    unfolding w4 2(1) same 1(1) using ne by simp_all
  have "pages_of w4 {d', d} = {va', va}"
    unfolding pages_of_def using b 1(3,6) 2(3,6) by auto
  moreover have "va' \<noteq> va" "w_mem w va' = None"
    using 2(4) unfolding same 1(2) by (auto split: if_splits)
  ultimately show "w_mem w4 |` (- pages_of w4 {d', d}) = w_mem w"
    unfolding w4 2(2) same 1(2) using 1(4) by (auto simp: restrict_map_def fun_eq_iff)
qed

lemma release_after_enable:
  assumes io: "fresh_io io" and w: "world_ok w" and msr: "msr_laws hw"
    and none: "fHsaveDesc be = None" "fVmcbDesc be = None"
    and ok: "enable hw io w be = Some (True, w', be')"
  shows "\<exists>w''. disable hw w' be' = Some (w'', disabled_backend be) \<and> w_bufs w'' = w_bufs w
    \<and> w_mem w'' = w_mem w \<and> \<not> svme_set hw w'' \<and> rdmsr64 hw w'' MSR_VM_HSAVE_PA = 0"
  using io w
proof (cases rule: enable_cases [of io w hw be])
  case (enabled w1 d pa va w2 d' pa' va' v)
  note w1 = world_ok_alloc [OF w enabled(1)]
  note new = live_page_new [OF enabled(1)] and new' = live_page_new [OF enabled(3)]
  note keep = live_page_alloc [OF _ enabled(3), unfolded world_ok_cpu live_page_cpu, OF w1 new]
  have w': "w' = w2\<lparr>w_mem := (w_mem w2)(va' \<mapsto> init_vmcb v)\<rparr>"
    and be': "be' = be\<lparr>fHsaveDesc := Some d, fHsavePA := pa, fVmcbDesc := Some d', be_fVmcbPA := pa',
              be_fVmcb := va', fEnabled := True\<rparr>"
    using ok enabled(6) by simp_all
  have ds: "descs be' = {d', d}"
    by (auto simp: be' descs_def)
  have "descs_ok w' be'"
    using keep(1) keep(2) [OF refl] new' by (auto simp: w' be' descs_ok_def descs_def live_page_def)
  then have "disable hw w' be' =
    Some (w'\<lparr>w_cpu := disabled_cpu hw be' (w_cpu w'), w_bufs := w_bufs w' |` (- descs be'),
            w_mem := w_mem w' |` (- pages_of w' (descs be'))\<rparr>, disabled_backend be')"
    by (rule disable_post)
  moreover have "w_bufs w' |` (- {d', d}) = w_bufs w" "w_mem w' |` (- pages_of w' {d', d}) = w_mem w"
    using release_two [OF enabled(1,3) w, of w'] by (simp_all add: w')
  moreover have "disabled_backend be' = disabled_backend be" "fEnabled be'"
    by (simp_all add: disabled_backend_def be')
  ultimately show ?thesis
    using svme_cleared [OF msr, of be' "w_cpu w'"] by (simp add: ds svme_set_iff rdmsr64_def)
qed (use ok in \<open>auto split: option.splits\<close>)

text \<open>
  C24: \<open>enable()\<close> followed by \<open>disable()\<close> is a round trip. Starting from a backend that holds no
  buffer, the live buffers and the kernel memory end exactly as they began, \<open>EFER.SVME\<close> is clear,
  \<open>VM_HSAVE_PA\<close> is zero, and the backend is empty again, keeping only what detection filled in.
\<close>

theorem enable_disable_roundtrip:
  assumes io: "fresh_io io" and w: "world_ok w" and msr: "msr_laws hw"
    and none: "fHsaveDesc be = None" "fVmcbDesc be = None"
    and ok: "enable hw io w be = Some (True, w', be')"
  shows "\<exists>w''. disable hw w' be' = Some (w'', disabled_backend be) \<and> w_bufs w'' = w_bufs w
    \<and> w_mem w'' = w_mem w \<and> \<not> svme_set hw w'' \<and> rdmsr64 hw w'' MSR_VM_HSAVE_PA = 0"
  using release_after_enable [OF assms] .

lemma sample_enable:
  "\<exists>w' be'. enable amd_cpu (sample_io {}) boot_world new_backend = Some (True, w', be')"
  unfolding enable_def allocContiguousPage_def io_defs boot_world_def sample_io_def new_backend_def
  by (simp add: Let_def rdmsr64_def wrmsr64_def amd_cpu_def EFER_SVME_def flag_def VMCB_SIZE_def)

theorem enable_disable_roundtrip_witness:
  "\<exists>w' be' w''. enable amd_cpu (sample_io {}) boot_world new_backend = Some (True, w', be')
     \<and> disable amd_cpu w' be' = Some (w'', new_backend) \<and> w_mem w'' = Map.empty"
proof -
  obtain w' be' where e: "enable amd_cpu (sample_io {}) boot_world new_backend = Some (True, w', be')"
    using sample_enable by blast
  have "fHsaveDesc new_backend = None" "fVmcbDesc new_backend = None"
    by (simp_all add: new_backend_def)
  from enable_disable_roundtrip [OF fresh_sample_io world_ok_boot msr_laws_amd this e]
  obtain w'' where "disable amd_cpu w' be' = Some (w'', disabled_backend new_backend)"
      "w_mem w'' = w_mem boot_world"
    by blast
  with e show ?thesis
    by (simp add: disabled_backend_def new_backend_def boot_world_def)
qed

text \<open>
  C29: no sequence of \<open>detect\<close>, \<open>enable\<close> and \<open>disable\<close> calls, whatever the CPU and the allocator
  answer, ever touches or releases a buffer that is gone: every call returns, each descriptor the
  backend holds is live and wired, the VMCB pointer is null or a mapped page, and an enabled backend
  holds both pages.
\<close>

theorem backend_calls_never_fault:
  assumes "backend_inv io (w, be)"
  shows "\<exists>w' be'. run_calls (backend_run hw io) calls (w, be) = Some (w', be')
    \<and> (\<forall>d \<in> descs be'. w_bufs w' d \<noteq> None)
    \<and> (be_fVmcb be' \<noteq> 0 \<longrightarrow> w_mem w' (be_fVmcb be') \<noteq> None)
    \<and> (fEnabled be' \<longrightarrow> be_fVmcb be' \<noteq> 0 \<and> fHsaveDesc be' \<noteq> None)"
proof -
  obtain w' be' where r: "run_calls (backend_run hw io) calls (w, be) = Some (w', be')"
      and "backend_inv io (w', be')"
    using backend_life.calls_safe [OF assms, of hw calls] by auto
  then have inv: "world_ok w'" "backend_ok w' be'"
    by (simp_all add: backend_inv_def)
  have page: "w_mem w' (be_fVmcb be') \<noteq> None" if "be_fVmcb be' \<noteq> 0"
    using that inv(2) world_ok_mapped [OF inv(1)] unfolding backend_ok_def by blast
  have "\<forall>d \<in> descs be'. w_bufs w' d \<noteq> None"
    using backend_ok_descs [OF inv(2)] by (simp add: descs_ok_def)
  moreover have "fEnabled be' \<longrightarrow> be_fVmcb be' \<noteq> 0 \<and> fHsaveDesc be' \<noteq> None"
    using inv(2) by (auto simp: backend_ok_def live_page_def)
  ultimately show ?thesis
    using r page by blast
qed

theorem backend_calls_never_fault_witness:
  "\<exists>w' be'. run_calls (backend_run amd_cpu (sample_io {1})) [Detect, Enable, Disable, Disable, Enable, Enable]
      (boot_world, new_backend) = Some (w', be')"
  using backend_calls_never_fault [OF backend_inv_boot] by blast

section \<open>Failures of enabling\<close>

text \<open>
  C30: a failed VMCB allocation leaves the CPU armed. \<open>enable()\<close> then calls \<open>disable()\<close> to undo its
  work, but \<open>fEnabled\<close> is still false at that point, so \<open>disable()\<close> skips the MSRs: \<open>enable()\<close>
  returns false with \<open>EFER.SVME\<close> set and \<open>VM_HSAVE_PA\<close> still holding the physical address of the
  save area, whose buffer has just been released and unmapped.
\<close>

theorem failed_enable_leaves_svme_on:
  assumes io: "fresh_io io" and w: "world_ok w" and msr: "msr_laws hw"
    and off: "fHsaveDesc be = None" "fVmcbDesc be = None" "\<not> fEnabled be"
    and hsave: "allocContiguousPage io w = Some (Some (d, pa, va), w1)"
    and sticks: "svme_set hw (svme_on hw w1)"
    and no_vmcb: "allocContiguousPage io (wrmsr64 hw (svme_on hw w1) MSR_VM_HSAVE_PA pa) = Some (None, w2)"
  shows "\<exists>w'. enable hw io w be = Some (False, w', disabled_backend be)
    \<and> svme_set hw w' \<and> rdmsr64 hw w' MSR_VM_HSAVE_PA = pa \<and> pa \<noteq> 0
    \<and> w_bufs w' d = None \<and> w_mem w' va = None"
proof -
  have p1: "alloc_post w (Some (d, pa, va)) w1"
    using allocContiguousPage_post [OF io w] hsave by auto
  note w1 = world_ok_alloc [OF w p1] and new = live_page_new [OF p1]
  have p2: "alloc_post (wrmsr64 hw (svme_on hw w1) MSR_VM_HSAVE_PA pa) None w2"
    using allocContiguousPage_post [OF io, of "wrmsr64 hw (svme_on hw w1) MSR_VM_HSAVE_PA pa"] no_vmcb w1
    by auto
  let ?be = "be\<lparr>fHsaveDesc := Some d, fHsavePA := pa, be_fVmcb := 0\<rparr>"
  have ds: "descs ?be = {d}"
    using off by (simp add: descs_def)
  have live: "live_page w2 d pa va"
    using live_page_alloc(1) [OF _ p2, unfolded world_ok_cpu live_page_cpu, OF w1 new] .
  then have ok: "descs_ok w2 ?be"
    using off by (auto simp: descs_ok_def ds live_page_def)
  have "disabled_backend ?be = disabled_backend be"
    by (simp add: disabled_backend_def)
  then have dis: "disable hw w2 ?be = Some (w2\<lparr>w_bufs := w_bufs w2 |` (- {d}),
      w_mem := w_mem w2 |` (- pages_of w2 {d})\<rparr>, disabled_backend be)" (is "_ = Some (?w', _)")
    using disable_post [OF ok, of hw] off(3) by (simp add: ds disabled_cpu_def)
  have en: "enable hw io w be = Some (False, ?w', disabled_backend be)"
    using hsave sticks no_vmcb dis by (simp add: enable_def Let_def svme_set_def svme_on_def)
  have "va \<in> pages_of w2 {d}" "pa \<noteq> 0"
    using live by (auto simp: live_page_def pages_of_def)
  then have gone: "w_bufs ?w' d = None \<and> w_mem ?w' va = None \<and> pa \<noteq> 0"
    by (simp add: restrict_map_def)
  have "w_cpu ?w' = hw_wrmsr hw (w_cpu (svme_on hw w1)) MSR_VM_HSAVE_PA pa"
    using p2 by (simp add: alloc_post_def wrmsr64_def)
  then have "svme_set hw ?w' \<and> rdmsr64 hw ?w' MSR_VM_HSAVE_PA = pa"
    using sticks msr by (simp add: svme_set_iff rdmsr64_def msr_laws_def MSR_EFER_def MSR_VM_HSAVE_PA_def)
  with en gone show ?thesis by blast
qed

theorem failed_enable_leaves_svme_on_witness:
  "\<exists>w'. enable amd_cpu (sample_io {1}) boot_world new_backend = Some (False, w', new_backend)
    \<and> svme_set amd_cpu w' \<and> rdmsr64 amd_cpu w' MSR_VM_HSAVE_PA = 0x101000 \<and> w_mem w' 0x1000 = None"
proof -
  have "\<exists>w1. allocContiguousPage (sample_io {1}) boot_world = Some (Some (0, 0x101000, 0x1000), w1)
      \<and> w_requests w1 = 1 \<and> w_cpu w1 = (\<lambda>_. 0)"
    unfolding allocContiguousPage_def io_defs boot_world_def sample_io_def
    by (simp add: Let_def VMCB_SIZE_def)
  then obtain w1 where h: "allocContiguousPage (sample_io {1}) boot_world = Some (Some (0, 0x101000, 0x1000), w1)"
      and r: "w_requests w1 = 1" "w_cpu w1 = (\<lambda>_. 0)"
    by blast
  have sticks: "svme_set amd_cpu (svme_on amd_cpu w1)"
    by (simp add: svme_set_def svme_on_def rdmsr64_def wrmsr64_def amd_cpu_def EFER_SVME_def flag_def)
  let ?w2 = "wrmsr64 amd_cpu (svme_on amd_cpu w1) MSR_VM_HSAVE_PA 0x101000"
  have "\<exists>w2. allocContiguousPage (sample_io {1}) ?w2 = Some (None, w2)"
    unfolding allocContiguousPage_def io_defs sample_io_def by (simp add: Let_def r)
  then obtain w2 where n: "allocContiguousPage (sample_io {1}) ?w2 = Some (None, w2)"
    by blast
  have "fHsaveDesc new_backend = None" "fVmcbDesc new_backend = None" "\<not> fEnabled new_backend"
    by (simp_all add: new_backend_def)
  from failed_enable_leaves_svme_on [OF fresh_sample_io world_ok_boot msr_laws_amd this h sticks n]
  show ?thesis
    by (auto simp: disabled_backend_def new_backend_def)
qed

text \<open>
  when the SVME bit does not stick, \<open>enable()\<close> returns false still holding the save area: the
  descriptor stays in \<open>fHsaveDesc\<close>, live and mapped, the backend is not enabled, and the only thing
  that gives the page back is a later \<open>disable()\<close>, which returns the memory to what it was.
\<close>

theorem svme_refused_holds_save_area:
  assumes io: "fresh_io io" and w: "world_ok w"
    and off: "fHsaveDesc be = None" "fVmcbDesc be = None" "\<not> fEnabled be"
    and hsave: "allocContiguousPage io w = Some (Some (d, pa, va), w1)"
    and refused: "\<not> svme_set hw (svme_on hw w1)"
  shows "\<exists>w' be' w''. enable hw io w be = Some (False, w', be') \<and> \<not> fEnabled be'
    \<and> fHsaveDesc be' = Some d \<and> live_page w' d pa va \<and> w_mem w' va \<noteq> None
    \<and> disable hw w' be' = Some (w'', disabled_backend be) \<and> w_bufs w'' = w_bufs w \<and> w_mem w'' = w_mem w"
proof -
  have p1: "alloc_post w (Some (d, pa, va)) w1"
    using allocContiguousPage_post [OF io w] hsave by auto
  note w1 = world_ok_alloc [OF w p1] and new = live_page_new [OF p1]
  let ?w' = "svme_on hw w1" and ?be' = "be\<lparr>fHsaveDesc := Some d, fHsavePA := pa\<rparr>"
  have en: "enable hw io w be = Some (False, ?w', ?be')"
    using hsave refused by (simp add: enable_def Let_def svme_set_def svme_on_def)
  have ds: "descs ?be' = {d}" and ok: "descs_ok ?w' ?be'"
    using off new by (auto simp: descs_def descs_ok_def live_page_def)
  have "disabled_backend ?be' = disabled_backend be"
    by (simp add: disabled_backend_def)
  then have dis: "disable hw ?w' ?be' =
      Some (?w'\<lparr>w_bufs := w_bufs ?w' |` (- {d}), w_mem := w_mem ?w' |` (- pages_of ?w' {d})\<rparr>, disabled_backend be)"
    using disable_post [OF ok, of hw] off(3) by (simp add: ds disabled_cpu_def)
  obtain b k p where 1: "w_bufs w1 = (w_bufs w)(d \<mapsto> (b, k))" "w_mem w1 = (w_mem w)(va \<mapsto> p)"
      "buf_va b = va" "w_mem w va = None" "va \<noteq> 0" "d = w_requests w"
    using p1 unfolding alloc_post_def live_page_def by auto
  have "w_bufs w d = None"
    using world_okD(1) [OF w, of d] 1(6) by (cases "w_bufs w d") auto
  moreover have "pages_of ?w' {d} = {va}"
    using 1(1,3,5) by (auto simp: pages_of_def)
  ultimately have "w_bufs ?w' |` (- {d}) = w_bufs w" "w_mem ?w' |` (- pages_of ?w' {d}) = w_mem w"
    using 1(4) by (auto simp: 1(1,2) restrict_map_def fun_eq_iff)
  with en dis new off(3) 1(2) show ?thesis
    by simp
qed

theorem svme_refused_holds_save_area_witness:
  "\<exists>w' be'. enable (amd_cpu\<lparr>hw_wrmsr := \<lambda>c r v. c\<rparr>) (sample_io {}) boot_world new_backend = Some (False, w', be')
    \<and> fHsaveDesc be' = Some 0 \<and> w_mem w' 0x1000 \<noteq> None"
proof -
  let ?hw = "amd_cpu\<lparr>hw_wrmsr := \<lambda>c r v. c\<rparr>"
  have "\<exists>w1. allocContiguousPage (sample_io {}) boot_world = Some (Some (0, 0x101000, 0x1000), w1)
      \<and> w_cpu w1 = (\<lambda>_. 0)"
    unfolding allocContiguousPage_def io_defs boot_world_def sample_io_def
    by (simp add: Let_def VMCB_SIZE_def)
  then obtain w1 where h: "allocContiguousPage (sample_io {}) boot_world = Some (Some (0, 0x101000, 0x1000), w1)"
      and r: "w_cpu w1 = (\<lambda>_. 0)"
    by blast
  have refused: "\<not> svme_set ?hw (svme_on ?hw w1)"
    by (simp add: svme_set_def svme_on_def rdmsr64_def wrmsr64_def amd_cpu_def r)
  have "fHsaveDesc new_backend = None" "fVmcbDesc new_backend = None" "\<not> fEnabled new_backend"
    by (simp_all add: new_backend_def)
  from svme_refused_holds_save_area [OF fresh_sample_io world_ok_boot this h refused] show ?thesis
    by blast
qed

text \<open>
  once \<open>disable()\<close> has run, running it again changes nothing at all: no MSR is written, nothing
  is released twice, and the backend stays as it is.
\<close>

theorem disable_idempotent:
  assumes "backend_inv io (w, be)"
  shows "\<exists>w' be'. disable hw w be = Some (w', be') \<and> disable hw w' be' = Some (w', be')
    \<and> descs be' = {} \<and> \<not> fEnabled be'"
proof -
  have ok: "descs_ok w be"
    using assms by (auto simp: backend_inv_def intro: backend_ok_descs)
  obtain w' where d1: "disable hw w be = Some (w', disabled_backend be)"
    using disable_post [OF ok] by blast
  have e: "descs (disabled_backend be) = {}"
    by (simp add: descs_def disabled_backend_def)
  have "disable hw w' (disabled_backend be) = Some (w', disabled_backend be)"
    using disable_post [of w' "disabled_backend be" hw]
    by (simp add: descs_ok_def descs_def disabled_cpu_def pages_of_def disabled_backend_def restrict_map_def)
  with d1 e show ?thesis
    by (auto simp: disabled_backend_def)
qed

theorem disable_idempotent_witness:
  "\<exists>w' be'. disable amd_cpu boot_world new_backend = Some (w', be') \<and> disable amd_cpu w' be' = Some (w', be')"
  using disable_idempotent [OF backend_inv_boot] by blast

end
