(* ===== verification/SvmCheck.thy ===== *)
theory SvmCheck
  imports SvmBackendProps
begin

text \<open>
  The user-space probe \<^verbatim>\<open>tests/svmcheck.c\<close>, an independent check of what
  \<open>SvmBackend::detect\<close> sees: its exit code and the values it reports. The compiler's
  \<open>__get_cpuid\<close> refuses a leaf above the maximum the processor announces for its range. The text
  layout of the output is left out.
\<close>

section \<open>The program\<close>

datatype check_exit = EX_OK | EX_NOT_AMD | EX_NO_SVM | EX_NO_LEAF

primrec exit_num :: "check_exit \<Rightarrow> nat" where
  "exit_num EX_OK = 0"
| "exit_num EX_NOT_AMD = 1"
| "exit_num EX_NO_SVM = 2"
| "exit_num EX_NO_LEAF = 3"

definition get_cpuid :: "'c cpu_if \<Rightarrow> u32 \<Rightarrow> (u32 \<times> u32 \<times> u32 \<times> u32) option" where
  "get_cpuid hw leaf =
     (let m = fst (hw_cpuid hw (leaf AND 0x80000000) 0)
      in if m = 0 \<or> m < leaf then None else Some (hw_cpuid hw leaf 0))"

definition kFeatures :: "(nat \<times> string \<times> string) list" where
  "kFeatures =
     [(0, ''NP (nested paging)'', ''required to map guest memory''), (1, ''LbrVirt'', []),
      (2, ''SVML (SVM lock)'', ''if set with VM_CR.SVMDIS, BIOS locked SVM off''),
      (3, ''NRIPS'', ''if 0, RIP advance needs an instruction decoder''),
      (4, ''TscRateMsr'', []), (5, ''VMCB clean bits'', []), (6, ''FlushByAsid'', []),
      (7, ''Decode assists'', []), (10, ''Pause filter'', []),
      (12, ''Pause filter threshold'', []), (13, ''AVIC'', []), (15, ''V_VMSAVE_VMLOAD'', []),
      (16, ''vGIF'', [])]"

record check_report =
  rep_rev :: u32
  rep_asids :: u32
  rep_edx :: u32
  rep_features :: "(string \<times> bool) list"

text \<open>\<open>strcmp\<close> compares up to the first NUL; the buffer's thirteenth byte is one.\<close>

definition strcmp_eq :: "u8 list \<Rightarrow> u8 list \<Rightarrow> bool" where
  "strcmp_eq buf s \<longleftrightarrow> takeWhile (\<lambda>x. x \<noteq> 0) buf = s"

text \<open>
  The two calls whose result the program does not look at leave the registers as they were when
  they refuse, as the C variables are.
\<close>

definition get_cpuid_or ::
  "'c cpu_if \<Rightarrow> u32 \<Rightarrow> u32 \<times> u32 \<times> u32 \<times> u32 \<Rightarrow> u32 \<times> u32 \<times> u32 \<times> u32" where
  "get_cpuid_or hw leaf old = (case get_cpuid hw leaf of None \<Rightarrow> old | Some r \<Rightarrow> r)"

definition svmcheck_main :: "'c cpu_if \<Rightarrow> check_exit \<times> check_report option" where
  "svmcheck_main hw =
     (case get_cpuid hw 0 of
        None \<Rightarrow> (EX_NOT_AMD, None)
      | Some (a, b, c, d) \<Rightarrow>
          if \<not> strcmp_eq (le_bytes b @ le_bytes d @ le_bytes c @ [0]) (map of_char ''AuthenticAMD'')
          then (EX_NOT_AMD, None)
          else case get_cpuid hw 0x80000000 of
            None \<Rightarrow> (EX_NO_LEAF, None)
          | Some (a, b, c, d) \<Rightarrow>
              if a < 0x8000000A then (EX_NO_LEAF, None)
              else let (a, b, c, d) = get_cpuid_or hw 0x80000001 (a, b, c, d) in
                if c AND flag 2 = 0 then (EX_NO_SVM, None)
                else let (a, b, c, d) = get_cpuid_or hw 0x8000000A (a, b, c, d) in
                  (EX_OK, Some \<lparr>rep_rev = a AND 0xFF, rep_asids = b, rep_edx = d,
                     rep_features = map (\<lambda>(k, name, note). (name, drop_bit k d AND 1 \<noteq> 0)) kFeatures\<rparr>))"

section \<open>Agreement with the kernel extension\<close>

lemma strcmp_vendor:
  "strcmp_eq (le_bytes b @ le_bytes d @ le_bytes c @ [0]) (map of_char ''AuthenticAMD'') \<longleftrightarrow>
     vendor_string (a, b, c, d) = map of_char ''AuthenticAMD''"
proof -
  let ?amd = "map of_char ''AuthenticAMD'' :: u8 list"
  let ?buf = "le_bytes b @ le_bytes d @ le_bytes c"
  have len: "length ?buf = 12" "length ?amd = 12" and nz: "\<forall>x \<in> set ?amd. x \<noteq> 0"
    by (simp_all add: le_bytes_def)
  have "takeWhile (\<lambda>x. x \<noteq> 0) (?buf @ [0]) = ?amd \<longleftrightarrow> ?buf = ?amd"
  proof
    assume eq: "takeWhile (\<lambda>x. x \<noteq> 0) (?buf @ [0]) = ?amd"
    have "takeWhile (\<lambda>x. x \<noteq> 0) (?buf @ [0]) = takeWhile (\<lambda>x. x \<noteq> 0) ?buf"
      by (rule takeWhile_tail) simp
    with eq have "takeWhile (\<lambda>x. x \<noteq> 0) ?buf = ?amd"
      by (simp only:)
    with len show "?buf = ?amd"
      by (metis takeWhile_eq_take take_all_iff order_refl)
  next
    assume "?buf = ?amd"
    with nz show "takeWhile (\<lambda>x. x \<noteq> 0) (?buf @ [0]) = ?amd"
      by (simp only: takeWhile_append2 takeWhile.simps simp_thms if_False append_Nil2)
  qed
  then show ?thesis
    by (simp add: strcmp_eq_def vendor_string_def)
qed

lemma svmcheck_cases:
  assumes "fst (hw_cpuid hw 0 0) \<noteq> 0"
  shows "svmcheck_main hw =
    (if vendor_string (hw_cpuid hw 0 0) \<noteq> map of_char ''AuthenticAMD'' then (EX_NOT_AMD, None)
     else if fst (hw_cpuid hw 0x80000000 0) < 0x8000000A then (EX_NO_LEAF, None)
     else if \<not> bit (fst (snd (snd (hw_cpuid hw 0x80000001 0)))) 2 then (EX_NO_SVM, None)
     else (EX_OK, Some (case hw_cpuid hw 0x8000000A 0 of (a, b, c, d) \<Rightarrow>
       \<lparr>rep_rev = a AND 0xFF, rep_asids = b, rep_edx = d,
        rep_features = map (\<lambda>(k, name, note). (name, bit d k)) kFeatures\<rparr>)))"
proof -
  obtain a0 b0 c0 d0 where l0: "hw_cpuid hw 0 0 = (a0, b0, c0, d0)" by (metis prod_cases4)
  obtain a1 b1 c1 d1 where l1: "hw_cpuid hw 0x80000000 0 = (a1, b1, c1, d1)" by (metis prod_cases4)
  obtain a2 b2 c2 d2 where l2: "hw_cpuid hw 0x80000001 0 = (a2, b2, c2, d2)" by (metis prod_cases4)
  obtain a3 b3 c3 d3 where l3: "hw_cpuid hw 0x8000000A 0 = (a3, b3, c3, d3)" by (metis prod_cases4)
  have g0: "get_cpuid hw 0 = Some (a0, b0, c0, d0)"
    using assms by (simp add: get_cpuid_def l0)
  have mask: "(0x80000000 :: u32) AND 0x80000000 = 0x80000000" "(0x80000001 :: u32) AND 0x80000000 = 0x80000000"
      "(0x8000000A :: u32) AND 0x80000000 = 0x80000000"
    by simp_all
  have g1: "get_cpuid hw 0x80000000 =
      (if a1 = 0 \<or> a1 < 0x80000000 then None else Some (a1, b1, c1, d1))"
    by (simp only: get_cpuid_def mask l1 fst_conv Let_def)
  have g2: "get_cpuid_or hw 0x80000001 old = (a2, b2, c2, d2)"
      "get_cpuid_or hw 0x8000000A old = (a3, b3, c3, d3)" if "\<not> a1 < 0x8000000A" for old
  proof -
    have "0x8000000A \<le> a1"
      using that by simp
    then have "a1 \<noteq> 0" "\<not> a1 < 0x80000001"
      by (auto simp: not_less intro: order_trans [rotated])
    then show "get_cpuid_or hw 0x80000001 old = (a2, b2, c2, d2)"
      "get_cpuid_or hw 0x8000000A old = (a3, b3, c3, d3)"
      using that by (simp_all only: get_cpuid_or_def get_cpuid_def mask l1 l2 l3 fst_conv Let_def)
        simp_all
  qed
  have small: "a1 = 0 \<or> a1 < 0x80000000 \<Longrightarrow> a1 < 0x8000000A"
    by (auto intro: less_trans)
  have bits: "c2 AND flag 2 = 0 \<longleftrightarrow> \<not> bit c2 2" "drop_bit k d3 AND 1 \<noteq> 0 \<longleftrightarrow> bit d3 k" for k
    by (simp_all add: and_flag_eq_0_iff bit_iff_odd_drop_bit and_one_eq odd_iff_mod_2_eq_one)
  define v where "v \<longleftrightarrow> vendor_string (a0, b0, c0, d0) = map of_char ''AuthenticAMD''"
  have amd: "strcmp_eq (le_bytes b0 @ le_bytes d0 @ le_bytes c0 @ [0]) (map of_char ''AuthenticAMD'') \<longleftrightarrow> v"
    unfolding v_def by (rule strcmp_vendor)
  note code = svmcheck_main_def [of hw, unfolded g0 option.case prod.case amd]
  show ?thesis
    unfolding l0 v_def [symmetric]
  proof (cases "a1 < 0x8000000A")
    case True
    then show "svmcheck_main hw = (if \<not> v then (EX_NOT_AMD, None)
        else if fst (hw_cpuid hw 0x80000000 0) < 0x8000000A then (EX_NO_LEAF, None)
        else if \<not> bit (fst (snd (snd (hw_cpuid hw 0x80000001 0)))) 2 then (EX_NO_SVM, None)
        else (EX_OK, Some (case hw_cpuid hw 0x8000000A 0 of (a, b, c, d) \<Rightarrow>
          \<lparr>rep_rev = a AND 0xFF, rep_asids = b, rep_edx = d,
           rep_features = map (\<lambda>(k, name, note). (name, bit d k)) kFeatures\<rparr>)))"
      by (simp add: code g1 l1)
  next
    case False
    with small have "get_cpuid hw 0x80000000 = Some (a1, b1, c1, d1)"
      by (auto simp: g1)
    with False show "svmcheck_main hw = (if \<not> v then (EX_NOT_AMD, None)
        else if fst (hw_cpuid hw 0x80000000 0) < 0x8000000A then (EX_NO_LEAF, None)
        else if \<not> bit (fst (snd (snd (hw_cpuid hw 0x80000001 0)))) 2 then (EX_NO_SVM, None)
        else (EX_OK, Some (case hw_cpuid hw 0x8000000A 0 of (a, b, c, d) \<Rightarrow>
          \<lparr>rep_rev = a AND 0xFF, rep_asids = b, rep_edx = d,
           rep_features = map (\<lambda>(k, name, note). (name, bit d k)) kFeatures\<rparr>)))"
      by (simp add: code g2 [OF False] l1 l2 l3 bits)
  qed
qed

text \<open>
  C26: the probe and the kernel extension agree. On a processor that announces basic leaves, the
  extension accepts exactly the CPUs for which the probe exits with 0 and \<open>VM_CR.SVMDIS\<close> is clear;
  the extension has read the SVM leaf exactly when the probe has, and then both show the same
  revision, ASID count and feature word; the probe's feature list shows nested paging and NRIPS as
  the constants of the extension test them.
\<close>

theorem svmcheck_agrees_with_detect:
  assumes "fst (hw_cpuid hw 0 0) \<noteq> 0"
  shows "(fst (detect hw w be) \<longleftrightarrow> fst (svmcheck_main hw) = EX_OK \<and> \<not> bit (rdmsr64 hw w MSR_VM_CR) 4)
    \<and> (case snd (svmcheck_main hw) of
         None \<Rightarrow> fst (svmcheck_main hw) \<noteq> EX_OK \<and> snd (detect hw w be) = be
       | Some r \<Rightarrow> fSvmRevision (snd (detect hw w be)) = rep_rev r
           \<and> fNumAsids (snd (detect hw w be)) = rep_asids r
           \<and> be_fSvmFeatures (snd (detect hw w be)) = rep_edx r
           \<and> map_of (rep_features r) ''NP (nested paging)'' = Some (rep_edx r AND SVM_FEATURE_NP \<noteq> 0)
           \<and> map_of (rep_features r) ''NRIPS'' = Some (rep_edx r AND SVM_FEATURE_NRIPS \<noteq> 0))"
proof -
  have "svm_advertised hw \<longleftrightarrow> fst (svmcheck_main hw) = EX_OK"
    by (auto simp add: svmcheck_cases [OF assms] svm_advertised_def amdv_cpuid_def CPUID_VENDOR_def
        CPUID_EXT_MAX_def CPUID_EXT_FEATURES_def CPUID_SVM_FEATURES_def not_less)
  moreover have "case snd (svmcheck_main hw) of
      None \<Rightarrow> fst (svmcheck_main hw) \<noteq> EX_OK
    | Some r \<Rightarrow> fst (svmcheck_main hw) = EX_OK
        \<and> rep_rev r = fst (amdv_cpuid hw CPUID_SVM_FEATURES 0) AND 0xFF
        \<and> rep_asids r = fst (snd (amdv_cpuid hw CPUID_SVM_FEATURES 0))
        \<and> rep_edx r = snd (snd (snd (amdv_cpuid hw CPUID_SVM_FEATURES 0)))
        \<and> map_of (rep_features r) ''NP (nested paging)'' = Some (bit (rep_edx r) 0)
        \<and> map_of (rep_features r) ''NRIPS'' = Some (bit (rep_edx r) 3)"
    by (simp add: svmcheck_cases [OF assms] amdv_cpuid_def CPUID_SVM_FEATURES_def kFeatures_def
        split: prod.split)
  ultimately show ?thesis
    unfolding detect_spec SVM_FEATURE_NP_def SVM_FEATURE_NRIPS_def and_flag_eq_0_iff
    by (auto split: option.splits)
qed

theorem svmcheck_agrees_with_detect_witness:
  "fst (detect amd_cpu boot_world new_backend) \<longleftrightarrow> fst (svmcheck_main amd_cpu) = EX_OK"
proof -
  have "fst (hw_cpuid amd_cpu 0 0) \<noteq> 0" "\<not> bit (rdmsr64 amd_cpu boot_world MSR_VM_CR) 4"
    by (simp_all add: amd_cpu_def rdmsr64_def boot_world_def)
  with svmcheck_agrees_with_detect [OF this(1), of boot_world new_backend] show ?thesis
    by blast
qed

text \<open>
  the exit codes are those the probe documents: 1 exactly for a vendor other than AuthenticAMD, 3
  exactly for an AMD processor without the SVM leaf, 2 exactly for one that has the leaf range but
  does not advertise SVM, and 0 for the rest.
\<close>

theorem svmcheck_exit_codes:
  assumes "fst (hw_cpuid hw 0 0) \<noteq> 0"
  defines "amd \<equiv> vendor_string (hw_cpuid hw 0 0) = map of_char ''AuthenticAMD''"
    and "leaf \<equiv> 0x8000000A \<le> fst (hw_cpuid hw 0x80000000 0)"
    and "svm \<equiv> bit (fst (snd (snd (hw_cpuid hw 0x80000001 0)))) 2"
  shows "exit_num (fst (svmcheck_main hw)) =
    (if \<not> amd then 1 else if \<not> leaf then 3 else if \<not> svm then 2 else 0)"
  by (simp add: svmcheck_cases [OF assms(1)] amd_def leaf_def svm_def not_le)

theorem svmcheck_exit_codes_witness:
  "exit_num (fst (svmcheck_main amd_cpu)) = 0"
proof -
  have "fst (hw_cpuid amd_cpu 0 0) \<noteq> 0"
    by (simp add: amd_cpu_def)
  note codes = svmcheck_exit_codes [OF this]
  have "hw_cpuid amd_cpu 0 0 = (0xD, 0x68747541, 0x444d4163, 0x69746e65)"
    by (simp add: amd_cpu_def)
  then have "vendor_string (hw_cpuid amd_cpu 0 0) = map of_char ''AuthenticAMD''"
    by (simp only: vendor_magic)
  moreover have "0x8000000A \<le> fst (hw_cpuid amd_cpu 0x80000000 0)" "bit (fst (snd (snd (hw_cpuid amd_cpu 0x80000001 0)))) 2"
    by (simp_all add: amd_cpu_def)
  ultimately show ?thesis
    unfolding codes by (simp only: if_True if_False simp_thms)
qed

end
