(* ===== verification/HvAmd.thy ===== *)
theory HvAmd
  imports SvmBackend VmxEmu
begin

text \<open>
  The class \<open>HypervisorAMD\<close> of \<^verbatim>\<open>src/kern_hv_amd.hpp\<close> and
  \<^verbatim>\<open>src/kern_hv_amd.cpp\<close>: what the plugin does to the running kernel once Lilu's patcher
  is ready, and what it undoes when it is unloaded. Lilu's \<open>KernelPatcher\<close> and \<open>MachInfo\<close> are a
  parameter, the kernel's data is a partial map of 32-bit integers, and every change of the kernel
  is recorded in a trace, in order.
\<close>

section \<open>The patcher and the kernel\<close>

text \<open>
  What the code asks of Lilu: the address of a symbol (0 on a miss), whether a function can be
  routed and the address of the original if so, whether write protection can be lifted, and whether
  a boot argument was given.
\<close>

record patcher =
  solveSymbol :: "string \<Rightarrow> u64"
  routeMultiple :: "string \<Rightarrow> u64 option"
  setKernelWriting :: bool
  checkKernelArgument :: "string \<Rightarrow> bool"

datatype kernel_event =
    Routed string
  | KernelWriting bool
  | IntWritten u64 u32

record 'c kernel =
  k_world :: "'c world"
  k_ints :: "u64 \<rightharpoonup> u32"
  k_trace :: "kernel_event list"

record hypervisor_amd =
  fSvm :: svm_backend
  fVmx :: vmx_emulator
  callbackInst :: bool
  patcherCallback :: bool
  orgVmxIsAvailable :: u64

definition new_hypervisor :: hypervisor_amd where
  "new_hypervisor = \<lparr>fSvm = new_backend, fVmx = new_emulator, callbackInst = False,
     patcherCallback = False, orgVmxIsAvailable = 0\<rparr>"

definition k_event :: "kernel_event \<Rightarrow> 'c kernel \<Rightarrow> 'c kernel" where
  "k_event e k = k\<lparr>k_trace := k_trace k @ [e]\<rparr>"

section \<open>The availability gate and its latch\<close>

definition kVmxAvailSymbols :: "string list" where
  "kVmxAvailSymbols = [''_vmx_hv_support'', ''_vmx_is_available'']"

definition kHvSupportAvailSymbol :: string where
  "kHvSupportAvailSymbol = ''_hv_support_available''"

definition wrapVmxIsAvailable :: bool where
  "wrapVmxIsAvailable = True"

definition setHvSupportAvailable :: "patcher \<Rightarrow> u32 \<Rightarrow> 'c kernel \<Rightarrow> (bool \<times> 'c kernel) kresult" where
  "setHvSupportAvailable p v k =
     (let addr = solveSymbol p kHvSupportAvailSymbol in
      if addr = 0 then Some (False, k)
      else do {
        before \<leftarrow> k_ints k addr;
        if \<not> setKernelWriting p then Some (False, k)
        else do {
          let k = k_event (KernelWriting True) k;
          let k = k_event (IntWritten addr v) (k\<lparr>k_ints := (k_ints k)(addr \<mapsto> v)\<rparr>);
          let k = k_event (KernelWriting False) k;
          after \<leftarrow> k_ints k addr;
          Some (after = v, k)
        }
      })"

text \<open>The read-back of the latch for the log.\<close>

definition reportHvSupport :: "patcher \<Rightarrow> 'c kernel \<Rightarrow> unit kresult" where
  "reportHvSupport p k =
     (let addr = solveSymbol p kHvSupportAvailSymbol in
      if addr = 0 then Some () else map_option (\<lambda>_. ()) (k_ints k addr))"

text \<open>The loop over the candidate symbols: skip a miss, stop at the first one that routes.\<close>

fun routeGate :: "patcher \<Rightarrow> string list \<Rightarrow> 'c kernel \<Rightarrow> hypervisor_amd \<Rightarrow> 'c kernel \<times> hypervisor_amd" where
  "routeGate p [] k hv = (k, hv)"
| "routeGate p (s # ss) k hv =
     (if solveSymbol p s = 0 then routeGate p ss k hv
      else case routeMultiple p s of
        Some org \<Rightarrow> (k_event (Routed s) k, hv\<lparr>orgVmxIsAvailable := org\<rparr>)
      | None \<Rightarrow> routeGate p ss k hv)"

section \<open>Load and unload\<close>

definition onPatcherLoad ::
  "'c cpu_if \<Rightarrow> io_lib \<Rightarrow> patcher \<Rightarrow> 'c kernel \<Rightarrow> hypervisor_amd \<Rightarrow> ('c kernel \<times> hypervisor_amd) kresult" where
  "onPatcherLoad hw io p k hv =
     (let (ok, be) = detect hw (k_world k) (fSvm hv); hv = hv\<lparr>fSvm := be\<rparr> in
      if \<not> ok then Some (k, hv)
      else do {
        (ok, w, be) \<leftarrow> enable hw io (k_world k) (fSvm hv);
        let k = k\<lparr>k_world := w\<rparr>;
        let hv = hv\<lparr>fSvm := be\<rparr>;
        if \<not> ok then Some (k, hv)
        else do {
          let (k, hv) = routeGate p kVmxAvailSymbols k hv;
          k \<leftarrow> (if checkKernelArgument p ''-amdvgate''
               then map_option snd (setHvSupportAvailable p 1 k)
               else map_option (\<lambda>_. k) (reportHvSupport p k));
          Some (k, hv\<lparr>fVmx := emu_bind (fVmx hv) (be_fVmcb (fSvm hv)) (be_fVmcbPA (fSvm hv))
                               (be_fSvmFeatures (fSvm hv))\<rparr>)
        }
      })"

text \<open>
  \<open>init\<close> sets the callback instance and registers \<open>onPatcherLoad\<close> with Lilu (\<open>patcherCallback\<close> says
  that the callback is in Lilu's list); \<open>deinit\<close> only disables the backend.
\<close>

definition init :: "hypervisor_amd \<Rightarrow> hypervisor_amd" where
  "init hv = hv\<lparr>callbackInst := True, patcherCallback := True\<rparr>"

text \<open>Lilu, once its patcher is ready: it calls what was registered.\<close>

definition patcherReady ::
  "'c cpu_if \<Rightarrow> io_lib \<Rightarrow> patcher \<Rightarrow> 'c kernel \<Rightarrow> hypervisor_amd \<Rightarrow> ('c kernel \<times> hypervisor_amd) kresult" where
  "patcherReady hw io p k hv = (if patcherCallback hv then onPatcherLoad hw io p k hv else Some (k, hv))"

definition deinit :: "'c cpu_if \<Rightarrow> 'c kernel \<Rightarrow> hypervisor_amd \<Rightarrow> ('c kernel \<times> hypervisor_amd) kresult" where
  "deinit hw k hv = do {
     (w, be) \<leftarrow> disable hw (k_world k) (fSvm hv);
     Some (k\<lparr>k_world := w\<rparr>, hv\<lparr>fSvm := be\<rparr>)
   }"

text \<open>A trapped instruction of some thread, once a handler routes the fault into the emulator.\<close>

definition onFault ::
  "hde_lib \<Rightarrow> world_switch option \<Rightarrow> amdv_saved_state64 \<Rightarrow> 'c kernel \<times> hypervisor_amd
    \<Rightarrow> ('c kernel \<times> hypervisor_amd) kresult" where
  "onFault lib sw st s = (case s of (k, hv) \<Rightarrow> do {
     (consumed, m, emu, st) \<leftarrow> handleUD lib sw (w_mem (k_world k)) (fVmx hv) st;
     Some (k\<lparr>k_world := (k_world k)\<lparr>w_mem := m\<rparr>\<rparr>, hv\<lparr>fVmx := emu\<rparr>)
   })"

end
