(* ===== verification/HvAmdProps.thy ===== *)
theory HvAmdProps
  imports HvAmd SvmBackendProps VmxEmuProps
begin

text \<open>
  What loading the plugin does to the kernel: nothing unless SVM came up, exactly one routed symbol,
  the latch only on request and only while write protection is lifted; and which calls are safe
  afterwards, before and after the plugin is unloaded.
\<close>

section \<open>Routing\<close>

text \<open>The symbol the loop picks, as a search.\<close>

definition gate_symbol :: "patcher \<Rightarrow> string option" where
  "gate_symbol p = find (\<lambda>s. solveSymbol p s \<noteq> 0 \<and> routeMultiple p s \<noteq> None) kVmxAvailSymbols"

definition gate_events :: "patcher \<Rightarrow> kernel_event list" where
  "gate_events p = (case gate_symbol p of None \<Rightarrow> [] | Some s \<Rightarrow> [Routed s])"

lemma routeGate_find:
  "routeGate p ss k hv =
    (case find (\<lambda>s. solveSymbol p s \<noteq> 0 \<and> routeMultiple p s \<noteq> None) ss of
       None \<Rightarrow> (k, hv)
     | Some s \<Rightarrow> (k_event (Routed s) k, hv\<lparr>orgVmxIsAvailable := the (routeMultiple p s)\<rparr>))"
  by (induction ss) (auto split: option.splits)

section \<open>The latch\<close>

definition latch_events :: "patcher \<Rightarrow> kernel_event list" where
  "latch_events p =
     (let addr = solveSymbol p kHvSupportAvailSymbol in
      if checkKernelArgument p ''-amdvgate'' \<and> addr \<noteq> 0 \<and> setKernelWriting p
      then [KernelWriting True, IntWritten addr 1, KernelWriting False] else [])"

text \<open>The latch, where the kernel has one, is a mapped integer.\<close>

definition latch_mapped :: "patcher \<Rightarrow> 'c kernel \<Rightarrow> bool" where
  "latch_mapped p k \<longleftrightarrow>
     solveSymbol p kHvSupportAvailSymbol = 0 \<or> k_ints k (solveSymbol p kHvSupportAvailSymbol) \<noteq> None"

lemma k_event_simps [simp]:
  "k_world (k_event e k) = k_world k" "k_ints (k_event e k) = k_ints k"
  "k_trace (k_event e k) = k_trace k @ [e]"
  by (simp_all add: k_event_def)

lemma setHvSupportAvailable_spec:
  assumes "latch_mapped p k"
  shows "\<exists>r k'. setHvSupportAvailable p v k = Some (r, k') \<and> k_world k' = k_world k \<and>
    (let addr = solveSymbol p kHvSupportAvailSymbol; wr = addr \<noteq> 0 \<and> setKernelWriting p in
     r = wr
     \<and> k_ints k' = (if wr then (k_ints k)(addr \<mapsto> v) else k_ints k)
     \<and> k_trace k' = k_trace k @
         (if wr then [KernelWriting True, IntWritten addr v, KernelWriting False] else []))"
  using assms by (auto simp: setHvSupportAvailable_def latch_mapped_def Let_def)

section \<open>Loading\<close>

definition bound :: "hypervisor_amd \<Rightarrow> vmx_emulator" where
  "bound hv = emu_bind (fVmx hv) (be_fVmcb (fSvm hv)) (be_fVmcbPA (fSvm hv)) (be_fSvmFeatures (fSvm hv))"

lemma onPatcherLoad_usable:
  assumes det: "fst (detect hw (k_world k) (fSvm hv))"
    and en: "enable hw io (k_world k) (snd (detect hw (k_world k) (fSvm hv))) = Some (True, w, be)"
    and latch: "latch_mapped p k"
  shows "\<exists>k' hv'. onPatcherLoad hw io p k hv = Some (k', hv') \<and> k_world k' = w \<and> fSvm hv' = be
    \<and> fVmx hv' = emu_bind (fVmx hv) (be_fVmcb be) (be_fVmcbPA be) (be_fSvmFeatures be)
    \<and> callbackInst hv' = callbackInst hv
    \<and> k_trace k' = k_trace k @ gate_events p @ latch_events p
    \<and> (\<forall>a. k_ints k' a = (if latch_events p \<noteq> [] \<and> a = solveSymbol p kHvSupportAvailSymbol
                           then Some 1 else k_ints k a))"
proof -
  obtain k1 hv1 where rt: "routeGate p kVmxAvailSymbols (k\<lparr>k_world := w\<rparr>)
      (hv\<lparr>fSvm := snd (detect hw (k_world k) (fSvm hv))\<rparr>\<lparr>fSvm := be\<rparr>) = (k1, hv1)"
    by force
  have 1: "k_world k1 = w" "k_ints k1 = k_ints k" "k_trace k1 = k_trace k @ gate_events p"
      "fSvm hv1 = be" "fVmx hv1 = fVmx hv" "callbackInst hv1 = callbackInst hv"
    using rt by (auto simp: routeGate_find gate_events_def gate_symbol_def split: option.splits)
  have latch1: "latch_mapped p k1"
    using latch by (simp add: latch_mapped_def 1)
  obtain be0 where det': "detect hw (k_world k) (fSvm hv) = (True, be0)"
    using det by (cases "detect hw (k_world k) (fSvm hv)") simp
  have en': "enable hw io (k_world k) be0 = Some (True, w, be)"
    using en by (simp add: det')
  have rt': "routeGate p kVmxAvailSymbols (k\<lparr>k_world := w\<rparr>) (hv\<lparr>fSvm := be\<rparr>) = (k1, hv1)"
    using rt by simp
  show ?thesis
  proof (cases "checkKernelArgument p ''-amdvgate''")
    case True
    from setHvSupportAvailable_spec [OF latch1, of 1] obtain r k2 where
      s: "setHvSupportAvailable p 1 k1 = Some (r, k2)" "k_world k2 = k_world k1"
        "k_ints k2 = (if solveSymbol p kHvSupportAvailSymbol \<noteq> 0 \<and> setKernelWriting p
            then (k_ints k1)(solveSymbol p kHvSupportAvailSymbol \<mapsto> 1) else k_ints k1)"
        "k_trace k2 = k_trace k1 @ (if solveSymbol p kHvSupportAvailSymbol \<noteq> 0 \<and> setKernelWriting p
            then [KernelWriting True, IntWritten (solveSymbol p kHvSupportAvailSymbol) 1, KernelWriting False] else [])"
      by (auto simp: Let_def)
    have "onPatcherLoad hw io p k hv = Some (k2, hv1\<lparr>fVmx := bound hv1\<rparr>)"
      using en' rt' s(1) True by (simp add: onPatcherLoad_def det' bound_def)
    then show ?thesis
      using s True 1 by (auto simp: latch_events_def Let_def bound_def)
  next
    case False
    have "reportHvSupport p k1 = Some ()"
      using latch1 by (auto simp: reportHvSupport_def latch_mapped_def Let_def)
    then have "onPatcherLoad hw io p k hv = Some (k1, hv1\<lparr>fVmx := bound hv1\<rparr>)"
      using en' rt' False by (simp add: onPatcherLoad_def det' bound_def)
    then show ?thesis
      using False 1 by (auto simp: latch_events_def bound_def)
  qed
qed

lemma enable_true:
  assumes "fresh_io io" and "world_ok w" and ok: "enable hw io w be = Some (True, w', be')"
  shows "fEnabled be' \<and> be_fVmcb be' \<noteq> 0 \<and> w_mem w' (be_fVmcb be') \<noteq> None"
  using assms(1,2)
proof (cases rule: enable_cases [of io w hw be])
  case (enabled w1 d pa va w2 d' pa' va' v)
  with ok live_page_new [OF enabled(3)] show ?thesis
    by (auto simp: live_page_def)
qed (use ok in \<open>auto split: option.splits\<close>)

lemma vmcb_page_held:
  assumes "backend_ok w be" and "fEnabled be"
  shows "be_fVmcb be \<in> pages_of w (descs be)"
proof -
  obtain d where d: "fVmcbDesc be = Some d" "live_page w d (be_fVmcbPA be) (be_fVmcb be)"
    using assms unfolding backend_ok_def by blast
  then obtain b k where "w_bufs w d = Some (b, k)" "buf_va b = be_fVmcb be" "be_fVmcb be \<noteq> 0"
    by (auto simp: live_page_def)
  with d(1) show ?thesis
    unfolding pages_of_def
    by (intro CollectI exI [of _ d] exI [of _ b] exI [of _ k]) (simp add: descs_def)
qed

text \<open>Detection succeeds and enabling returns true.\<close>

definition svm_up :: "'c cpu_if \<Rightarrow> io_lib \<Rightarrow> 'c kernel \<Rightarrow> hypervisor_amd \<Rightarrow> bool" where
  "svm_up hw io k hv \<longleftrightarrow>
     (case detect hw (k_world k) (fSvm hv) of (ok, be) \<Rightarrow>
        ok \<and> (case enable hw io (k_world k) be of Some (True, _) \<Rightarrow> True | _ \<Rightarrow> False))"

definition plugin_inv :: "io_lib \<Rightarrow> patcher \<Rightarrow> 'c kernel \<Rightarrow> hypervisor_amd \<Rightarrow> bool" where
  "plugin_inv io p k hv \<longleftrightarrow> backend_inv io (k_world k, fSvm hv) \<and> latch_mapped p k"

lemma svm_upE:
  assumes "svm_up hw io k hv"
  obtains be0 w be where "detect hw (k_world k) (fSvm hv) = (True, be0)"
    and "enable hw io (k_world k) be0 = Some (True, w, be)"
  using assms by (auto simp: svm_up_def split: prod.splits option.splits bool.splits)

lemma onPatcherLoad_unusable:
  assumes inv: "plugin_inv io p k hv" and "\<not> svm_up hw io k hv"
  shows "\<exists>k' hv'. onPatcherLoad hw io p k hv = Some (k', hv') \<and> backend_inv io (k_world k', fSvm hv')
    \<and> k_trace k' = k_trace k \<and> k_ints k' = k_ints k \<and> fVmx hv' = fVmx hv
    \<and> orgVmxIsAvailable hv' = orgVmxIsAvailable hv"
proof -
  obtain ok be0 where d: "detect hw (k_world k) (fSvm hv) = (ok, be0)" by force
  have be0: "backend_ok (k_world k) be0"
    using inv backend_ok_detect [of "k_world k" "fSvm hv" hw] d
    by (simp add: plugin_inv_def backend_inv_def)
  have io: "fresh_io io" "world_ok (k_world k)"
    using inv by (simp_all add: plugin_inv_def backend_inv_def)
  show ?thesis
  proof (cases ok)
    case False
    with d be0 io show ?thesis
      by (simp add: onPatcherLoad_def backend_inv_def)
  next
    case True
    obtain r w be where e: "enable hw io (k_world k) be0 = Some (r, w, be)" "world_ok w" "backend_ok w be"
      using enable_keeps [OF io be0, of hw] by blast
    with assms(2) d True have "\<not> r"
      by (cases r) (auto simp: svm_up_def)
    with d True e io show ?thesis
      by (simp add: onPatcherLoad_def backend_inv_def)
  qed
qed

lemma load_changes:
  assumes "plugin_inv io p k hv" and "onPatcherLoad hw io p k hv = Some (k', hv')"
  shows "k_trace k' = k_trace k @ (if svm_up hw io k hv then gate_events p @ latch_events p else [])"
    and "k_ints k' a = (if svm_up hw io k hv \<and> latch_events p \<noteq> [] \<and> a = solveSymbol p kHvSupportAvailSymbol
                        then Some 1 else k_ints k a)"
proof -
  have "k_trace k' = k_trace k @ (if svm_up hw io k hv then gate_events p @ latch_events p else [])
    \<and> (\<forall>a. k_ints k' a = (if svm_up hw io k hv \<and> latch_events p \<noteq> [] \<and> a = solveSymbol p kHvSupportAvailSymbol
                        then Some 1 else k_ints k a))"
  proof (cases "svm_up hw io k hv")
    case False
    with onPatcherLoad_unusable [OF assms(1) False] assms(2) show ?thesis by auto
  next
    case True
    then obtain be0 w be where "detect hw (k_world k) (fSvm hv) = (True, be0)"
        "enable hw io (k_world k) be0 = Some (True, w, be)"
      by (rule svm_upE)
    moreover have "latch_mapped p k"
      using assms(1) by (simp add: plugin_inv_def)
    ultimately show ?thesis
      using onPatcherLoad_usable [of hw k hv io w be p] assms(2) True by auto
  qed
  then show "k_trace k' = k_trace k @ (if svm_up hw io k hv then gate_events p @ latch_events p else [])"
    and "k_ints k' a = (if svm_up hw io k hv \<and> latch_events p \<noteq> [] \<and> a = solveSymbol p kHvSupportAvailSymbol
                        then Some 1 else k_ints k a)"
    by blast+
qed

text \<open>
  C33: loading the plugin never faults, and changes the running kernel only when SVM came up.
  Then, and only then, the trace gains the routed gate symbol followed by the three steps of the
  latch write (the latter only with \<open>-amdvgate\<close>, a resolvable latch and liftable write protection),
  the latch reads 1 exactly in that case, every other kernel integer keeps its value, and the
  emulator is bound to the VMCB of the enabled backend. Otherwise trace, integers and emulator are
  untouched.
\<close>

theorem load_effects:
  assumes "plugin_inv io p k hv"
  shows "\<exists>k' hv'. onPatcherLoad hw io p k hv = Some (k', hv') \<and>
    (if svm_up hw io k hv then
       k_trace k' = k_trace k @ gate_events p @ latch_events p
       \<and> (\<forall>a. k_ints k' a = (if latch_events p \<noteq> [] \<and> a = solveSymbol p kHvSupportAvailSymbol
                              then Some 1 else k_ints k a))
       \<and> fVmcb (fVmx hv') = be_fVmcb (fSvm hv') \<and> fVmcbPA (fVmx hv') = be_fVmcbPA (fSvm hv')
       \<and> fVmcs (fVmx hv') = fVmcs (fVmx hv) \<and> fEnabled (fSvm hv')
     else k_trace k' = k_trace k \<and> k_ints k' = k_ints k \<and> fVmx hv' = fVmx hv)"
proof (cases "svm_up hw io k hv")
  case False
  with onPatcherLoad_unusable [OF assms this] show ?thesis by auto
next
  case True
  then obtain be0 w be where d: "detect hw (k_world k) (fSvm hv) = (True, be0)"
      and e: "enable hw io (k_world k) be0 = Some (True, w, be)"
    by (rule svm_upE)
  have io: "fresh_io io" "world_ok (k_world k)" and latch: "latch_mapped p k"
    using assms by (simp_all add: plugin_inv_def backend_inv_def)
  have "fEnabled be"
    using enable_true [OF io e] by simp
  with onPatcherLoad_usable [of hw k hv io w be p] d e latch True show ?thesis
    by (fastforce simp: emu_bind_def)
qed

section \<open>A concrete kernel\<close>

definition sample_patcher :: "string list \<Rightarrow> patcher" where
  "sample_patcher args =
     \<lparr>solveSymbol = (\<lambda>s. if s = ''_vmx_hv_support'' then 0x5000
                          else if s = ''_hv_support_available'' then 0x9000 else 0),
      routeMultiple = (\<lambda>s. Some 0x5000), setKernelWriting = True,
      checkKernelArgument = (\<lambda>a. a \<in> set args)\<rparr>"

definition boot_kernel :: "(u32 \<Rightarrow> u64) kernel" where
  "boot_kernel = \<lparr>k_world = boot_world, k_ints = [0x9000 \<mapsto> 0], k_trace = []\<rparr>"

lemma plugin_inv_boot: "plugin_inv (sample_io bad) (sample_patcher args) boot_kernel (init new_hypervisor)"
  by (simp add: plugin_inv_def boot_kernel_def init_def new_hypervisor_def backend_inv_boot
      latch_mapped_def sample_patcher_def kHvSupportAvailSymbol_def)

lemma detect_amd: "detect amd_cpu boot_world new_backend =
    (True, new_backend\<lparr>fSvmRevision := 1, fNumAsids := 0x8000, be_fSvmFeatures := 9\<rparr>)"
  by (simp add: detect_def amdv_cpuid_def amd_cpu_def Let_def hw_consts flag_def rdmsr64_def
      boot_world_def)

lemma sample_enable_detected:
  "\<exists>w be. enable amd_cpu (sample_io {}) boot_world
     (new_backend\<lparr>fSvmRevision := 1, fNumAsids := 0x8000, be_fSvmFeatures := 9\<rparr>) = Some (True, w, be)"
  unfolding enable_def allocContiguousPage_def io_defs boot_world_def sample_io_def new_backend_def
  by (simp add: Let_def rdmsr64_def wrmsr64_def amd_cpu_def EFER_SVME_def flag_def VMCB_SIZE_def)

lemma svm_up_boot: "svm_up amd_cpu (sample_io {}) boot_kernel (init new_hypervisor)"
  using sample_enable_detected
  by (auto simp: svm_up_def boot_kernel_def init_def new_hypervisor_def detect_amd)

lemma sample_load:
  "\<exists>k1 hv1. onPatcherLoad amd_cpu (sample_io {}) (sample_patcher args) boot_kernel (init new_hypervisor)
     = Some (k1, hv1)"
proof -
  have up: "detect amd_cpu (k_world boot_kernel) (fSvm (init new_hypervisor)) =
      (True, new_backend\<lparr>fSvmRevision := 1, fNumAsids := 0x8000, be_fSvmFeatures := 9\<rparr>)"
    by (simp add: boot_kernel_def init_def new_hypervisor_def detect_amd)
  obtain w be where "enable amd_cpu (sample_io {}) (k_world boot_kernel)
      (new_backend\<lparr>fSvmRevision := 1, fNumAsids := 0x8000, be_fSvmFeatures := 9\<rparr>) = Some (True, w, be)"
    using sample_enable_detected by (auto simp: boot_kernel_def)
  moreover have "latch_mapped (sample_patcher args) boot_kernel"
    using plugin_inv_boot [of "{}" args] by (simp add: plugin_inv_def)
  ultimately show ?thesis
    using onPatcherLoad_usable [of amd_cpu boot_kernel "init new_hypervisor" "sample_io {}" w be "sample_patcher args"] up
    by auto
qed

lemma sample_gate: "gate_events (sample_patcher args) = [Routed ''_vmx_hv_support'']"
  by (simp add: gate_events_def gate_symbol_def kVmxAvailSymbols_def sample_patcher_def)

lemma sample_latch:
  "latch_events (sample_patcher [''-amdvgate'']) = [KernelWriting True, IntWritten 0x9000 1, KernelWriting False]"
  by (simp add: latch_events_def kHvSupportAvailSymbol_def sample_patcher_def)

theorem load_effects_witness:
  "\<exists>k' hv'. onPatcherLoad amd_cpu (sample_io {}) (sample_patcher [''-amdvgate'']) boot_kernel (init new_hypervisor)
       = Some (k', hv')
     \<and> k_trace k' = [Routed ''_vmx_hv_support'', KernelWriting True, IntWritten 0x9000 1, KernelWriting False]"
  using load_effects [OF plugin_inv_boot, of amd_cpu "{}" "[''-amdvgate'']"]
  by (auto simp: svm_up_boot sample_gate sample_latch boot_kernel_def [THEN arg_cong, of k_trace])

text \<open>
  the gate loop is a search. It routes the first candidate symbol that both resolves and accepts
  the route, at most one, records the original's address, and changes nothing else of the kernel;
  with no such symbol it changes nothing at all.
\<close>

theorem gate_routing_is_first_match:
  shows "routeGate p kVmxAvailSymbols k hv =
    (let ok = (\<lambda>s. solveSymbol p s \<noteq> 0 \<and> routeMultiple p s \<noteq> None) in
     if ok ''_vmx_hv_support'' then
       (k\<lparr>k_trace := k_trace k @ [Routed ''_vmx_hv_support'']\<rparr>,
        hv\<lparr>orgVmxIsAvailable := the (routeMultiple p ''_vmx_hv_support'')\<rparr>)
     else if ok ''_vmx_is_available'' then
       (k\<lparr>k_trace := k_trace k @ [Routed ''_vmx_is_available'']\<rparr>,
        hv\<lparr>orgVmxIsAvailable := the (routeMultiple p ''_vmx_is_available'')\<rparr>)
     else (k, hv))"
  by (simp add: routeGate_find kVmxAvailSymbols_def k_event_def Let_def)

section \<open>Write protection\<close>

text \<open>
  A monitor over the trace: kernel integers may be written only while write protection is lifted.
  The result is whether it is lifted at the end, \<open>None\<close> a write that was not allowed.
\<close>

fun write_monitor :: "bool \<Rightarrow> kernel_event list \<Rightarrow> bool option" where
  "write_monitor b [] = Some b"
| "write_monitor b (KernelWriting x # es) = write_monitor x es"
| "write_monitor b (IntWritten a v # es) = (if b then write_monitor b es else None)"
| "write_monitor b (Routed s # es) = write_monitor b es"

lemma write_monitor_append:
  "write_monitor b (xs @ ys) = (case write_monitor b xs of None \<Rightarrow> None | Some b' \<Rightarrow> write_monitor b' ys)"
  by (induction b xs rule: write_monitor.induct) auto

lemma write_monitor_load: "write_monitor False (gate_events p @ latch_events p) = Some False"
  by (auto simp: gate_events_def latch_events_def Let_def split: option.splits)

text \<open>
  kernel memory is protected after loading whenever it was before, and every write in between
  happened while the protection was lifted; without \<open>-amdvgate\<close> no kernel integer changes.
\<close>

theorem load_respects_write_protection:
  assumes "plugin_inv io p k hv" and "write_monitor False (k_trace k) = Some False"
  shows "\<exists>k' hv'. onPatcherLoad hw io p k hv = Some (k', hv') \<and> write_monitor False (k_trace k') = Some False
    \<and> (checkKernelArgument p ''-amdvgate'' \<or> k_ints k' = k_ints k)"
proof (cases "svm_up hw io k hv")
  case False
  with onPatcherLoad_unusable [OF assms(1) this] assms(2) show ?thesis by auto
next
  case True
  then obtain be0 w be where d: "detect hw (k_world k) (fSvm hv) = (True, be0)"
      and e: "enable hw io (k_world k) be0 = Some (True, w, be)"
    by (rule svm_upE)
  have "latch_mapped p k"
    using assms(1) by (simp add: plugin_inv_def)
  with onPatcherLoad_usable [of hw k hv io w be p] d e obtain k' hv' where
    l: "onPatcherLoad hw io p k hv = Some (k', hv')" "k_trace k' = k_trace k @ gate_events p @ latch_events p"
      "\<forall>a. k_ints k' a = (if latch_events p \<noteq> [] \<and> a = solveSymbol p kHvSupportAvailSymbol
                              then Some 1 else k_ints k a)"
    by auto
  have "checkKernelArgument p ''-amdvgate'' \<or> latch_events p = []"
    by (simp add: latch_events_def Let_def)
  with l(3) have "checkKernelArgument p ''-amdvgate'' \<or> k_ints k' = k_ints k"
    by auto
  with l assms(2) show ?thesis
    by (simp add: write_monitor_append [of False "k_trace k"] write_monitor_load)
qed

theorem load_respects_write_protection_witness:
  "\<exists>k' hv'. onPatcherLoad amd_cpu (sample_io {}) (sample_patcher []) boot_kernel (init new_hypervisor)
       = Some (k', hv') \<and> write_monitor False (k_trace k') = Some False \<and> k_ints k' = k_ints boot_kernel"
proof -
  have "write_monitor False (k_trace boot_kernel) = Some False"
    by (simp add: boot_kernel_def)
  from load_respects_write_protection [OF plugin_inv_boot this, of amd_cpu "{}" "[]"] show ?thesis
    by (auto simp: sample_patcher_def)
qed

section \<open>Faults after loading\<close>

lemma onFault_step:
  "onFault lib sw st (k, hv) =
     map_option (\<lambda>(m, emu). (k\<lparr>k_world := (k_world k)\<lparr>w_mem := m\<rparr>\<rparr>, hv\<lparr>fVmx := emu\<rparr>))
       (emu_run lib sw st (w_mem (k_world k), fVmx hv))"
  by (cases "handleUD lib sw (w_mem (k_world k)) (fVmx hv) st") (auto simp: onFault_def emu_run_def)

lemma onFault_emu_run:
  "run_calls (onFault lib sw) frames (k, hv) =
     map_option (\<lambda>(m, emu). (k\<lparr>k_world := (k_world k)\<lparr>w_mem := m\<rparr>\<rparr>, hv\<lparr>fVmx := emu\<rparr>))
       (run_calls (emu_run lib sw) frames (w_mem (k_world k), fVmx hv))"
proof (induction frames arbitrary: k hv)
  case Nil
  then show ?case by simp
next
  case (Cons st frames)
  show ?case
    by (cases "emu_run lib sw st (w_mem (k_world k), fVmx hv)")
      (auto simp: onFault_step Cons.IH split: option.splits)
qed

lemma load_emu_inv:
  assumes "plugin_inv io p k hv" and up: "svm_up hw io k hv" and wf: "shadow_wf (fVmcs (fVmx hv))"
    and load: "onPatcherLoad hw io p k hv = Some (k', hv')"
  shows "emu_inv (be_fVmcb (fSvm hv')) (w_mem (k_world k'), fVmx hv')" and "be_fVmcb (fSvm hv') \<noteq> 0"
    and "fVmcb (fVmx hv') = be_fVmcb (fSvm hv')"
proof -
  from up obtain be0 w be where d: "detect hw (k_world k) (fSvm hv) = (True, be0)"
      and e: "enable hw io (k_world k) be0 = Some (True, w, be)"
    by (rule svm_upE)
  have io: "fresh_io io" "world_ok (k_world k)" and latch: "latch_mapped p k"
    using assms(1) by (simp_all add: plugin_inv_def backend_inv_def)
  have 1: "k_world k' = w" "fSvm hv' = be"
      "fVmx hv' = emu_bind (fVmx hv) (be_fVmcb be) (be_fVmcbPA be) (be_fSvmFeatures be)"
    using onPatcherLoad_usable [of hw k hv io w be p] d e latch load by auto
  show "emu_inv (be_fVmcb (fSvm hv')) (w_mem (k_world k'), fVmx hv')" "be_fVmcb (fSvm hv') \<noteq> 0"
    "fVmcb (fVmx hv') = be_fVmcb (fSvm hv')"
    using enable_true [OF io e] wf by (simp_all add: emu_inv_def 1 emu_bind_def)
qed

text \<open>An emulator that is bound to no VMCB leaves the memory alone.\<close>

lemma unbound_keeps_memory:
  assumes "handleUD lib sw m emu st = Some (b, m', emu', st')" and "fVmcb emu = 0"
  shows "m' = m"
  using assms(1) by (rule handleUD_SomeE) (use assms(2) in \<open>auto simp: vmlaunch_no_vmcb\<close>)

lemma faults_outcome:
  assumes "emu_inv q (w_mem (k_world k), fVmx hv)" and "keeps_mapped sw q"
  shows "\<exists>m emu. run_calls (onFault lib sw) frames (k, hv)
      = Some (k\<lparr>k_world := (k_world k)\<lparr>w_mem := m\<rparr>\<rparr>, hv\<lparr>fVmx := emu\<rparr>)
    \<and> emu_inv q (m, emu) \<and> (sw = None \<longrightarrow> (\<forall>a. a \<noteq> q \<or> q = 0 \<longrightarrow> m a = w_mem (k_world k) a))"
proof -
  have inv: "emu_inv q (w_mem (k_world k), fVmx hv) \<and> keeps_mapped sw q"
    using assms by simp
  from emulator_life.calls_safe [OF this, of lib frames] obtain m emu where
    r: "run_calls (emu_run lib sw) frames (w_mem (k_world k), fVmx hv) = Some (m, emu)" "emu_inv q (m, emu)"
    by auto
  have "m a = w_mem (k_world k) a" if sw: "sw = None" and a: "a \<noteq> q \<or> q = 0" for a
  proof -
    have "(\<lambda>s. fst s a) (m, emu) = (\<lambda>s. fst s a) (w_mem (k_world k), fVmx hv)"
    proof (rule emulator_life.calls_observe [OF inv r(1)])
      fix st s s'
      assume "emu_inv q s \<and> keeps_mapped sw q" "emu_run lib sw st s = Some s'"
      then show "fst s' a = fst s a"
        using fault_total [of q "fst s" "snd s" sw lib st] unbound_keeps_memory [of lib sw "fst s" "snd s" st] a sw
        by (auto simp: emu_run_def emu_inv_def)
    qed
    then show ?thesis by simp
  qed
  with r show ?thesis
    by (intro exI [of _ m] exI [of _ emu]) (simp add: onFault_emu_run)
qed

text \<open>
  once the plugin is loaded on a machine where SVM came up, no sequence of trapped
  instructions makes it fault, as long as the world-switch unmaps nothing: the emulator stays
  bound to the backend's VMCB, its shadow VMCS stays well formed, and without guest entry no
  page of the kernel but that VMCB is written.
\<close>

theorem loaded_plugin_survives_faults:
  assumes "plugin_inv io p k hv" and "svm_up hw io k hv" and "shadow_wf (fVmcs (fVmx hv))"
    and "\<forall>q. keeps_mapped sw q" and "onPatcherLoad hw io p k hv = Some (k1, hv1)"
  shows "\<exists>k2 hv2. run_calls (onFault lib sw) frames (k1, hv1) = Some (k2, hv2)
    \<and> fVmcb (fVmx hv2) = be_fVmcb (fSvm hv2) \<and> fSvm hv2 = fSvm hv1
    \<and> w_mem (k_world k2) (be_fVmcb (fSvm hv2)) \<noteq> None \<and> shadow_wf (fVmcs (fVmx hv2))
    \<and> (sw = None \<longrightarrow>
        (\<forall>q. q \<noteq> be_fVmcb (fSvm hv1) \<longrightarrow> w_mem (k_world k2) q = w_mem (k_world k1) q))"
proof -
  note l = load_emu_inv [OF assms(1,2,3,5)]
  obtain m emu where "run_calls (onFault lib sw) frames (k1, hv1)
      = Some (k1\<lparr>k_world := (k_world k1)\<lparr>w_mem := m\<rparr>\<rparr>, hv1\<lparr>fVmx := emu\<rparr>)"
    "emu_inv (be_fVmcb (fSvm hv1)) (m, emu)"
    "sw = None \<longrightarrow> (\<forall>q. q \<noteq> be_fVmcb (fSvm hv1) \<longrightarrow> m q = w_mem (k_world k1) q)"
    using faults_outcome [OF l(1), of sw lib frames] assms(4) by blast
  with l(2) show ?thesis
    by (auto simp: emu_inv_def)
qed

theorem loaded_plugin_survives_faults_witness:
  "\<exists>k1 hv1 k2 hv2. onPatcherLoad amd_cpu (sample_io {}) (sample_patcher []) boot_kernel (init new_hypervisor)
       = Some (k1, hv1)
     \<and> run_calls (onFault sample_vmlaunch None) [sample_frame, sample_frame] (k1, hv1) = Some (k2, hv2)
     \<and> fVmcb (fVmx hv2) = be_fVmcb (fSvm hv2)"
proof -
  obtain k1 hv1 where
    l: "onPatcherLoad amd_cpu (sample_io {}) (sample_patcher []) boot_kernel (init new_hypervisor) = Some (k1, hv1)"
    using sample_load by blast
  have "shadow_wf (fVmcs (fVmx (init new_hypervisor)))"
    by (simp add: init_def new_hypervisor_def new_emulator_def shadow_wf_new)
  moreover have "\<forall>q. keeps_mapped None q"
    by (simp add: keeps_mapped_def)
  ultimately have "\<exists>k2 hv2. run_calls (onFault sample_vmlaunch None) [sample_frame, sample_frame] (k1, hv1) = Some (k2, hv2)
     \<and> fVmcb (fVmx hv2) = be_fVmcb (fSvm hv2)"
    using loaded_plugin_survives_faults [OF plugin_inv_boot svm_up_boot _ _ l, of None sample_vmlaunch "[sample_frame, sample_frame]"]
    by blast
  with l show ?thesis by blast
qed

section \<open>Unloading\<close>

text \<open>
  C34: unloading frees the VMCB but the emulator keeps pointing at it. After \<open>deinit()\<close> the bound
  pointer is non-null and its page is gone, so the next trapped VMLAUNCH or VMRESUME dereferences
  freed memory.
\<close>

theorem unload_leaves_dangling_vmcb:
  assumes "plugin_inv io p k hv" and "svm_up hw io k hv"
    and load: "onPatcherLoad hw io p k hv = Some (k1, hv1)"
    and launch: "decodeVmx lib st = Some d" "dec_op d \<in> {VMXOP_VMLAUNCH, VMXOP_VMRESUME}"
  shows "\<exists>k2 hv2. deinit hw k1 hv1 = Some (k2, hv2) \<and> fVmcb (fVmx hv2) \<noteq> 0
    \<and> w_mem (k_world k2) (fVmcb (fVmx hv2)) = None \<and> onFault lib sw st (k2, hv2) = None"
proof -
  from assms(2) obtain be0 w be where d: "detect hw (k_world k) (fSvm hv) = (True, be0)"
      and e: "enable hw io (k_world k) be0 = Some (True, w, be)"
    by (rule svm_upE)
  have io: "fresh_io io" "world_ok (k_world k)" and latch: "latch_mapped p k"
    and "backend_ok (k_world k) (fSvm hv)"
    using assms(1) by (simp_all add: plugin_inv_def backend_inv_def)
  then have "backend_ok (k_world k) be0"
    using backend_ok_detect [of "k_world k" "fSvm hv" hw] d by simp
  from enable_keeps [OF io this, of hw] e have ok: "backend_ok w be"
    by auto
  have 1: "k_world k1 = w" "fSvm hv1 = be" "fVmcb (fVmx hv1) = be_fVmcb be"
    using onPatcherLoad_usable [of hw k hv io w be p] d e latch load by (auto simp: emu_bind_def)
  have vmcb: "be_fVmcb be \<noteq> 0" and "fEnabled be"
    using enable_true [OF io e] by simp_all
  with ok have gone: "be_fVmcb be \<in> pages_of w (descs be)"
    by (simp add: vmcb_page_held)
  obtain w2 be2 where dis: "disable hw w be = Some (w2, be2)" "w_mem w2 = w_mem w |` (- pages_of w (descs be))"
    using disable_post [OF backend_ok_descs [OF ok], of hw] by simp
  let ?k2 = "k1\<lparr>k_world := w2\<rparr>" and ?hv2 = "hv1\<lparr>fSvm := be2\<rparr>"
  have "deinit hw k1 hv1 = Some (?k2, ?hv2)"
    using dis(1) by (simp add: deinit_def 1)
  moreover have none: "w_mem w2 (fVmcb (fVmx hv1)) = None"
    using gone by (simp add: dis(2) 1(3))
  moreover from none have "vmlaunchResume sw (w_mem w2) (fVmx hv1) = None"
    using vmcb by (simp add: vmlaunchResume_def 1(3))
  then have "onFault lib sw st (?k2, ?hv2) = None"
    using launch by (auto simp: onFault_def handleUD_def)
  ultimately show ?thesis
    using vmcb 1(3) by auto
qed

theorem unload_leaves_dangling_vmcb_witness:
  "\<exists>k1 hv1 k2 hv2. onPatcherLoad amd_cpu (sample_io {}) (sample_patcher []) boot_kernel (init new_hypervisor)
       = Some (k1, hv1)
     \<and> deinit amd_cpu k1 hv1 = Some (k2, hv2) \<and> onFault sample_vmlaunch None sample_frame (k2, hv2) = None"
proof -
  obtain k1 hv1 where
    l: "onPatcherLoad amd_cpu (sample_io {}) (sample_patcher []) boot_kernel (init new_hypervisor) = Some (k1, hv1)"
    using sample_load by blast
  from unload_leaves_dangling_vmcb [where sw = None, OF plugin_inv_boot svm_up_boot l decode_sample_vmlaunch] l show ?thesis
    by (auto simp: new_decoded_def)
qed

text \<open>
  loading and unloading on a machine where SVM came up restores the machine but not the kernel:
  the live buffers and the pages are those of before, SVM is off and \<open>VM_HSAVE_PA\<close> zero, while the
  gate stays routed and the latch keeps the value it was given.
\<close>

theorem unload_restores_machine_not_kernel:
  assumes "plugin_inv io p k hv" and "svm_up hw io k hv" and msr: "msr_laws hw"
    and none: "fHsaveDesc (fSvm hv) = None" "fVmcbDesc (fSvm hv) = None"
    and load: "onPatcherLoad hw io p k hv = Some (k1, hv1)"
  shows "\<exists>k2 hv2. deinit hw k1 hv1 = Some (k2, hv2)
    \<and> w_bufs (k_world k2) = w_bufs (k_world k) \<and> w_mem (k_world k2) = w_mem (k_world k)
    \<and> \<not> svme_set hw (k_world k2) \<and> rdmsr64 hw (k_world k2) MSR_VM_HSAVE_PA = 0
    \<and> k_trace k2 = k_trace k @ gate_events p @ latch_events p \<and> k_ints k2 = k_ints k1"
proof -
  from assms(2) obtain be0 w be where d: "detect hw (k_world k) (fSvm hv) = (True, be0)"
      and e: "enable hw io (k_world k) be0 = Some (True, w, be)"
    by (rule svm_upE)
  have io: "fresh_io io" "world_ok (k_world k)" and latch: "latch_mapped p k"
    using assms(1) by (simp_all add: plugin_inv_def backend_inv_def)
  have "be0 = fSvm hv\<lparr>fSvmRevision := fSvmRevision be0, fNumAsids := fNumAsids be0, be_fSvmFeatures := be_fSvmFeatures be0\<rparr>"
    using detect_frame [of hw "k_world k" "fSvm hv"] d by simp
  from arg_cong [OF this, of fHsaveDesc] arg_cong [OF this, of fVmcbDesc] none
  have "fHsaveDesc be0 = None" "fVmcbDesc be0 = None"
    by simp_all
  from release_after_enable [OF io msr this e] obtain w2 where
    dis: "disable hw w be = Some (w2, disabled_backend be0)" "w_bufs w2 = w_bufs (k_world k)"
      "w_mem w2 = w_mem (k_world k)" "\<not> svme_set hw w2" "rdmsr64 hw w2 MSR_VM_HSAVE_PA = 0"
    by blast
  have "k_world k1 = w" "fSvm hv1 = be" "k_trace k1 = k_trace k @ gate_events p @ latch_events p"
    using onPatcherLoad_usable [of hw k hv io w be p] d e latch load by auto
  with dis show ?thesis
    by (simp add: deinit_def)
qed

theorem unload_restores_machine_not_kernel_witness:
  "\<exists>k1 hv1 k2 hv2. onPatcherLoad amd_cpu (sample_io {}) (sample_patcher [''-amdvgate'']) boot_kernel (init new_hypervisor)
       = Some (k1, hv1)
     \<and> deinit amd_cpu k1 hv1 = Some (k2, hv2) \<and> w_mem (k_world k2) = Map.empty
     \<and> k_trace k2 = [Routed ''_vmx_hv_support'', KernelWriting True, IntWritten 0x9000 1, KernelWriting False]"
proof -
  obtain k1 hv1 where
    l: "onPatcherLoad amd_cpu (sample_io {}) (sample_patcher [''-amdvgate'']) boot_kernel (init new_hypervisor) = Some (k1, hv1)"
    using sample_load by blast
  have "fHsaveDesc (fSvm (init new_hypervisor)) = None" "fVmcbDesc (fSvm (init new_hypervisor)) = None"
    by (simp_all add: init_def new_hypervisor_def new_backend_def)
  from unload_restores_machine_not_kernel [OF plugin_inv_boot svm_up_boot msr_laws_amd this l] l show ?thesis
    by (auto simp: sample_gate sample_latch boot_kernel_def boot_world_def)
qed

end
