(* ===== verification/PluginLife.thy ===== *)
theory PluginLife
  imports HvAmdProps
begin

text \<open>
  The plugin from boot to unload: its entry point in \<^verbatim>\<open>src/kern_start.cpp\<close>, and what
  the phases of its life (start, patcher ready, trapped instructions, unload) guarantee together.
\<close>

section \<open>The entry point\<close>

text \<open>
  What the configuration takes from Lilu and from the build: the run modes, the version number of
  Big Sur, the parser of version strings, and the two strings of the build system. Lilu itself reads
  the record and decides whether to call \<open>pluginStart\<close>.
\<close>

record lilu_if =
  AllowNormal :: u32
  AllowInstallerRecovery :: u32
  BigSur :: nat
  parseModuleVersion :: "string \<Rightarrow> nat"
  PRODUCT_NAME :: string
  MODULE_VERSION :: string

record plugin_configuration =
  product :: string
  version :: nat
  runmode :: u32
  disableArg :: "string list"
  debugArg :: "string list"
  betaArg :: "string list"
  minKernel :: nat
  maxKernel :: nat
  pluginStart :: "hypervisor_amd \<Rightarrow> hypervisor_amd"

definition bootargOff :: "string list" where "bootargOff = [''-amdvoff'']"
definition bootargDebug :: "string list" where "bootargDebug = [''-amdvdbg'']"
definition bootargBeta :: "string list" where "bootargBeta = [''-amdvbeta'']"

definition config :: "lilu_if \<Rightarrow> plugin_configuration" where
  "config lilu = \<lparr>
     product = PRODUCT_NAME lilu,
     version = parseModuleVersion lilu (MODULE_VERSION lilu),
     runmode = AllowNormal lilu OR AllowInstallerRecovery lilu,
     disableArg = bootargOff, debugArg = bootargDebug, betaArg = bootargBeta,
     minKernel = BigSur lilu, maxKernel = BigSur lilu,
     pluginStart = init\<rparr>"

section \<open>What the backend borrows\<close>

text \<open>
  The buffers and pages of a world without those the backend holds: what unloading will leave.
\<close>

definition lent :: "'c world \<Rightarrow> svm_backend \<Rightarrow> (nat \<rightharpoonup> io_buf \<times> bool) \<times> kmem" where
  "lent w be = (w_bufs w |` (- descs be), w_mem w |` (- pages_of w (descs be)))"

lemma lent_nothing: "descs be = {} \<Longrightarrow> lent w be = (w_bufs w, w_mem w)"
  by (simp add: lent_def pages_of_def restrict_map_def)

lemma lent_disabled:
  "disable hw w be = Some (w', be') \<Longrightarrow> descs_ok w be \<Longrightarrow> (w_bufs w', w_mem w') = lent w be"
  by (auto simp: disable_post lent_def)

lemma lent_cpu [simp]: "lent (svme_on hw w) be = lent w be"
  by (simp add: lent_def svme_on_def pages_of_def)

lemma lent_new_buffer:
  assumes "alloc_post w (Some (d, pa, va)) w1" and "world_ok w" and "descs be = {d}"
  shows "lent w1 be = (w_bufs w, w_mem w)"
proof -
  obtain b k p where 1: "w_bufs w1 = (w_bufs w)(d \<mapsto> (b, k))" "w_mem w1 = (w_mem w)(va \<mapsto> p)"
      "buf_va b = va" "w_mem w va = None" "va \<noteq> 0" "d = w_requests w"
    using assms(1) unfolding alloc_post_def live_page_def by auto
  have "w_bufs w d = None"
    using world_okD(1) [OF assms(2), of d] 1(6) by (cases "w_bufs w d") auto
  moreover have "pages_of w1 {d} = {va}"
    using 1(1,3,5) by (auto simp: pages_of_def)
  ultimately show ?thesis
    using 1(4) by (auto simp: lent_def assms(3) 1(1,2) restrict_map_def fun_eq_iff)
qed

text \<open>However \<open>enable()\<close> ends, it has borrowed nothing it does not hold.\<close>

lemma enable_lends:
  assumes io: "fresh_io io" and w: "world_ok w" and none: "descs be = {}"
    and ok: "enable hw io w be = Some (r, w', be')"
  shows "lent w' be' = (w_bufs w, w_mem w)"
  using io w
proof (cases rule: enable_cases [of io w hw be])
  case (no_save_area w1)
  with none ok show ?thesis
    by (simp add: lent_nothing alloc_post_def)
next
  case (no_svme w1 d pa va)
  have "descs (be\<lparr>fHsaveDesc := Some d, fHsavePA := pa\<rparr>) = {d}"
    using none by (simp add: descs_def)
  from lent_new_buffer [OF no_svme(1) w this] no_svme(3) ok show ?thesis by simp
next
  case (no_vmcb w1 d pa va w2)
  let ?be = "be\<lparr>fHsaveDesc := Some d, fHsavePA := pa, be_fVmcb := 0\<rparr>"
  have ds: "descs ?be = {d}"
    using none by (simp add: descs_def)
  have same: "w_bufs w2 = w_bufs w1" "w_mem w2 = w_mem w1"
    using no_vmcb(3) by (simp_all add: alloc_post_def wrmsr64_def svme_on_def)
  have d: "disable hw w2 ?be = Some (w', be')"
    using no_vmcb(4) ok by (simp split: option.splits)
  have "descs_ok w2 ?be"
    using live_page_new [OF no_vmcb(1)] none ds by (auto simp: descs_ok_def live_page_def same descs_def)
  from lent_disabled [OF d this] disable_post [OF this, of hw] d
  have "(w_bufs w', w_mem w') = lent w2 ?be" "be' = disabled_backend ?be"
    by simp_all
  moreover have "lent w2 ?be = lent w1 ?be"
    by (simp add: lent_def same pages_of_def)
  ultimately show ?thesis
    using lent_new_buffer [OF no_vmcb(1) w ds] by (simp add: lent_nothing disabled_backend_def descs_def)
next
  case (enabled w1 d pa va w2 d' pa' va' v)
  have "w' = w2\<lparr>w_mem := (w_mem w2)(va' \<mapsto> init_vmcb v)\<rparr>" "descs be' = {d', d}"
    using ok enabled(6) by (auto simp: descs_def)
  with release_two [OF enabled(1,3) w, of w'] show ?thesis
    by (simp add: lent_def wrmsr64_def svme_on_def)
qed

section \<open>The phases together\<close>

lemma load_outcome:
  assumes inv: "plugin_inv io p k hv" and none: "descs (fSvm hv) = {}"
    and emu: "shadow_wf (fVmcs (fVmx hv))" "fVmcb (fVmx hv) = 0"
  shows "\<exists>k1 hv1 q. onPatcherLoad hw io p k hv = Some (k1, hv1)
    \<and> emu_inv q (w_mem (k_world k1), fVmx hv1) \<and> (q = 0 \<or> q \<in> pages_of (k_world k1) (descs (fSvm hv1)))
    \<and> descs_ok (k_world k1) (fSvm hv1)
    \<and> lent (k_world k1) (fSvm hv1) = (w_bufs (k_world k), w_mem (k_world k))"
proof -
  have io: "fresh_io io" "world_ok (k_world k)" and be: "backend_ok (k_world k) (fSvm hv)"
    and latch: "latch_mapped p k"
    using inv by (simp_all add: plugin_inv_def backend_inv_def)
  obtain ok be0 where d: "detect hw (k_world k) (fSvm hv) = (ok, be0)" by force
  have be0: "backend_ok (k_world k) be0"
    using backend_ok_detect [OF be, of hw] d by simp
  have none0: "descs be0 = {}"
    using none arg_cong [OF detect_frame [of hw "k_world k" "fSvm hv"], of descs] d by (simp add: descs_def)
  obtain r w be where e: "enable hw io (k_world k) be0 = Some (r, w, be)" "world_ok w" "backend_ok w be"
    using enable_keeps [OF io be0, of hw] by blast
  note lent = enable_lends [OF io none0 e(1)]
  have idle: "emu_inv 0 (m, fVmx hv)" for m
    using emu by (simp add: emu_inv_def)
  show ?thesis
  proof (cases "ok \<and> r")
    case True
    with d e(1) have up: "svm_up hw io k hv" by (simp add: svm_up_def)
    obtain k1 hv1 where l: "onPatcherLoad hw io p k hv = Some (k1, hv1)" "k_world k1 = w" "fSvm hv1 = be"
      using onPatcherLoad_usable [of hw k hv io w be p] d e(1) latch True by auto
    have "be_fVmcb be \<in> pages_of w (descs be)"
      using enable_true [OF io] e True by (intro vmcb_page_held) auto
    with l load_emu_inv(1) [OF inv up emu(1) l(1)] lent backend_ok_descs [OF e(3)] show ?thesis
      by fastforce
  next
    case False
    show ?thesis
    proof (cases ok)
      case True
      with False d e(1) have "onPatcherLoad hw io p k hv = Some (k\<lparr>k_world := w\<rparr>, hv\<lparr>fSvm := be\<rparr>)"
        by (simp add: onPatcherLoad_def)
      with idle lent backend_ok_descs [OF e(3)] show ?thesis by fastforce
    next
      case False
      with d have "onPatcherLoad hw io p k hv = Some (k, hv\<lparr>fSvm := be0\<rparr>)"
        by (simp add: onPatcherLoad_def)
      with idle lent_nothing [OF none0] backend_ok_descs [OF be0] show ?thesis by fastforce
    qed
  qed
qed

text \<open>
  C7: the whole life of the plugin. For any CPU, any answers of the allocator that hand out only
  unmapped pages, any answers of Lilu whose latch symbol (if it resolves) is mapped, and any
  world-switch that keeps mapped pages mapped: from the static object the entry point starts, through
  Lilu's patcher call, any sequence of trapped instructions and the unload, nothing faults, wherever
  \<open>enable()\<close> gives up. At the end every buffer that was allocated has been given back. What stays
  behind is exactly what loading did to the kernel when SVM came up: the routed gate and, when the
  latch was written, its value 1; every other kernel integer is what it was. Without guest entry
  every page is what it was.
\<close>

theorem plugin_life_never_faults:
  assumes "fresh_io io" and "world_ok (k_world k)" and "latch_mapped p k" and "\<forall>q. keeps_mapped sw q"
  shows "\<exists>k1 hv1 k2 hv2 k3 hv3.
      patcherReady hw io p k (pluginStart (config lilu) new_hypervisor) = Some (k1, hv1)
    \<and> run_calls (onFault lib sw) frames (k1, hv1) = Some (k2, hv2)
    \<and> deinit hw k2 hv2 = Some (k3, hv3)
    \<and> w_bufs (k_world k3) = w_bufs (k_world k) \<and> descs (fSvm hv3) = {}
    \<and> k_ints k3 = k_ints k1 \<and> k_trace k3 = k_trace k1
    \<and> (let up = svm_up hw io k (pluginStart (config lilu) new_hypervisor) in
         k_trace k3 = k_trace k @ (if up then gate_events p @ latch_events p else [])
       \<and> (\<forall>a. k_ints k3 a = (if up \<and> latch_events p \<noteq> [] \<and> a = solveSymbol p kHvSupportAvailSymbol
                             then Some 1 else k_ints k a)))
    \<and> (sw = None \<longrightarrow> w_mem (k_world k3) = w_mem (k_world k))"
proof -
  let ?hv = "pluginStart (config lilu) new_hypervisor"
  have start: "plugin_inv io p k ?hv" "descs (fSvm ?hv) = {}" "shadow_wf (fVmcs (fVmx ?hv))" "fVmcb (fVmx ?hv) = 0"
    using assms(1-3)
    by (simp_all add: config_def init_def new_hypervisor_def plugin_inv_def backend_inv_def backend_ok_new
        new_emulator_def shadow_wf_new) (simp add: new_backend_def descs_def)
  obtain k1 hv1 q where load: "onPatcherLoad hw io p k ?hv = Some (k1, hv1)"
    and emu: "emu_inv q (w_mem (k_world k1), fVmx hv1)"
    and q: "q = 0 \<or> q \<in> pages_of (k_world k1) (descs (fSvm hv1))" and ok: "descs_ok (k_world k1) (fSvm hv1)"
    and lent: "lent (k_world k1) (fSvm hv1) = (w_bufs (k_world k), w_mem (k_world k))"
    using load_outcome [OF start, of hw] by blast
  have ready: "patcherReady hw io p k ?hv = Some (k1, hv1)"
    using load by (simp add: patcherReady_def config_def init_def)
  note changes = load_changes [OF start(1) load]
  obtain m emu where faults: "run_calls (onFault lib sw) frames (k1, hv1)
      = Some (k1\<lparr>k_world := (k_world k1)\<lparr>w_mem := m\<rparr>\<rparr>, hv1\<lparr>fVmx := emu\<rparr>)"
    and same: "sw = None \<longrightarrow> (\<forall>a. a \<noteq> q \<or> q = 0 \<longrightarrow> m a = w_mem (k_world k1) a)"
    using faults_outcome [OF emu, of sw lib frames] assms(4) by blast
  let ?w = "(k_world k1)\<lparr>w_mem := m\<rparr>"
  have "descs_ok ?w (fSvm hv1)"
    using ok by (simp add: descs_ok_def)
  note disable_post [OF this, of hw]
  moreover have "pages_of ?w ds = pages_of (k_world k1) ds" for ds
    by (simp add: pages_of_def)
  ultimately have un: "deinit hw (k1\<lparr>k_world := ?w\<rparr>) (hv1\<lparr>fVmx := emu\<rparr>)
      = Some (k1\<lparr>k_world := ?w\<lparr>w_cpu := disabled_cpu hw (fSvm hv1) (w_cpu (k_world k1)),
          w_bufs := w_bufs (k_world k1) |` (- descs (fSvm hv1)),
          w_mem := m |` (- pages_of (k_world k1) (descs (fSvm hv1)))\<rparr>\<rparr>,
        hv1\<lparr>fVmx := emu, fSvm := disabled_backend (fSvm hv1)\<rparr>)"
    by (simp add: deinit_def)
  have l: "w_bufs (k_world k1) |` (- descs (fSvm hv1)) = w_bufs (k_world k)"
      "w_mem (k_world k1) |` (- pages_of (k_world k1) (descs (fSvm hv1))) = w_mem (k_world k)"
    using lent by (simp_all add: lent_def)
  have "(m |` (- pages_of (k_world k1) (descs (fSvm hv1)))) a = w_mem (k_world k) a"
    if "sw = None" for a
    using same q that unfolding l(2) [symmetric] by (auto simp: restrict_map_def)
  then have "m |` (- pages_of (k_world k1) (descs (fSvm hv1))) = w_mem (k_world k)" if "sw = None"
    using that by (simp add: fun_eq_iff)
  then show ?thesis
    using ready faults un l(1) changes by (auto simp: disabled_backend_def descs_def Let_def)
qed

definition sample_lilu :: lilu_if where
  "sample_lilu = \<lparr>AllowNormal = 1, AllowInstallerRecovery = 2, BigSur = 20,
     parseModuleVersion = List.length, PRODUCT_NAME = ''AMDV'', MODULE_VERSION = ''0.1''\<rparr>"

theorem plugin_life_never_faults_witness:
  "\<exists>k1 hv1 k2 hv2 k3 hv3.
      patcherReady amd_cpu (sample_io {}) (sample_patcher [''-amdvgate'']) boot_kernel
        (pluginStart (config sample_lilu) new_hypervisor) = Some (k1, hv1)
    \<and> run_calls (onFault sample_vmlaunch None) [sample_frame, sample_frame] (k1, hv1) = Some (k2, hv2)
    \<and> deinit amd_cpu k2 hv2 = Some (k3, hv3)
    \<and> w_mem (k_world k3) = w_mem (k_world boot_kernel)"
proof -
  have p: "world_ok (k_world boot_kernel)" "latch_mapped (sample_patcher [''-amdvgate'']) boot_kernel"
    using plugin_inv_boot [of "{}" "[''-amdvgate'']"] by (simp_all add: plugin_inv_def backend_inv_def)
  have m: "\<forall>q. keeps_mapped None q"
    by (simp add: keeps_mapped_def)
  obtain k1 hv1 k2 hv2 k3 hv3 where
    1: "patcherReady amd_cpu (sample_io {}) (sample_patcher [''-amdvgate'']) boot_kernel
        (pluginStart (config sample_lilu) new_hypervisor) = Some (k1, hv1)"
      "run_calls (onFault sample_vmlaunch None) [sample_frame, sample_frame] (k1, hv1) = Some (k2, hv2)"
      "deinit amd_cpu k2 hv2 = Some (k3, hv3)"
    and 2: "w_mem (k_world k3) = w_mem (k_world boot_kernel)"
    using plugin_life_never_faults [OF fresh_sample_io p m, of amd_cpu "{}" sample_lilu sample_vmlaunch
        "[sample_frame, sample_frame]"] by blast
  then show ?thesis by blast
qed

end
