(* ===== verification/MultiCpu.thy ===== *)
theory MultiCpu
  imports PluginLife WorldSwitchProps
begin

text \<open>
  Several processors. The MSRs that \<open>SvmBackend\<close> writes exist once per processor, while the class
  keeps one \<open>fEnabled\<close> and runs wherever Lilu or the kernel happens to call it. The theory runs the
  code of the backend on one processor of many and shows what that means for the others.
\<close>

section \<open>The backend on one processor\<close>

text \<open>
  The interface of a machine with processors \<open>0, 1, \<dots>\<close> as code running on number \<open>i\<close> sees it:
  \<open>rdmsr\<close> and \<open>wrmsr\<close> reach the registers of that processor only.
\<close>

definition on_cpu :: "nat \<Rightarrow> 'c cpu_if \<Rightarrow> (nat \<Rightarrow> 'c) cpu_if" where
  "on_cpu i hw =
     \<lparr>hw_cpuid = hw_cpuid hw, hw_rdmsr = (\<lambda>c r. hw_rdmsr hw (c i) r),
      hw_wrmsr = (\<lambda>c r v. c(i := hw_wrmsr hw (c i) r v))\<rparr>"

lemma on_cpu_simps [simp]:
  "hw_rdmsr (on_cpu i hw) c r = hw_rdmsr hw (c i) r"
  "hw_wrmsr (on_cpu i hw) c r v = c(i := hw_wrmsr hw (c i) r v)"
  "rdmsr64 (on_cpu i hw) w r = hw_rdmsr hw (w_cpu w i) r"
  by (simp_all add: on_cpu_def rdmsr64_def)

lemma msr_laws_on_cpu: "msr_laws hw \<Longrightarrow> msr_laws (on_cpu i hw)"
  by (simp add: msr_laws_def)

lemma svme_set_on_cpu: "svme_set (on_cpu i hw) w \<longleftrightarrow> bit (hw_rdmsr hw (w_cpu w i) MSR_EFER) 12"
  by (simp add: svme_set_iff)

lemma svme_on_other: "j \<noteq> i \<Longrightarrow> w_cpu (svme_on (on_cpu i hw) w) j = w_cpu w j"
  by (simp add: svme_on_def wrmsr64_def)

lemma disabled_cpu_other: "j \<noteq> i \<Longrightarrow> disabled_cpu (on_cpu i hw) be c j = c j"
  by (simp add: disabled_cpu_def)

text \<open>A successful \<open>enable()\<close> arms the processor it ran on and leaves the registers of the others.\<close>

lemma enable_on_cpu:
  assumes io: "fresh_io io" and w: "world_ok w" and msr: "msr_laws hw"
    and ok: "enable (on_cpu i hw) io w be = Some (True, w', be')"
  shows "svme_set (on_cpu i hw) w'" and "rdmsr64 (on_cpu i hw) w' MSR_VM_HSAVE_PA = fHsavePA be'"
    and "fHsavePA be' \<noteq> 0" and "j \<noteq> i \<Longrightarrow> w_cpu w' j = w_cpu w j"
proof -
  have "svme_set (on_cpu i hw) w' \<and> rdmsr64 (on_cpu i hw) w' MSR_VM_HSAVE_PA = fHsavePA be'
    \<and> fHsavePA be' \<noteq> 0 \<and> (j \<noteq> i \<longrightarrow> w_cpu w' j = w_cpu w j)"
    using io w
  proof (cases rule: enable_cases [of io w "on_cpu i hw" be])
    case (enabled w1 d pa va w2 d' pa' va' v)
    have w': "w_cpu w' = w_cpu w2" and be': "fHsavePA be' = pa"
      using ok enabled(6) by auto
    have cpu: "w_cpu w2 = hw_wrmsr (on_cpu i hw) (w_cpu (svme_on (on_cpu i hw) w1)) MSR_VM_HSAVE_PA pa"
      using enabled(3) by (simp add: alloc_post_def wrmsr64_def)
    have "svme_set (on_cpu i hw) w'" "rdmsr64 (on_cpu i hw) w' MSR_VM_HSAVE_PA = pa"
      using msr enabled(2) by (simp_all add: w' cpu svme_set_iff msr_laws_def MSR_EFER_def MSR_VM_HSAVE_PA_def)
    moreover have "pa \<noteq> 0"
      using live_page_new [OF enabled(1)] by (simp add: live_page_def)
    moreover have "w_cpu w' j = w_cpu w j" if "j \<noteq> i"
      using that enabled(1) by (simp add: w' cpu svme_on_other alloc_post_def)
    ultimately show ?thesis
      by (simp add: be')
  qed (use ok in \<open>auto split: option.splits\<close>)
  then show "svme_set (on_cpu i hw) w'" "rdmsr64 (on_cpu i hw) w' MSR_VM_HSAVE_PA = fHsavePA be'"
    "fHsavePA be' \<noteq> 0" "j \<noteq> i \<Longrightarrow> w_cpu w' j = w_cpu w j"
    by simp_all
qed

section \<open>A launch on another processor\<close>

text \<open>The processor that executes the world-switch honours SVM instructions as its \<open>EFER\<close> says.\<close>

definition runs_on :: "'h svm_cpu \<Rightarrow> nat \<Rightarrow> 'c cpu_if \<Rightarrow> (nat \<Rightarrow> 'c) world \<Rightarrow> bool" where
  "runs_on cpu j hw w \<longleftrightarrow> (cpu_svme cpu \<longleftrightarrow> svme_set (on_cpu j hw) w)"

text \<open>
  C32: \<open>enable()\<close> makes one processor fit for guests, not the machine. After it has returned true on
  processor \<open>i\<close>, the world-switch never gets past its first SVM instruction on a processor \<open>j\<close> that
  did not have \<open>EFER.SVME\<close> set before, whatever the host's registers, the VMCB and the guest are: a
  launch there faults in the kernel, although the backend counts as enabled and the emulator is
  bound. On \<open>i\<close> itself SVM is on and \<open>VM_HSAVE_PA\<close> holds the save area.
\<close>

theorem enable_arms_one_cpu:
  assumes "fresh_io io" and "world_ok w" and "msr_laws hw"
    and "enable (on_cpu i hw) io w be = Some (True, w', be')"
    and "j \<noteq> i" and "\<not> svme_set (on_cpu j hw) w" and "runs_on cpu j hw w'"
  shows "svme_set (on_cpu i hw) w' \<and> rdmsr64 (on_cpu i hw) w' MSR_VM_HSAVE_PA = fHsavePA be'
    \<and> rdmsr64 (on_cpu j hw) w' MSR_VM_HSAVE_PA = rdmsr64 (on_cpu j hw) w MSR_VM_HSAVE_PA
    \<and> asm_switch cpu host pa gp m = None"
proof -
  note e = enable_on_cpu [OF assms(1-4)]
  have "\<not> cpu_svme cpu"
    using assms(6,7) e(4) [OF assms(5)] by (simp add: runs_on_def svme_set_on_cpu)
  with e(1,2) e(4) [OF assms(5)] show ?thesis
    by (simp add: world_switch_needs_svme)
qed

section \<open>Unloading on another processor\<close>

text \<open>
  C31: \<open>disable()\<close> undoes \<open>enable()\<close> only on the processor that enabled. When loading ran on processor
  \<open>i\<close> and unloading runs on another one, both pages are given back and the backend is empty again,
  but processor \<open>i\<close> keeps \<open>EFER.SVME\<close> set and its \<open>VM_HSAVE_PA\<close> still names the page that was just
  freed, to which the next VMRUN on it would save the host state.
\<close>

theorem unload_on_other_cpu_leaves_svme_on:
  assumes "fresh_io io" and "world_ok w" and "backend_ok w be" and "descs be = {}" and "msr_laws hw"
    and "enable (on_cpu i hw) io w be = Some (True, w1, be1)" and "j \<noteq> i"
  shows "\<exists>w2. disable (on_cpu j hw) w1 be1 = Some (w2, disabled_backend be1)
    \<and> w_bufs w2 = w_bufs w \<and> w_mem w2 = w_mem w
    \<and> svme_set (on_cpu i hw) w2
    \<and> rdmsr64 (on_cpu i hw) w2 MSR_VM_HSAVE_PA = fHsavePA be1 \<and> fHsavePA be1 \<noteq> 0"
proof -
  note e = enable_on_cpu [OF assms(1,2,5,6)]
  have "backend_ok w1 be1"
    using enable_keeps [OF assms(1-3), of "on_cpu i hw"] assms(6) by auto
  note ok = backend_ok_descs [OF this]
  note dis = disable_post [OF ok, of "on_cpu j hw"]
  let ?w2 = "w1\<lparr>w_cpu := disabled_cpu (on_cpu j hw) be1 (w_cpu w1), w_bufs := w_bufs w1 |` (- descs be1),
      w_mem := w_mem w1 |` (- pages_of w1 (descs be1))\<rparr>"
  have "w_bufs ?w2 = w_bufs w" "w_mem ?w2 = w_mem w"
    using enable_lends [OF assms(1,2,4,6)] by (simp_all add: lent_def)
  moreover have "w_cpu ?w2 i = w_cpu w1 i"
    using assms(7) by (simp add: disabled_cpu_other)
  then have "svme_set (on_cpu i hw) ?w2" "rdmsr64 (on_cpu i hw) ?w2 MSR_VM_HSAVE_PA = fHsavePA be1"
    using e(1,2) by (simp_all add: svme_set_on_cpu)
  ultimately show ?thesis
    using dis e(3) by (intro exI [of _ ?w2]) simp
qed

section \<open>A machine with two processors\<close>

definition two_cpus :: "(nat \<Rightarrow> u32 \<Rightarrow> u64) world" where
  "two_cpus = \<lparr>w_cpu = (\<lambda>_ _. 0), w_requests = 0, w_bufs = Map.empty, w_mem = Map.empty\<rparr>"

lemma two_cpus_enabled:
  "\<exists>w' be'. enable (on_cpu 0 amd_cpu) (sample_io {}) two_cpus new_backend = Some (True, w', be')"
  unfolding enable_def allocContiguousPage_def io_defs two_cpus_def sample_io_def new_backend_def
  by (simp add: Let_def wrmsr64_def amd_cpu_def EFER_SVME_def flag_def VMCB_SIZE_def)

lemma two_cpus_ok: "world_ok two_cpus" "\<not> svme_set (on_cpu 1 amd_cpu) two_cpus"
  by (simp_all add: world_ok_def two_cpus_def svme_set_on_cpu amd_cpu_def)

theorem enable_arms_one_cpu_witness:
  "\<exists>w' be'. enable (on_cpu 0 amd_cpu) (sample_io {}) two_cpus new_backend = Some (True, w', be')
    \<and> svme_set (on_cpu 0 amd_cpu) w' \<and> asm_switch (sample_cpu False) sample_host 0x2000 zero_gprs Map.empty = None"
proof -
  obtain w' be' where e: "enable (on_cpu 0 amd_cpu) (sample_io {}) two_cpus new_backend = Some (True, w', be')"
    using two_cpus_enabled by blast
  have "w_cpu w' 1 = w_cpu two_cpus 1"
    using enable_on_cpu(4) [OF fresh_sample_io two_cpus_ok(1) msr_laws_amd e, of 1] by simp
  then have "runs_on (sample_cpu False) 1 amd_cpu w'"
    using two_cpus_ok(2) by (simp add: runs_on_def svme_set_on_cpu sample_cpu_svme)
  from enable_arms_one_cpu [OF fresh_sample_io two_cpus_ok(1) msr_laws_amd e _ two_cpus_ok(2) this] e show ?thesis
    by auto
qed

theorem unload_on_other_cpu_leaves_svme_on_witness:
  "\<exists>w1 be1 w2. enable (on_cpu 0 amd_cpu) (sample_io {}) two_cpus new_backend = Some (True, w1, be1)
    \<and> disable (on_cpu 1 amd_cpu) w1 be1 = Some (w2, disabled_backend be1)
    \<and> svme_set (on_cpu 0 amd_cpu) w2 \<and> w_mem w2 = Map.empty"
proof -
  obtain w1 be1 where e: "enable (on_cpu 0 amd_cpu) (sample_io {}) two_cpus new_backend = Some (True, w1, be1)"
    using two_cpus_enabled by blast
  have "descs new_backend = {}"
    by (simp add: descs_def new_backend_def)
  moreover have "w_mem two_cpus = Map.empty"
    by (simp add: two_cpus_def)
  ultimately show ?thesis
    using unload_on_other_cpu_leaves_svme_on [OF fresh_sample_io two_cpus_ok(1) backend_ok_new _ msr_laws_amd e, of 1] e
    by auto
qed

end
