(* ===== verification/Interleave.thy ===== *)
theory Interleave
  imports AmdvPrelude
begin

text \<open>
  Calls of several processors on shared state: every call is a small-step function on its own place
  in the code and the shared state, and a schedule names the processor of every step.
\<close>

section \<open>Repeated steps of one call\<close>

lemma run_steps_add: "(f ^^ m) x = y \<Longrightarrow> (f ^^ n) y = z \<Longrightarrow> (f ^^ (m + n)) x = z"
  by (simp add: add.commute [of m] funpow_add)

lemma run_steps_stay: "(f ^^ m) x = y \<Longrightarrow> f y = y \<Longrightarrow> m \<le> n \<Longrightarrow> (f ^^ n) x = y"
proof (induction n)
  case (Suc n)
  then show ?case
    by (cases "m = Suc n") simp_all
qed simp

section \<open>Schedules\<close>

fun run_threads ::
  "(nat \<Rightarrow> 'p \<times> 's \<Rightarrow> 'p \<times> 's) \<Rightarrow> nat list \<Rightarrow> (nat \<Rightarrow> 'p) \<times> 's \<Rightarrow> (nat \<Rightarrow> 'p) \<times> 's" where
  "run_threads step [] st = st"
| "run_threads step (t # ts) (pcs, s) =
     (case step t (pcs t, s) of (p, s') \<Rightarrow> run_threads step ts (pcs(t := p), s'))"

lemma run_threads_append: "run_threads step (xs @ ys) st = run_threads step ys (run_threads step xs st)"
  by (induction step xs st rule: run_threads.induct) (auto split: prod.split)

lemma run_threads_alone:
  "run_threads step (replicate n t) (pcs, s) =
     (case (step t ^^ n) (pcs t, s) of (p, s') \<Rightarrow> (pcs(t := p), s'))"
proof (induction n arbitrary: pcs s)
  case 0
  show ?case by (simp add: fun_eq_iff)
next
  case (Suc n)
  then show ?case
    by (simp add: funpow_Suc_right fun_eq_iff del: funpow.simps split: prod.split)
qed

text \<open>
  What a thread does beside threads that leave the shared state alone: exactly what it does alone,
  for as many steps as the schedule gives it. \<open>quiet\<close> are the places the other threads can be in.
\<close>

lemma run_threads_beside:
  assumes "\<And>u p s. u \<noteq> t \<Longrightarrow> quiet p \<Longrightarrow> quiet (fst (step u (p, s))) \<and> snd (step u (p, s)) = s"
    and "\<forall>u. u \<noteq> t \<longrightarrow> quiet (pcs u)"
  shows "(case run_threads step ts (pcs, s) of (pcs', s') \<Rightarrow> (pcs' t, s')) =
    (step t ^^ count_list ts t) (pcs t, s)"
  using assms(2)
proof (induction ts arbitrary: pcs s)
  case Nil
  show ?case by simp
next
  case (Cons u ts)
  obtain p s' where step: "step u (pcs u, s) = (p, s')" by force
  show ?case
  proof (cases "u = t")
    case True
    with Cons.IH [of "pcs(u := p)" s'] Cons.prems step show ?thesis
      by (simp add: funpow_swap1 fun_upd_def)
  next
    case False
    with assms(1) [of u "pcs u" s] Cons.prems step have "s' = s" "quiet p" by simp_all
    with Cons.IH [of "pcs(u := p)" s'] Cons.prems step False show ?thesis
      by (simp add: fun_upd_def)
  qed
qed

text \<open>
  A thread whose every step lowers a bound, while an invariant of the shared state holds that every
  step of every thread keeps, has lowered it by as much as it was scheduled.
\<close>

lemma run_threads_left:
  assumes mine: "\<And>p s p' s' n. ok s \<Longrightarrow> left p n \<Longrightarrow> step t (p, s) = (p', s') \<Longrightarrow> left p' (n - (1 :: nat))"
    and all: "\<And>u p s. ok s \<Longrightarrow> ok (snd (step u (p, s)))"
    and "ok s" and "left (pcs t) n"
  shows "left (fst (run_threads step ts (pcs, s)) t) (n - count_list ts t)"
  using assms(3,4)
proof (induction ts arbitrary: pcs s n)
  case Nil
  then show ?case by simp
next
  case (Cons u ts)
  obtain p s' where step: "step u (pcs u, s) = (p, s')" by force
  have next_ok: "ok s'"
    using all [OF Cons.prems(1), of u "pcs u"] step by simp
  show ?case
  proof (cases "u = t")
    case True
    with mine [OF Cons.prems] step have "left ((pcs(u := p)) t) (n - 1)" by simp
    from Cons.IH [of s' "pcs(u := p)", OF next_ok this] step True show ?thesis by (simp add: fun_upd_def)
  next
    case False
    with Cons.prems(2) have "left ((pcs(u := p)) t) n" by simp
    from Cons.IH [of s' "pcs(u := p)", OF next_ok this] step False show ?thesis by (simp add: fun_upd_def)
  qed
qed

section \<open>Invariants of every interleaving\<close>

locale shared_calls =
  fixes step :: "nat \<Rightarrow> 'p \<times> 's \<Rightarrow> 'p \<times> 's"
    and inv :: "(nat \<Rightarrow> 'p) \<times> 's \<Rightarrow> bool"
  assumes step_keeps: "inv (pcs, s) \<Longrightarrow> step t (pcs t, s) = (p, s') \<Longrightarrow> inv (pcs(t := p), s')"
begin

lemma run_keeps: "inv st \<Longrightarrow> inv (run_threads step ts st)"
proof (induction ts arbitrary: st)
  case Nil
  then show ?case by simp
next
  case (Cons t ts)
  obtain pcs s where st: "st = (pcs, s)" by force
  obtain p s' where step: "step t (pcs t, s) = (p, s')" by force
  from step_keeps [OF Cons.prems [unfolded st] this] Cons.IH show ?case
    by (simp add: st step)
qed

end

end
