(* ===== verification/StoreRaces.thy ===== *)
theory StoreRaces
  imports ShadowProps Interleave
begin

text \<open>
  The methods \<open>ShadowVMCS::read\<close> and \<open>ShadowVMCS::write\<close> of \<^verbatim>\<open>src/kern_vmcs_vmcb.cpp\<close>
  as threads of several processors execute them: one access to the shared members per step, no lock.
  A call that runs alone is the function of \<^verbatim>\<open>ShadowVmcs\<close>; readers are safe beside one writer; two
  writers are not.
\<close>

section \<open>The methods, one shared access at a time\<close>

text \<open>
  Where a call stands. \<open>Test i\<close> is the loop condition, \<open>Cmp i\<close> the comparison of the encoding. An
  append loads \<open>count\<close> ahead of each of its two stores into the slot, and \<open>count++\<close> is a load and a
  store; \<open>EncAt\<close>, \<open>ValAt\<close> and \<open>Raise\<close> hold what was loaded. \<open>Fault\<close> is an access to \<open>fields\<close> outside
  the array.
\<close>

datatype pc =
    Test nat
  | Cmp nat
  | Hit nat
  | Room
  | PutEnc
  | EncAt nat
  | PutVal
  | ValAt nat
  | Bump
  | Raise nat
  | Value u64
  | Done bool
  | Fault

definition at_slot :: "shadow_vmcs \<Rightarrow> nat \<Rightarrow> pc \<times> shadow_vmcs \<Rightarrow> pc \<times> shadow_vmcs" where
  "at_slot s i r = (if i < length (slots s) then r else (Fault, s))"

fun read_step :: "u32 \<Rightarrow> pc \<times> shadow_vmcs \<Rightarrow> pc \<times> shadow_vmcs" where
  "read_step e (Test i, s) = (if i < count s then Cmp i else Value 0, s)"
| "read_step e (Cmp i, s) = at_slot s i (if enc (slots s ! i) = e then Hit i else Test (Suc i), s)"
| "read_step e (Hit i, s) = at_slot s i (Value (val (slots s ! i)), s)"
| "read_step e (p, s) = (p, s)"

fun write_step :: "u32 \<Rightarrow> u64 \<Rightarrow> pc \<times> shadow_vmcs \<Rightarrow> pc \<times> shadow_vmcs" where
  "write_step e v (Test i, s) = (if i < count s then Cmp i else Room, s)"
| "write_step e v (Cmp i, s) = at_slot s i (if enc (slots s ! i) = e then Hit i else Test (Suc i), s)"
| "write_step e v (Hit i, s) =
     at_slot s i (Done True, s\<lparr>slots := (slots s)[i := (slots s ! i)\<lparr>val := v\<rparr>]\<rparr>)"
| "write_step e v (Room, s) = (if count s \<ge> MaxFields then Done False else PutEnc, s)"
| "write_step e v (PutEnc, s) = (EncAt (count s), s)"
| "write_step e v (EncAt i, s) =
     at_slot s i (PutVal, s\<lparr>slots := (slots s)[i := (slots s ! i)\<lparr>enc := e\<rparr>]\<rparr>)"
| "write_step e v (PutVal, s) = (ValAt (count s), s)"
| "write_step e v (ValAt i, s) =
     at_slot s i (Bump, s\<lparr>slots := (slots s)[i := (slots s ! i)\<lparr>val := v\<rparr>]\<rparr>)"
| "write_step e v (Bump, s) = (Raise (count s), s)"
| "write_step e v (Raise i, s) = (Done True, s\<lparr>count := Suc i\<rparr>)"
| "write_step e v (p, s) = (p, s)"

datatype store_op = ReadOp u32 | WriteOp u32 u64

primrec op_step :: "store_op \<Rightarrow> pc \<times> shadow_vmcs \<Rightarrow> pc \<times> shadow_vmcs" where
  "op_step (ReadOp e) = read_step e"
| "op_step (WriteOp e v) = write_step e v"

text \<open>Threads numbered by \<open>nat\<close>, each with its call.\<close>

abbreviation run_sched ::
  "(nat \<Rightarrow> store_op) \<Rightarrow> nat list \<Rightarrow> (nat \<Rightarrow> pc) \<times> shadow_vmcs \<Rightarrow> (nat \<Rightarrow> pc) \<times> shadow_vmcs" where
  "run_sched ops \<equiv> run_threads (\<lambda>t. op_step (ops t))"

section \<open>A call that runs alone\<close>

lemma at_slot [simp]:
  "i < length (slots s) \<Longrightarrow> at_slot s i r = r"
  "length (slots s) \<le> i \<Longrightarrow> at_slot s i r = (Fault, s)"
  by (simp_all add: at_slot_def)

text \<open>The loop leaves the store alone, and ends at the slot \<open>find_slot\<close> finds or behind the last.\<close>

lemma search_steps:
  assumes "i \<le> count s" and inside: "count s \<le> length (slots s)"
    and step: "\<And>i. f (Test i, s) = (if i < count s then Cmp i else out, s)"
    "\<And>i. f (Cmp i, s) = at_slot s i (if enc (slots s ! i) = e then Hit i else Test (Suc i), s)"
  shows "\<exists>n \<le> 2 * (count s - i) + 1.
    (f ^^ n) (Test i, s) = (case find_slot s e i of None \<Rightarrow> out | Some k \<Rightarrow> Hit k, s)"
  using assms(1)
proof (induction "count s - i" arbitrary: i)
  case 0
  then have "f (Test i, s) = (out, s)" and "find_slot s e i = None"
    by (simp_all add: step find_slot.simps [of s e i])
  then show ?case
    by (intro exI [of _ 1]) simp
next
  case (Suc d)
  then have i: "i < count s" "i < length (slots s)" using inside by simp_all
  show ?case
  proof (cases "enc (slots s ! i) = e")
    case True
    with i have "(f ^^ 2) (Test i, s) = (Hit i, s)"
      by (simp add: numeral_2_eq_2 step)
    with True i show ?thesis
      by (intro exI [of _ 2]) (simp add: find_slot.simps [of s e i])
  next
    case False
    with i have two: "(f ^^ 2) (Test i, s) = (Test (Suc i), s)"
      by (simp add: numeral_2_eq_2 step)
    have "d = count s - Suc i" and "Suc i \<le> count s"
      using Suc.hyps(2) i by simp_all
    from Suc.hyps(1) [OF this] obtain n where n: "n \<le> 2 * (count s - Suc i) + 1"
      "(f ^^ n) (Test (Suc i), s) = (case find_slot s e (Suc i) of None \<Rightarrow> out | Some k \<Rightarrow> Hit k, s)"
      by blast
    have "find_slot s e i = find_slot s e (Suc i)"
      using False i by (simp add: find_slot.simps [of s e i])
    with run_steps_add [OF two n(2)] n(1) i show ?thesis
      by (intro exI [of _ "2 + n"]) simp
  qed
qed

lemma read_search:
  "count s \<le> length (slots s) \<Longrightarrow> \<exists>n \<le> 2 * count s + 1. (read_step e ^^ n) (Test 0, s) =
     (case find_slot s e 0 of None \<Rightarrow> Value 0 | Some k \<Rightarrow> Hit k, s)"
  using search_steps [of 0 s "read_step e" "Value 0" e] by simp

lemma write_search:
  "count s \<le> length (slots s) \<Longrightarrow> \<exists>n \<le> 2 * count s + 1. (write_step e v ^^ n) (Test 0, s) =
     (case find_slot s e 0 of None \<Rightarrow> Room | Some k \<Rightarrow> Hit k, s)"
  using search_steps [of 0 s "write_step e v" Room e] by simp

text \<open>The two stores into the slot behind the last one, and the slot they leave.\<close>

lemma overwritten_slot: "f\<lparr>enc := e, val := v\<rparr> = \<lparr>enc = e, val = v\<rparr>"
  by (cases f) simp

lemma append_slot:
  "xs[i := (xs[i := (xs ! i)\<lparr>enc := e\<rparr>] ! i)\<lparr>val := v\<rparr>] = xs[i := \<lparr>enc = e, val = v\<rparr>]"
  by (cases "i < length xs") (simp_all add: overwritten_slot list_update_beyond)

text \<open>
  a call that no other processor disturbs is atomic. \<open>read\<close> and \<open>write\<close>, executed one access to
  the shared members at a time, return within \<open>2 count + 8\<close> steps with the value, the flag and the
  store of the functions of the model, on any well-formed store and for any encoding.
\<close>

theorem lone_calls_are_atomic:
  assumes "shadow_wf s"
  shows "(\<exists>n \<le> 2 * count s + 2. (read_step e ^^ n) (Test 0, s) = (Value (shadow_read s e), s))
   \<and> (\<exists>n \<le> 2 * count s + 8. (write_step e v ^^ n) (Test 0, s) =
        (Done (fst (shadow_write s e v)), snd (shadow_write s e v)))"
proof -
  have len: "count s \<le> length (slots s)" "MaxFields = length (slots s)"
    using assms by (simp_all add: shadow_wf_def)
  have hit: "k < length (slots s)" if "find_slot s e 0 = Some k" for k
    using that len(1) by (simp add: find_slot_Some_iff)
  obtain n where n: "n \<le> 2 * count s + 1" "(read_step e ^^ n) (Test 0, s) =
     (case find_slot s e 0 of None \<Rightarrow> Value 0 | Some k \<Rightarrow> Hit k, s)"
    using read_search [OF len(1)] by blast
  have "(read_step e ^^ 1) (case find_slot s e 0 of None \<Rightarrow> Value 0 | Some k \<Rightarrow> Hit k, s) = (Value (shadow_read s e), s)"
    using len hit by (simp add: shadow_read_def split: option.split)
  from run_steps_add [OF n(2) this] n(1)
  have one: "\<exists>n \<le> 2 * count s + 2. (read_step e ^^ n) (Test 0, s) = (Value (shadow_read s e), s)"
    by (intro exI [of _ "n + 1"]) simp
  obtain n where n: "n \<le> 2 * count s + 1" "(write_step e v ^^ n) (Test 0, s) =
     (case find_slot s e 0 of None \<Rightarrow> Room | Some k \<Rightarrow> Hit k, s)"
    using write_search [OF len(1)] by blast
  have "(write_step e v ^^ 7) (case find_slot s e 0 of None \<Rightarrow> Room | Some k \<Rightarrow> Hit k, s) =
      (Done (fst (shadow_write s e v)), snd (shadow_write s e v))"
    using len hit by (simp add: shadow_write_def eval_nat_numeral overwritten_slot split: option.split)
  from run_steps_add [OF n(2) this] n(1)
  have "\<exists>n \<le> 2 * count s + 8. (write_step e v ^^ n) (Test 0, s) =
      (Done (fst (shadow_write s e v)), snd (shadow_write s e v))"
    by (intro exI [of _ "n + 7"]) simp
  with one show ?thesis by blast
qed

theorem lone_calls_are_atomic_witness:
  "\<exists>n \<le> 2. (read_step 0x681E ^^ n) (Test 0, new_shadow) = (Value (shadow_read new_shadow 0x681E), new_shadow)"
proof -
  have "2 * count new_shadow + 2 = 2"
    by (simp add: new_shadow_def)
  then show ?thesis
    using lone_calls_are_atomic [OF shadow_wf_new, of "0x681E" 7] by (simp only:)
qed

section \<open>Readers beside one writer\<close>

text \<open>What a call knows at each point: what it has ruled out, found, or already stored.\<close>

definition absent_below :: "u32 \<Rightarrow> nat \<Rightarrow> shadow_vmcs \<Rightarrow> bool" where
  "absent_below e i s \<longleftrightarrow> i \<le> count s \<and> (\<forall>j<i. enc (slots s ! j) \<noteq> e)"

fun search_inv :: "u32 \<Rightarrow> pc \<Rightarrow> shadow_vmcs \<Rightarrow> bool" where
  "search_inv e (Test i) s = absent_below e i s"
| "search_inv e (Cmp i) s \<longleftrightarrow> i < count s \<and> absent_below e i s"
| "search_inv e (Hit i) s \<longleftrightarrow> i < count s \<and> absent_below e i s \<and> enc (slots s ! i) = e"
| "search_inv e Fault s = False"
| "search_inv e p s = True"

fun write_inv :: "u32 \<Rightarrow> u64 \<Rightarrow> pc \<Rightarrow> shadow_vmcs \<Rightarrow> bool" where
  "write_inv e v Room s = absent_below e (count s) s"
| "write_inv e v PutEnc s \<longleftrightarrow> absent_below e (count s) s \<and> count s < MaxFields"
| "write_inv e v (EncAt i) s \<longleftrightarrow> i = count s \<and> absent_below e (count s) s \<and> count s < MaxFields"
| "write_inv e v PutVal s \<longleftrightarrow>
     absent_below e (count s) s \<and> count s < MaxFields \<and> enc (slots s ! count s) = e"
| "write_inv e v (ValAt i) s \<longleftrightarrow>
     i = count s \<and> absent_below e (count s) s \<and> count s < MaxFields \<and> enc (slots s ! count s) = e"
| "write_inv e v Bump s \<longleftrightarrow>
     absent_below e (count s) s \<and> count s < MaxFields \<and> slots s ! count s = \<lparr>enc = e, val = v\<rparr>"
| "write_inv e v (Raise i) s \<longleftrightarrow>
     i = count s \<and> absent_below e (count s) s \<and> count s < MaxFields \<and> slots s ! count s = \<lparr>enc = e, val = v\<rparr>"
| "write_inv e v p s = search_inv e p s"

primrec call_inv :: "store_op \<Rightarrow> pc \<Rightarrow> shadow_vmcs \<Rightarrow> bool" where
  "call_inv (ReadOp e) p s = search_inv e p s"
| "call_inv (WriteOp e v) p s = write_inv e v p s"

lemma search_miss:
  assumes "absent_below e i s" and "\<not> i < count s"
  shows "find_slot s e 0 = None" and "shadow_read s e = 0" and "absent_below e (count s) s"
proof -
  have "i = count s"
    using assms by (simp add: absent_below_def)
  with assms show "find_slot s e 0 = None" "absent_below e (count s) s"
    by (simp_all add: find_slot_None_iff absent_below_def)
  then show "shadow_read s e = 0"
    by (simp add: shadow_read_def)
qed

lemma search_hit:
  assumes "search_inv e (Hit i) s"
  shows "find_slot s e 0 = Some i" and "shadow_read s e = val (slots s ! i)"
proof -
  show "find_slot s e 0 = Some i"
    using assms by (simp add: find_slot_Some_iff absent_below_def)
  then show "shadow_read s e = val (slots s ! i)"
    by (simp add: shadow_read_def)
qed

text \<open>A store changes under a call without the call noticing while the encodings in use stay.\<close>

definition grows :: "shadow_vmcs \<Rightarrow> shadow_vmcs \<Rightarrow> bool" where
  "grows s s' \<longleftrightarrow> count s \<le> count s' \<and> (\<forall>j<count s. enc (slots s' ! j) = enc (slots s ! j))"

lemma search_inv_grows: "grows s s' \<Longrightarrow> search_inv e p s \<Longrightarrow> search_inv e p s'"
  by (cases p) (auto simp: grows_def absent_below_def)

lemma read_step_inv:
  assumes "shadow_wf s" and "search_inv e p s" and "read_step e (p, s) = (p', s')"
  shows "s' = s \<and> search_inv e p' s \<and> (p' \<noteq> p \<longrightarrow> (\<forall>x. p' = Value x \<longrightarrow> x = shadow_read s e))"
proof (cases p)
  case (Test i)
  with assms search_miss [of e i s] show ?thesis
    by (cases "i < count s") auto
next
  case (Cmp i)
  with assms show ?thesis
    by (cases "enc (slots s ! i) = e") (auto simp: absent_below_def less_Suc_eq shadow_wf_def)
next
  case (Hit i)
  with assms search_hit [of e i s] show ?thesis by (auto simp: shadow_wf_def)
qed (use assms in auto)

lemma shadow_wf_slots:
  assumes "shadow_wf s" and "i < count s"
  shows "shadow_wf (s\<lparr>slots := (slots s)[i := (slots s ! i)\<lparr>val := v\<rparr>]\<rparr>)"
proof -
  have "map enc (take (count s) ((slots s)[i := (slots s ! i)\<lparr>val := v\<rparr>])) = map enc (take (count s) (slots s))"
    using assms by (auto simp: list_eq_iff_nth_eq nth_list_update shadow_wf_def)
  with assms(1) show ?thesis
    by (simp add: shadow_wf_def)
qed

lemma grows_refl: "grows s s"
  by (simp add: grows_def)

lemma grows_hit: "grows s (s\<lparr>slots := (slots s)[i := (slots s ! i)\<lparr>val := v\<rparr>]\<rparr>)"
  by (cases "i < length (slots s)") (auto simp: grows_def nth_list_update list_update_beyond)

lemma grows_behind: "grows s (s\<lparr>slots := (slots s)[count s := x]\<rparr>)"
  by (simp add: grows_def)

lemma behind_invisible:
  "shadow_wf s \<Longrightarrow> shadow_wf (s\<lparr>slots := (slots s)[count s := x]\<rparr>)"
  "shadow_map (s\<lparr>slots := (slots s)[count s := x]\<rparr>) = shadow_map s"
  "absent_below e i s \<Longrightarrow> absent_below e i (s\<lparr>slots := (slots s)[count s := x]\<rparr>)"
  by (auto simp: shadow_wf_def shadow_map_def absent_below_def)

text \<open>
  One step of a writer: the well-formedness and the knowledge of every call survive, and the contents
  change only in the step that returns, then exactly as \<open>shadow_write\<close> changes them.
\<close>

lemma write_step_inv:
  assumes wf: "shadow_wf s" and inv: "write_inv e v p s" and step: "write_step e v (p, s) = (p', s')"
  shows "shadow_wf s' \<and> write_inv e v p' s' \<and> grows s s'
    \<and> (p' \<noteq> p \<longrightarrow> (case p' of Done b \<Rightarrow> (b, s') = shadow_write s e v | _ \<Rightarrow> shadow_map s' = shadow_map s))"
proof (cases p)
  case (Test i)
  with assms search_miss(3) [of e i s] grows_refl [of s] show ?thesis
    by (cases "i < count s") auto
next
  case (Cmp i)
  with assms grows_refl [of s] show ?thesis
    by (cases "enc (slots s ! i) = e") (auto simp: absent_below_def less_Suc_eq shadow_wf_def)
next
  case (Hit i)
  with inv search_hit(1) [of e i s] have "find_slot s e 0 = Some i" "i < count s" by auto
  moreover from this wf have "i < length (slots s)" by (simp add: shadow_wf_def)
  ultimately have "find_slot s e 0 = Some i" "i < count s" "i < length (slots s)" by simp_all
  with Hit step wf grows_hit [of s i v] show ?thesis
    by (auto simp: shadow_write_def intro: shadow_wf_slots)
next
  case Room
  with assms search_miss(1) [of e "count s" s] grows_refl [of s] show ?thesis
    by (cases "count s \<ge> MaxFields") (auto simp: shadow_write_def)
next
  case (EncAt i)
  with inv wf have "count s < length (slots s)" by (simp add: shadow_wf_def)
  with EncAt assms behind_invisible [where s = s] grows_behind [of s] show ?thesis by auto
next
  case (ValAt i)
  with inv wf have "count s < length (slots s)" by (simp add: shadow_wf_def)
  moreover have "(slots s ! count s)\<lparr>val := v\<rparr> = \<lparr>enc = e, val = v\<rparr>"
    using ValAt inv by (cases "slots s ! count s") simp
  ultimately show ?thesis
    using ValAt assms behind_invisible [where s = s] grows_behind [of s] by auto
next
  case (Raise i)
  with inv wf have c: "count s < length (slots s)" "slots s ! count s = \<lparr>enc = e, val = v\<rparr>" "count s < MaxFields"
    and miss: "find_slot s e 0 = None"
    by (auto simp: shadow_wf_def search_miss(1))
  have s': "s' = s\<lparr>count := Suc (count s)\<rparr>" "p' = Done True"
    using Raise inv step by simp_all
  have "(slots s)[count s := \<lparr>enc = e, val = v\<rparr>] = slots s"
    using c(2) by (metis list_update_id)
  then have w: "shadow_write s e v = (True, s')"
    using miss c(3) by (simp add: shadow_write_def s' not_le)
  then have "shadow_wf s'"
    using shadow_wf_write [OF wf, of e v] by simp
  with w show ?thesis
    by (simp add: s' grows_def)
qed (use assms grows_refl in auto)

text \<open>The invariant of a family of calls of which only \<open>w\<close> may write.\<close>

definition one_writer :: "nat \<Rightarrow> (nat \<Rightarrow> store_op) \<Rightarrow> bool" where
  "one_writer w ops \<longleftrightarrow> (\<forall>t. t \<noteq> w \<longrightarrow> (\<exists>e. ops t = ReadOp e))"

definition calls_inv :: "(nat \<Rightarrow> store_op) \<Rightarrow> (nat \<Rightarrow> pc) \<times> shadow_vmcs \<Rightarrow> bool" where
  "calls_inv ops st \<longleftrightarrow> shadow_wf (snd st) \<and> (\<forall>t. call_inv (ops t) (fst st t) (snd st))"

lemma step_inv:
  assumes one: "one_writer w ops" and inv: "calls_inv ops (pcs, s)"
    and step: "op_step (ops t) (pcs t, s) = (p', s')"
  shows "calls_inv ops (pcs(t := p'), s')"
proof (cases "ops t")
  case (ReadOp e)
  with inv step read_step_inv [of s e "pcs t" p' s'] have "s' = s" "search_inv e p' s"
    by (auto simp: calls_inv_def dest!: spec [of _ t])
  with inv ReadOp show ?thesis
    by (simp add: calls_inv_def)
next
  case (WriteOp e v)
  have pre: "shadow_wf s" "write_inv e v (pcs t) s"
    using inv WriteOp by (auto simp: calls_inv_def dest!: spec [of _ t])
  from write_step_inv [OF this] step WriteOp
  have post: "shadow_wf s'" "write_inv e v p' s'" "grows s s'" by auto
  have "call_inv (ops t') (pcs t') s'" if "t' \<noteq> t" for t'
  proof -
    have "t = w"
      using one WriteOp by (auto simp: one_writer_def)
    with one that obtain e' where e': "ops t' = ReadOp e'" by (auto simp: one_writer_def)
    have "search_inv e' (pcs t') s"
      using inv e' by (auto simp: calls_inv_def dest!: spec [of _ t'])
    with search_inv_grows [OF post(3)] e' show ?thesis by simp
  qed
  with post WriteOp show ?thesis
    by (simp add: calls_inv_def)
qed

interpretation store_calls: shared_calls "\<lambda>t. op_step (ops t)" "\<lambda>st. one_writer w ops \<and> calls_inv ops st" for ops w
  by unfold_locales (blast intro: step_inv)

text \<open>
  C9: readers beside one writer are linearizable, in any number, on any processors and under any
  schedule of the single accesses. Every call takes effect in the step in which it returns: a reader
  returns exactly what \<open>shadow_read\<close> gives on the store of that moment and never changes the store;
  the writer's returning step gives exactly the flag and the store of \<open>shadow_write\<close>, and none of its
  other steps, the stores into the slot behind the last one included, changes the contents. No step
  touches the array out of bounds.
\<close>

theorem one_writer_linearizable:
  assumes "one_writer w ops" and "shadow_wf s0"
    and "run_sched ops ts (\<lambda>_. Test 0, s0) = (pcs, s)"
    and "op_step (ops t) (pcs t, s) = (p', s')" and "p' \<noteq> pcs t"
  shows "shadow_wf s' \<and> p' \<noteq> Fault \<and>
    (case ops t of
       ReadOp e \<Rightarrow> s' = s \<and> (\<forall>x. p' = Value x \<longrightarrow> x = shadow_read s e)
     | WriteOp e v \<Rightarrow>
         (case p' of Done b \<Rightarrow> (b, s') = shadow_write s e v | _ \<Rightarrow> shadow_map s' = shadow_map s))"
proof -
  have "call_inv (ops t') (Test 0) s0" for t'
    by (cases "ops t'") (simp_all add: absent_below_def)
  with assms(2) have "calls_inv ops (\<lambda>_. Test 0, s0)"
    by (simp add: calls_inv_def)
  with store_calls.run_keeps [of w ops "(\<lambda>_. Test 0, s0)" ts] assms(1,3) have inv: "calls_inv ops (pcs, s)"
    by simp
  then have wf: "shadow_wf s" and mine: "call_inv (ops t) (pcs t) s"
    by (simp_all add: calls_inv_def)
  show ?thesis
  proof (cases "ops t")
    case (ReadOp e)
    with read_step_inv [of s e "pcs t" p' s'] mine assms(4,5) wf show ?thesis by auto
  next
    case (WriteOp e v)
    with write_step_inv [OF wf, of e v "pcs t" p' s'] mine assms(4,5) show ?thesis by auto
  qed
qed

theorem one_writer_linearizable_witness:
  "\<exists>pcs s. run_sched (\<lambda>t. if t = 0 then WriteOp 0x681E 7 else ReadOp 0x681E) [1, 0, 0, 0, 0, 0, 0, 0, 0, 2]
       (\<lambda>_. Test 0, new_shadow) = (pcs, s)
     \<and> pcs 0 = Done True \<and> pcs 1 = Value 0 \<and> pcs 2 = Cmp 0
     \<and> shadow_wf s"
proof -
  let ?ops = "\<lambda>t :: nat. if t = 0 then WriteOp 0x681E 7 else ReadOp 0x681E"
  obtain pcs s where r: "run_sched ?ops [1, 0, 0, 0, 0, 0, 0, 0, 0] (\<lambda>_. Test 0, new_shadow) = (pcs, s)"
    by force
  have one: "one_writer 0 ?ops"
    by (simp add: one_writer_def)
  have facts: "pcs 0 = Done True" "pcs 1 = Value 0" "pcs 2 = Test 0" "count s = 1"
    using r by (auto simp: new_shadow_def MaxFields_def)
  then have step: "op_step (?ops 2) (pcs 2, s) = (Cmp 0, s)" "Cmp 0 \<noteq> pcs 2"
    by simp_all
  from one_writer_linearizable [OF one shadow_wf_new r step] have "shadow_wf s" by simp
  moreover have "run_sched ?ops [1, 0, 0, 0, 0, 0, 0, 0, 0, 2] (\<lambda>_. Test 0, new_shadow) = (pcs(2 := Cmp 0), s)"
    using run_threads_append [of "\<lambda>t. op_step (?ops t)" "[1, 0, 0, 0, 0, 0, 0, 0, 0]" "[2]" "(\<lambda>_. Test 0, new_shadow)"] r step by simp
  ultimately show ?thesis
    using facts by (intro exI [of _ "pcs(2 := Cmp 0)"] exI [of _ s]) simp
qed

section \<open>Two writers\<close>

text \<open>
  The schedule of the race: both writers search and find room, both write the same slot, the first
  before the second, and both raise \<open>count\<close>.
\<close>

definition race_ops :: "u32 \<Rightarrow> u64 \<Rightarrow> u32 \<Rightarrow> u64 \<Rightarrow> nat \<Rightarrow> store_op" where
  "race_ops a va b vb t = (if t = 0 then WriteOp a va else WriteOp b vb)"

lemma racing_writers:
  assumes "count s < MaxFields" and "length (slots s) = MaxFields" and "find_slot s a 0 = None" and "find_slot s b 0 = None"
  shows "\<exists>ts. run_sched (race_ops a va b vb) ts (\<lambda>_. Test 0, s) =
    ((\<lambda>_. Test 0)(0 := Done True, 1 := Done True),
     s\<lparr>slots := (slots s)[count s := \<lparr>enc = b, val = vb\<rparr>], count := count s + 2\<rparr>)"
proof -
  let ?ops = "race_ops a va b vb"
  obtain n where n: "(write_step a va ^^ n) (Test 0, s) = (Room, s)"
    using write_search [of s a va] assms by auto
  obtain m where m: "(write_step b vb ^^ m) (Test 0, s) = (Room, s)"
    using write_search [of s b vb] assms by auto
  let ?pcs = "(\<lambda>_. Test 0)(0 := Room, 1 := Room)"
  have "run_sched ?ops (replicate n 0 @ replicate m 1) (\<lambda>_. Test 0, s) = (?pcs, s)"
    by (simp add: run_threads_append run_threads_alone race_ops_def n m [unfolded One_nat_def])
  moreover have "run_sched ?ops [0, 1, 0, 0, 0, 0, 1, 1, 1, 1, 0, 0, 1, 1] (?pcs, s) =
    ((\<lambda>_. Test 0)(0 := Done True, 1 := Done True),
     s\<lparr>slots := (slots s)[count s := \<lparr>enc = b, val = vb\<rparr>], count := count s + 2\<rparr>)"
    using assms(1) append_slot [where xs = "slots s" and i = "count s" and e = b and v = vb]
      assms(2) by (simp add: race_ops_def fun_eq_iff)
  ultimately show ?thesis
    by (intro exI [of _ "(replicate n 0 @ replicate m 1) @ [0, 1, 0, 0, 0, 0, 1, 1, 1, 1, 0, 0, 1, 1]"])
      (simp only: run_threads_append)
qed

text \<open>
  C35: two processors that write at the same time lose a field. On any well-formed store with room for
  two more fields, a race of two writes of different new encodings can end with both calls reporting
  success, one field written and the other gone: it reads as 0 unless the slot that the doubled count
  uncovers happens to hold its encoding.
\<close>

theorem racing_writes_lose_a_field:
  assumes "shadow_wf s" and "Suc (count s) < MaxFields" and "shadow_map s a = None" and "shadow_map s b = None"
    and "a \<noteq> b" and "enc (slots s ! Suc (count s)) \<noteq> a"
  shows "\<exists>ts pcs s'. run_sched (race_ops a va b vb) ts (\<lambda>_. Test 0, s) = (pcs, s')
    \<and> pcs 0 = Done True \<and> pcs 1 = Done True \<and> count s' = count s + 2
    \<and> shadow_read s' b = vb \<and> shadow_read s' a = 0"
proof -
  let ?s = "s\<lparr>slots := (slots s)[count s := \<lparr>enc = b, val = vb\<rparr>], count := count s + 2\<rparr>"
  have len: "Suc (count s) < length (slots s)"
    using assms(1,2) by (simp add: shadow_wf_def)
  have none: "find_slot s a 0 = None" "find_slot s b 0 = None"
    using assms(1,3,4) by (simp_all add: find_slot_map)
  then have old: "enc (slots s ! k) \<noteq> a" "enc (slots s ! k) \<noteq> b" if "k < count s" for k
    using that by (simp_all add: find_slot_None_iff)
  have "find_slot ?s a 0 = None"
    using old(1) len assms(5,6) by (auto simp: find_slot_None_iff less_Suc_eq)
  moreover have "find_slot ?s b 0 = Some (count s)"
    using old(2) len by (auto simp: find_slot_Some_iff)
  ultimately have "shadow_read ?s b = vb" "shadow_read ?s a = 0"
    using len by (simp_all add: shadow_read_def)
  moreover obtain ts where "run_sched (race_ops a va b vb) ts (\<lambda>_. Test 0, s) =
      ((\<lambda>_. Test 0)(0 := Done True, 1 := Done True), ?s)"
    using racing_writers [OF _ _ none] assms(1,2) by (auto simp: shadow_wf_def)
  ultimately show ?thesis
    by (intro exI [of _ ts] exI [of _ "(\<lambda>_. Test 0)(0 := Done True, 1 := Done True)"] exI [of _ ?s]) simp
qed

theorem racing_writes_lose_a_field_witness:
  "\<exists>ts pcs s'. run_sched (race_ops 0x681E 1 0x681C 2) ts (\<lambda>_. Test 0, new_shadow) = (pcs, s')
    \<and> pcs 0 = Done True \<and> pcs 1 = Done True \<and> shadow_read s' 0x681C = 2 \<and> shadow_read s' 0x681E = 0"
proof -
  have "Suc (count new_shadow) < MaxFields" "enc (slots new_shadow ! Suc (count new_shadow)) \<noteq> 0x681E"
    by (simp_all add: new_shadow_def MaxFields_def)
  with racing_writes_lose_a_field [OF shadow_wf_new, of "0x681E" "0x681C" 1 2] show ?thesis
    by (auto simp: shadow_map_new)
qed

lemma search_faults:
  assumes "length (slots s) < count s" and "\<And>k. k < length (slots s) \<Longrightarrow> enc (slots s ! k) \<noteq> e"
    and step: "\<And>i. f (Test i, s) = (if i < count s then Cmp i else out, s)"
    "\<And>i. f (Cmp i, s) = at_slot s i (if enc (slots s ! i) = e then Hit i else Test (Suc i), s)"
  shows "i \<le> length (slots s) \<Longrightarrow> \<exists>n. (f ^^ n) (Test i, s) = (Fault, s)"
proof (induction "length (slots s) - i" arbitrary: i)
  case 0
  with assms(1) have "(f ^^ 2) (Test i, s) = (Fault, s)"
    by (simp add: numeral_2_eq_2 step)
  then show ?case by blast
next
  case (Suc d)
  then have i: "i < length (slots s)" by simp
  with assms(1,2) have two: "(f ^^ 2) (Test i, s) = (Test (Suc i), s)"
    by (simp add: numeral_2_eq_2 step)
  have "d = length (slots s) - Suc i" "Suc i \<le> length (slots s)"
    using Suc.hyps(2) i by simp_all
  from Suc.hyps(1) [OF this] run_steps_add [OF two] show ?case by blast
qed

text \<open>
  C36: on a store with one free slot the same race drives \<open>count\<close> past the array: both writes report
  success, \<open>count\<close> is 257, and from then on every read and every write of an encoding that is not in
  the store ends in an access outside the 256 slots of the class.
\<close>

theorem racing_writes_overrun_array:
  assumes "shadow_wf s" and "Suc (count s) = MaxFields" and "shadow_map s a = None" and "shadow_map s b = None"
    and "c \<noteq> b" and "shadow_map s c = None"
  shows "\<exists>ts pcs s'. run_sched (race_ops a va b vb) ts (\<lambda>_. Test 0, s) = (pcs, s')
    \<and> pcs 0 = Done True \<and> pcs 1 = Done True \<and> count s' = 257 \<and> length (slots s') = 256
    \<and> (\<exists>n. (read_step c ^^ n) (Test 0, s') = (Fault, s'))
    \<and> (\<exists>n. (write_step c w ^^ n) (Test 0, s') = (Fault, s'))"
proof -
  let ?s = "s\<lparr>slots := (slots s)[count s := \<lparr>enc = b, val = vb\<rparr>], count := count s + 2\<rparr>"
  have len: "length (slots s) = 256" "count s = 255"
    using assms(1,2) by (simp_all add: shadow_wf_def MaxFields_def)
  have none: "find_slot s a 0 = None" "find_slot s b 0 = None" "find_slot s c 0 = None"
    using assms(1,3,4,6) by (simp_all add: find_slot_map)
  have miss: "enc (slots ?s ! k) \<noteq> c" if "k < length (slots ?s)" for k
    using that none(3) len assms(5) by (auto simp: find_slot_None_iff less_Suc_eq nth_list_update)
  have over: "length (slots ?s) < count ?s"
    using len by simp
  have faults: "\<exists>n. (read_step c ^^ n) (Test 0, ?s) = (Fault, ?s)" "\<exists>n. (write_step c w ^^ n) (Test 0, ?s) = (Fault, ?s)"
    by (rule search_faults [OF over miss, where out = "Value 0"] search_faults [OF over miss, where out = Room];
        simp only: read_step.simps write_step.simps le0)+
  obtain ts where "run_sched (race_ops a va b vb) ts (\<lambda>_. Test 0, s) =
      ((\<lambda>_. Test 0)(0 := Done True, 1 := Done True), ?s)"
    using racing_writers [OF _ _ none(1,2)] assms(1,2) by (auto simp: shadow_wf_def)
  with faults show ?thesis
    using len
    by (intro exI [of _ ts] exI [of _ "(\<lambda>_. Test 0)(0 := Done True, 1 := Done True)"] exI [of _ ?s]) simp
qed

text \<open>The full store of the witnesses with its last field taken out.\<close>

definition nearly_full_shadow :: shadow_vmcs where
  "nearly_full_shadow = full_shadow\<lparr>count := 255\<rparr>"

lemma nearly_full:
  "shadow_wf nearly_full_shadow" "Suc (count nearly_full_shadow) = MaxFields"
  "256 \<le> unat e \<Longrightarrow> shadow_map nearly_full_shadow e = None"
proof -
  have len: "length (slots full_shadow) = 256" "count full_shadow = 256"
    by (simp_all add: full_shadow_def MaxFields_def)
  have "map enc (take 255 (slots full_shadow)) = take 255 (map enc (take 256 (slots full_shadow)))"
    by (simp add: take_map)
  with shadow_wf_full len show wf: "shadow_wf nearly_full_shadow"
    by (simp add: shadow_wf_def nearly_full_shadow_def MaxFields_def distinct_take)
  show "Suc (count nearly_full_shadow) = MaxFields"
    by (simp add: nearly_full_shadow_def MaxFields_def)
  have "dom (shadow_map nearly_full_shadow) \<subseteq> dom (shadow_map full_shadow)"
    using set_take_subset_set_take [of 255 256 "slots full_shadow"]
    by (auto simp: dom_shadow_map [OF wf] dom_shadow_map [OF shadow_wf_full] len)
      (auto simp: nearly_full_shadow_def)
  then show "256 \<le> unat e \<Longrightarrow> shadow_map nearly_full_shadow e = None"
    using not_in_full_shadow [of e] by auto
qed

theorem racing_writes_overrun_array_witness:
  "\<exists>ts pcs s' n. run_sched (race_ops 0x681E 1 0x681C 2) ts (\<lambda>_. Test 0, nearly_full_shadow) = (pcs, s')
    \<and> pcs 0 = Done True \<and> pcs 1 = Done True \<and> count s' = 257
    \<and> (read_step 0x4402 ^^ n) (Test 0, s') = (Fault, s')"
proof -
  have "unat (0x681E :: u32) \<ge> 256" "unat (0x681C :: u32) \<ge> 256" "unat (0x4402 :: u32) \<ge> 256" "(0x4402 :: u32) \<noteq> 0x681C"
    by simp_all
  from racing_writes_overrun_array [OF nearly_full(1,2) nearly_full(3) [OF this(1)] nearly_full(3) [OF this(2)]
      this(4) nearly_full(3) [OF this(3)], of 1 2 0]
  show ?thesis by blast
qed

end
