(* ===== verification/LaunchSteps.thy ===== *)
theory LaunchSteps
  imports VmxProgram StoreRaces
begin

text \<open>
  \<open>VmxEmulator::handleUD\<close> and all it calls as a processor executes it: one access to the shared
  emulator, to a slot of the shadow VMCS or to a member of the VMCB per step, in the order of
  \<^verbatim>\<open>src/kern_vmx_emu.cpp\<close> and \<^verbatim>\<open>src/kern_vmcs_vmcb.cpp\<close>. A fault
  is a program of such accesses; a call of \<open>ShadowVMCS::read\<close> or \<open>write\<close> inside it runs the loop
  of the store one access at a time. A program that runs alone is \<open>handleUD\<close>.
\<close>

section \<open>Programs of accesses\<close>

text \<open>
  The accesses a fault makes, each with what the code does with the result. \<open>RunGuest\<close> is the call of
  \<open>svmWorldSwitch\<close>, one step here; \<open>Resume\<close> is the return of \<open>handleUD\<close>, with its flag and the trap
  frame, which belongs to the faulting processor alone.
\<close>

datatype prog =
    ReadField u32 "u64 \<Rightarrow> prog"
  | WriteField u32 u64 prog
  | SetLaunched bool prog
  | SetRoot bool prog
  | TestVmcb prog prog
  | LoadVmcb "page \<Rightarrow> u64" "u64 \<Rightarrow> prog"
  | StoreVmcb "page \<Rightarrow> page" prog
  | LoadRax "u64 \<Rightarrow> prog"
  | StoreRax u64 prog
  | LoadFeatures "u32 \<Rightarrow> prog"
  | RunGuest world_switch prog
  | Resume bool amdv_saved_state64

subsection \<open>\<open>translateVmcsToVmcb\<close>\<close>

text \<open>A field of the VMCS, read, converted and stored into a member of the VMCB.\<close>

fun put_cell :: "u32 \<times> (u64 \<Rightarrow> page \<Rightarrow> page) \<Rightarrow> prog \<Rightarrow> prog" where
  "put_cell (e, st) k = ReadField e (\<lambda>x. StoreVmcb (st x) k)"

definition segment_cells :: "seg_map \<Rightarrow> (u32 \<times> (u64 \<Rightarrow> page \<Rightarrow> page)) list" where
  "segment_cells s =
    [(selEnc s, \<lambda>x v. seg_st v (vmcbOff s) seg_selector (ucast x :: u16)),
     (limitEnc s, \<lambda>x v. seg_st v (vmcbOff s) seg_limit (ucast x :: u32)),
     (baseEnc s, \<lambda>x v. seg_st v (vmcbOff s) seg_base x),
     (arEnc s, \<lambda>x v. seg_st v (vmcbOff s) seg_attrib (vmxArToSvmAttrib (ucast x)))]"

definition table_cells :: "(u32 \<times> (u64 \<Rightarrow> page \<Rightarrow> page)) list" where
  "table_cells =
    [(vmcs_enc VMCS_GUEST_GDTR_BASE, \<lambda>x v. seg_st v VMCB_SEG_GDTR seg_base x),
     (vmcs_enc VMCS_GUEST_GDTR_LIMIT, \<lambda>x v. seg_st v VMCB_SEG_GDTR seg_limit (ucast x :: u32)),
     (vmcs_enc VMCS_GUEST_IDTR_BASE, \<lambda>x v. seg_st v VMCB_SEG_IDTR seg_base x),
     (vmcs_enc VMCS_GUEST_IDTR_LIMIT, \<lambda>x v. seg_st v VMCB_SEG_IDTR seg_limit (ucast x :: u32))]"

definition register_cells :: "(u32 \<times> (u64 \<Rightarrow> page \<Rightarrow> page)) list" where
  "register_cells =
    [(vmcs_enc VMCS_GUEST_CR0, \<lambda>x v. vmcb_set64 v VMCB_CR0 x),
     (vmcs_enc VMCS_GUEST_CR3, \<lambda>x v. vmcb_set64 v VMCB_CR3 x),
     (vmcs_enc VMCS_GUEST_CR4, \<lambda>x v. vmcb_set64 v VMCB_CR4 x),
     (vmcs_enc VMCS_GUEST_CR2, \<lambda>x v. vmcb_set64 v VMCB_CR2 x),
     (vmcs_enc VMCS_GUEST_RIP, \<lambda>x v. vmcb_set64 v VMCB_RIP x),
     (vmcs_enc VMCS_GUEST_RSP, \<lambda>x v. vmcb_set64 v VMCB_RSP x),
     (vmcs_enc VMCS_GUEST_RFLAGS, \<lambda>x v. vmcb_set64 v VMCB_RFLAGS x),
     (vmcs_enc VMCS_GUEST_IA32_PAT, \<lambda>x v. vmcb_set64 v VMCB_GPAT x),
     (vmcs_enc VMCS_GUEST_IA32_EFER, \<lambda>x v. vmcb_set64 v VMCB_EFER (x OR EFER_SVME))]"

definition intercepts_prog :: "u32 \<Rightarrow> u32 \<Rightarrow> prog \<Rightarrow> prog" where
  "intercepts_prog pin cpu k =
     (let i1 = 0;
          i1 = (if pin AND PIN_CTL_EXT_INTR_EXITING \<noteq> 0 then i1 OR INTERCEPT_INTR else i1);
          i1 = (if cpu AND CPU_CTL_HLT_EXITING \<noteq> 0 then i1 OR INTERCEPT_HLT else i1)
      in StoreVmcb (\<lambda>v. vmcb_st v intercept_1 i1)
          (StoreVmcb (\<lambda>v. vmcb_st v intercept_2 INTERCEPT2_VMRUN)
            (ReadField (vmcs_enc VMCS_EXCEPTION_BITMAP) (\<lambda>x.
              StoreVmcb (\<lambda>v. vmcb_st v intercept_exceptions (ucast x :: u32)) k))))"

definition nested_prog :: "u32 \<Rightarrow> prog \<Rightarrow> prog" where
  "nested_prog sec k =
     (if sec AND SEC_CTL_ENABLE_EPT \<noteq> 0 then
        StoreVmcb (\<lambda>v. vmcb_st v np_enable (1 :: u64))
          (ReadField (vmcs_enc VMCS_EPT_POINTER) (\<lambda>p.
            let npt = buildNptFromEpt p
            in if npt \<noteq> 0 then StoreVmcb (\<lambda>v. vmcb_st v nested_cr3 npt) k
               else ReadField (vmcs_enc VMCS_EPT_POINTER) (\<lambda>q.
                 StoreVmcb (\<lambda>v. vmcb_st v nested_cr3 (q AND NOT 0xFFF)) k)))
      else
        StoreVmcb (\<lambda>v. vmcb_st v np_enable (0 :: u64))
          (StoreVmcb (\<lambda>v. vmcb_st v nested_cr3 (0 :: u64)) k))"

definition asid_prog :: "u32 \<Rightarrow> prog \<Rightarrow> prog" where
  "asid_prog sec k =
     (let put = (\<lambda>vpid. StoreVmcb (\<lambda>v. vmcb_st v guest_asid (if vpid \<noteq> 0 then vpid else (1 :: u32))) k)
      in if sec AND SEC_CTL_ENABLE_VPID \<noteq> 0
         then ReadField (vmcs_enc VMCS_VIRTUAL_PROCESSOR_ID) (\<lambda>x. put (ucast x)) else put 0)"

definition event_prog :: "prog \<Rightarrow> prog" where
  "event_prog k =
     ReadField (vmcs_enc VMCS_VM_ENTRY_INTR_INFO) (\<lambda>x.
       let entryInfo = ucast x :: u32
       in if entryInfo AND VMX_ENTRY_INTR_VALID \<noteq> 0 then
            (let svmType = svm_event_type (vmxEntryType entryInfo);
                 ev = (entryInfo AND VMX_ENTRY_INTR_DELIVER_EC \<noteq> 0)
             in ReadField (vmcs_enc VMCS_VM_ENTRY_EXCEPTION_ERROR) (\<lambda>y.
                  StoreVmcb (\<lambda>v. vmcb_set64 v VMCB_CTL_EVENTINJ
                    (eventinj_make (vmxEntryVector entryInfo) svmType ev (ucast y))) k))
          else StoreVmcb (\<lambda>v. vmcb_set64 v VMCB_CTL_EVENTINJ 0) k)"

definition controls_prog :: "prog \<Rightarrow> prog" where
  "controls_prog k =
     ReadField (vmcs_enc VMCS_PIN_EXEC_CONTROL) (\<lambda>pin.
       ReadField (vmcs_enc VMCS_CPU_EXEC_CONTROL) (\<lambda>cpu.
         let rest = (\<lambda>sec. intercepts_prog (ucast pin) (ucast cpu) (nested_prog sec (asid_prog sec (event_prog k))))
         in if ucast cpu AND CPU_CTL_SECONDARY_CTLS \<noteq> 0
            then ReadField (vmcs_enc VMCS_SECONDARY_EXEC_CTL) (\<lambda>x. rest (ucast x)) else rest 0))"

definition fill_prog :: "prog \<Rightarrow> prog" where
  "fill_prog k =
     foldr put_cell (concat (map segment_cells kSegs) @ table_cells @ register_cells) (controls_prog k)"

subsection \<open>\<open>translateVmcbToVmcs\<close>\<close>

text \<open>A member of the VMCB, loaded, converted and written to a field of the VMCS.\<close>

fun get_cell :: "u32 \<times> (page \<Rightarrow> u64) \<Rightarrow> prog \<Rightarrow> prog" where
  "get_cell (e, ld) k = LoadVmcb ld (\<lambda>x. WriteField e x k)"

definition exit_register_cells :: "(u32 \<times> (page \<Rightarrow> u64)) list" where
  "exit_register_cells =
    [(vmcs_enc VMCS_GUEST_CR0, \<lambda>v. vmcb_get64 v VMCB_CR0),
     (vmcs_enc VMCS_GUEST_CR3, \<lambda>v. vmcb_get64 v VMCB_CR3),
     (vmcs_enc VMCS_GUEST_CR4, \<lambda>v. vmcb_get64 v VMCB_CR4),
     (vmcs_enc VMCS_GUEST_CR2, \<lambda>v. vmcb_get64 v VMCB_CR2),
     (vmcs_enc VMCS_GUEST_RIP, \<lambda>v. vmcb_get64 v VMCB_RIP),
     (vmcs_enc VMCS_GUEST_RSP, \<lambda>v. vmcb_get64 v VMCB_RSP),
     (vmcs_enc VMCS_GUEST_RFLAGS, \<lambda>v. vmcb_get64 v VMCB_RFLAGS),
     (vmcs_enc VMCS_GUEST_IA32_EFER, \<lambda>v. vmcb_get64 v VMCB_EFER AND NOT EFER_SVME)]"

definition exit_segment_cells :: "seg_map \<Rightarrow> (u32 \<times> (page \<Rightarrow> u64)) list" where
  "exit_segment_cells s =
    [(selEnc s, \<lambda>v. ucast (seg_ld v (vmcbOff s) seg_selector :: u16)),
     (limitEnc s, \<lambda>v. ucast (seg_ld v (vmcbOff s) seg_limit :: u32)),
     (baseEnc s, \<lambda>v. seg_ld v (vmcbOff s) seg_base),
     (arEnc s, \<lambda>v. ucast (svmAttribToVmxAr (seg_ld v (vmcbOff s) seg_attrib)))]"

definition exit_prog :: "u32 \<Rightarrow> prog \<Rightarrow> prog" where
  "exit_prog svmFeatures k =
     foldr get_cell (exit_register_cells @ concat (map exit_segment_cells kSegs))
       (LoadVmcb (\<lambda>v. vmcb_ld v exit_code) (\<lambda>code.
         LoadVmcb (\<lambda>v. vmcb_ld v exit_info_1) (\<lambda>info.
           WriteField (vmcs_enc VMCS_VM_EXIT_REASON) (ucast (exit_reason_num (svmExitToVmxReason code info)))
             (if svmFeatures AND SVM_FEATURE_NRIPS \<noteq> 0 then
                LoadVmcb (\<lambda>v. vmcb_get64 v VMCB_CTL_NRIP) (\<lambda>nrip.
                  LoadVmcb (\<lambda>v. vmcb_get64 v VMCB_RIP) (\<lambda>rip.
                    if nrip > rip then WriteField (vmcs_enc VMCS_VM_EXIT_INSTR_LEN) (nrip - rip) k else k))
              else k))))"

subsection \<open>\<open>vmlaunchResume\<close> and \<open>handleUD\<close>\<close>

definition enter_prog :: "world_switch option \<Rightarrow> prog \<Rightarrow> prog" where
  "enter_prog sw k =
     (case sw of
        Some switch \<Rightarrow> RunGuest switch k
      | None \<Rightarrow> StoreVmcb (\<lambda>v. vmcb_st v exit_code VMEXIT_INVALID) k)"

text \<open>\<open>handleUD\<close> discards what \<open>vmlaunchResume\<close> returns.\<close>

definition exit_phase :: "prog \<Rightarrow> prog" where
  "exit_phase k =
     LoadVmcb (\<lambda>v. vmcb_get64 v VMCB_RAX) (\<lambda>x. StoreRax x
       (LoadFeatures (\<lambda>f. exit_prog f (SetLaunched True
         (ReadField (vmcs_enc VMCS_VM_EXIT_REASON) (\<lambda>_. k))))))"

definition launch_prog :: "world_switch option \<Rightarrow> prog \<Rightarrow> prog" where
  "launch_prog sw k =
     TestVmcb k
       (fill_prog (LoadRax (\<lambda>rax. StoreVmcb (\<lambda>v. vmcb_set64 v VMCB_RAX rax)
         (enter_prog sw (exit_phase k)))))"

text \<open>The decoder reads the trap frame and the code at its RIP, nothing that is shared.\<close>

definition fault_prog :: "hde_lib \<Rightarrow> world_switch option \<Rightarrow> amdv_saved_state64 \<Rightarrow> prog" where
  "fault_prog lib sw st =
     (case decodeVmx lib st of
        None \<Rightarrow> Resume False st
      | Some d \<Rightarrow>
          (let consumed = Resume True (vm_succeed st (dec_length d)) in
           case dec_op d of
             VMXOP_NONE \<Rightarrow> Resume False st
           | VMXOP_VMXON \<Rightarrow> SetRoot True consumed
           | VMXOP_VMXOFF \<Rightarrow> SetRoot False consumed
           | VMXOP_VMPTRLD \<Rightarrow> SetLaunched False consumed
           | VMXOP_VMCLEAR \<Rightarrow> SetLaunched False consumed
           | VMXOP_VMPTRST \<Rightarrow> consumed
           | VMXOP_VMWRITE \<Rightarrow> WriteField (dec_field d) (dec_srcValue d) consumed
           | VMXOP_VMREAD \<Rightarrow>
               (case dec_dstReg d of
                  Some r \<Rightarrow> ReadField (dec_field d) (\<lambda>x.
                    Resume True (vm_succeed (slot_set st r x) (dec_length d)))
                | None \<Rightarrow> consumed)
           | VMXOP_VMLAUNCH \<Rightarrow> launch_prog sw consumed
           | VMXOP_VMRESUME \<Rightarrow> launch_prog sw consumed
           | VMXOP_INVEPT \<Rightarrow> consumed
           | VMXOP_INVVPID \<Rightarrow> consumed))"

section \<open>One step of a fault\<close>

text \<open>
  Where a processor stands: before an access, inside a call of the store, or stopped by a page fault
  it has no handler for.
\<close>

datatype fault_pc =
    At prog
  | Reading u32 pc "u64 \<Rightarrow> prog"
  | Writing u32 u64 pc prog
  | Crashed

text \<open>
  The pointer \<open>fVmcb\<close> is read with every access to the VMCB; the code passes it once to the translations,
  which is the same, since no fault changes it.
\<close>

type_synonym fault_state = "fault_pc \<times> kmem \<times> vmx_emulator"

definition at_vmcb :: "kmem \<times> vmx_emulator \<Rightarrow> (page \<Rightarrow> fault_state) \<Rightarrow> fault_state" where
  "at_vmcb s k = (case fst s (fVmcb (snd s)) of None \<Rightarrow> (Crashed, s) | Some v \<Rightarrow> k v)"

fun access_step :: "prog \<Rightarrow> kmem \<times> vmx_emulator \<Rightarrow> fault_state" where
  "access_step (ReadField e k) s = (Reading e (Test 0) k, s)"
| "access_step (WriteField e x k) s = (Writing e x (Test 0) k, s)"
| "access_step (SetLaunched b k) (m, emu) = (At k, m, emu\<lparr>fVmcs := setLaunched (fVmcs emu) b\<rparr>)"
| "access_step (SetRoot b k) (m, emu) = (At k, m, emu\<lparr>fVmxRoot := b\<rparr>)"
| "access_step (TestVmcb p k) (m, emu) = (At (if fVmcb emu = 0 then p else k), m, emu)"
| "access_step (LoadVmcb ld k) s = at_vmcb s (\<lambda>v. (At (k (ld v)), s))"
| "access_step (StoreVmcb st k) (m, emu) = at_vmcb (m, emu) (\<lambda>v. (At k, m(fVmcb emu \<mapsto> st v), emu))"
| "access_step (LoadRax k) (m, emu) = (At (k (fGuestRax emu)), m, emu)"
| "access_step (StoreRax x k) (m, emu) = (At k, m, emu\<lparr>fGuestRax := x\<rparr>)"
| "access_step (LoadFeatures k) (m, emu) = (At (k (fSvmFeatures emu)), m, emu)"
| "access_step (RunGuest switch k) (m, emu) =
     (case switch (fVmcbPA emu) (fGprs emu) m of (g, m') \<Rightarrow> (At k, m', emu\<lparr>fGprs := g\<rparr>))"
| "access_step (Resume b st) s = (At (Resume b st), s)"

fun fault_step :: "fault_state \<Rightarrow> fault_state" where
  "fault_step (At p, s) = access_step p s"
| "fault_step (Reading e q k, m, emu) =
     (case q of
        Value x \<Rightarrow> (At (k x), m, emu)
      | Fault \<Rightarrow> (Crashed, m, emu)
      | _ \<Rightarrow> (case read_step e (q, fVmcs emu) of (q', s') \<Rightarrow> (Reading e q' k, m, emu\<lparr>fVmcs := s'\<rparr>)))"
| "fault_step (Writing e x q k, m, emu) =
     (case q of
        Done b \<Rightarrow> (At k, m, emu)
      | Fault \<Rightarrow> (Crashed, m, emu)
      | _ \<Rightarrow> (case write_step e x (q, fVmcs emu) of (q', s') \<Rightarrow> (Writing e x q' k, m, emu\<lparr>fVmcs := s'\<rparr>)))"
| "fault_step (Crashed, s) = (Crashed, s)"

lemma at_vmcb_Some [simp]: "m (fVmcb emu) = Some v \<Longrightarrow> at_vmcb (m, emu) k = k v"
  by (simp add: at_vmcb_def)

lemma at_vmcb_None [simp]: "m (fVmcb emu) = None \<Longrightarrow> at_vmcb (m, emu) k = (Crashed, m, emu)"
  by (simp add: at_vmcb_def)

lemma fVmcs_same [simp]: "emu\<lparr>fVmcs := fVmcs emu\<rparr> = emu"
  by (cases emu) simp

section \<open>A fault that runs alone\<close>

definition reaches :: "fault_state \<Rightarrow> fault_state \<Rightarrow> bool" where
  "reaches x y \<longleftrightarrow> (\<exists>n. (fault_step ^^ n) x = y)"

definition crashes :: "fault_state \<Rightarrow> bool" where
  "crashes x \<longleftrightarrow> (\<exists>s. reaches x (Crashed, s))"

lemma reaches_refl [simp]: "reaches x x"
  unfolding reaches_def by (rule exI [of _ 0]) simp

lemma reaches_trans [trans]: "reaches x y \<Longrightarrow> reaches y z \<Longrightarrow> reaches x z"
  unfolding reaches_def by (metis run_steps_add)

lemma reaches_step: "reaches (fault_step x) y \<Longrightarrow> reaches x y"
proof -
  have "reaches x (fault_step x)"
    unfolding reaches_def by (rule exI [of _ 1]) simp
  then show "reaches (fault_step x) y \<Longrightarrow> reaches x y"
    by (rule reaches_trans)
qed

lemma fault_step_call:
  "read_step e (q, s) = (q', s') \<Longrightarrow> q \<noteq> Fault \<Longrightarrow> \<forall>x. q \<noteq> Value x \<Longrightarrow>
     fault_step (Reading e q k, m, emu\<lparr>fVmcs := s\<rparr>) = (Reading e q' k, m, emu\<lparr>fVmcs := s'\<rparr>)"
  "write_step e x (q, s) = (q', s') \<Longrightarrow> q \<noteq> Fault \<Longrightarrow> \<forall>b. q \<noteq> Done b \<Longrightarrow>
     fault_step (Writing e x q p, m, emu\<lparr>fVmcs := s\<rparr>) = (Writing e x q' p, m, emu\<lparr>fVmcs := s'\<rparr>)"
  by (cases q; simp del: read_step.simps write_step.simps) (cases q; auto simp del: read_step.simps write_step.simps)

lemma crashesI: "reaches x (Crashed, s) \<Longrightarrow> crashes x"
  unfolding crashes_def by (rule exI)

text \<open>A call of the store that returns alone returns inside the fault.\<close>

lemma reaches_reading:
  "(read_step e ^^ n) (q, s) = (Value x, s') \<Longrightarrow>
     reaches (Reading e q k, m, emu\<lparr>fVmcs := s\<rparr>) (At (k x), m, emu\<lparr>fVmcs := s'\<rparr>)"
proof (induction n arbitrary: q s)
  case 0
  then show ?case by - (rule reaches_step, simp)
next
  case (Suc n)
  obtain q1 s1 where step: "read_step e (q, s) = (q1, s1)" by force
  with Suc.prems have rest: "(read_step e ^^ n) (q1, s1) = (Value x, s')"
    by (simp add: funpow_Suc_right del: funpow.simps)
  note go = Suc.IH [OF rest]
  show ?case
  proof (cases q)
    case (Value y)
    with step go show ?thesis by simp
  next
    case Fault
    have "(read_step e ^^ n) (Fault, s) = (Fault, s)" for n by (induction n) simp_all
    with Fault rest step show ?thesis by simp
  qed (rule reaches_step, use go step in \<open>simp del: fault_step.simps read_step.simps add: fault_step_call\<close>)+
qed

lemma reaches_writing:
  "(write_step e x ^^ n) (q, s) = (Done b, s') \<Longrightarrow>
     reaches (Writing e x q k, m, emu\<lparr>fVmcs := s\<rparr>) (At k, m, emu\<lparr>fVmcs := s'\<rparr>)"
proof (induction n arbitrary: q s)
  case 0
  then show ?case by - (rule reaches_step, simp)
next
  case (Suc n)
  obtain q1 s1 where step: "write_step e x (q, s) = (q1, s1)" by force
  with Suc.prems have rest: "(write_step e x ^^ n) (q1, s1) = (Done b, s')"
    by (simp add: funpow_Suc_right del: funpow.simps)
  note go = Suc.IH [OF rest]
  show ?case
  proof (cases q)
    case (Done y)
    with step go show ?thesis by simp
  next
    case Fault
    have "(write_step e x ^^ n) (Fault, s) = (Fault, s)" for n by (induction n) simp_all
    with Fault rest step show ?thesis by simp
  qed (rule reaches_step, use go step in \<open>simp del: fault_step.simps write_step.simps add: fault_step_call\<close>)+
qed

lemma reaches_read:
  assumes "shadow_wf (fVmcs emu)" and "reaches (At (k (shadow_read (fVmcs emu) e)), m, emu) y"
  shows "reaches (At (ReadField e k), m, emu) y"
proof -
  obtain n where "(read_step e ^^ n) (Test 0, fVmcs emu) = (Value (shadow_read (fVmcs emu) e), fVmcs emu)"
    using lone_calls_are_atomic [OF assms(1)] by blast
  from reaches_trans [OF reaches_reading [OF this, of k m emu]] assms(2) show ?thesis
    by (intro reaches_step [of "(At (ReadField e k), m, emu)"]) simp
qed

lemma reaches_write:
  assumes "shadow_wf (fVmcs emu)"
    and "reaches (At k, m, emu\<lparr>fVmcs := snd (shadow_write (fVmcs emu) e x)\<rparr>) y"
  shows "reaches (At (WriteField e x k), m, emu) y"
proof -
  obtain n where "(write_step e x ^^ n) (Test 0, fVmcs emu) =
      (Done (fst (shadow_write (fVmcs emu) e x)), snd (shadow_write (fVmcs emu) e x))"
    using lone_calls_are_atomic [OF assms(1)] by blast
  from reaches_trans [OF reaches_writing [OF this, of k m emu]] assms(2) show ?thesis
    by (intro reaches_step [of "(At (WriteField e x k), m, emu)"]) simp
qed

lemma reaches_access:
  "m (fVmcb emu) = Some v \<Longrightarrow> reaches (At (c (ld v)), m, emu) y \<Longrightarrow> reaches (At (LoadVmcb ld c), m, emu) y"
  "m (fVmcb emu) = Some v \<Longrightarrow> reaches (At k, m(fVmcb emu \<mapsto> st v), emu) y \<Longrightarrow> reaches (At (StoreVmcb st k), m, emu) y"
  "reaches (At k, m, emu\<lparr>fVmcs := setLaunched (fVmcs emu) b\<rparr>) y \<Longrightarrow> reaches (At (SetLaunched b k), m, emu) y"
  "reaches (At k, m, emu\<lparr>fVmxRoot := b\<rparr>) y \<Longrightarrow> reaches (At (SetRoot b k), m, emu) y"
  "reaches (At (c (fGuestRax emu)), m, emu) y \<Longrightarrow> reaches (At (LoadRax c), m, emu) y"
  "reaches (At k, m, emu\<lparr>fGuestRax := x\<rparr>) y \<Longrightarrow> reaches (At (StoreRax x k), m, emu) y"
  "reaches (At (d (fSvmFeatures emu)), m, emu) y \<Longrightarrow> reaches (At (LoadFeatures d), m, emu) y"
  by (rule reaches_step, simp)+

lemma reaches_test:
  "fVmcb emu \<noteq> 0 \<Longrightarrow> reaches (At k, m, emu) y \<Longrightarrow> reaches (At (TestVmcb p k), m, emu) y"
  "fVmcb emu = 0 \<Longrightarrow> reaches (At p, m, emu) y \<Longrightarrow> reaches (At (TestVmcb p k), m, emu) y"
  by (rule reaches_step, simp)+

lemma reaches_put_cells:
  assumes "shadow_wf (fVmcs emu)" and "m (fVmcb emu) = Some v"
    and "reaches (At k, m(fVmcb emu \<mapsto> fold (\<lambda>(e, st). st (shadow_read (fVmcs emu) e)) cs v), emu) y"
  shows "reaches (At (foldr put_cell cs k), m, emu) y"
  using assms(2,3)
proof (induction cs arbitrary: m v)
  case Nil
  then show ?case by (simp add: fun_upd_idem)
next
  case (Cons c cs)
  obtain e st where c: "c = (e, st)" by force
  have "reaches (At (foldr put_cell cs k), m(fVmcb emu \<mapsto> st (shadow_read (fVmcs emu) e) v), emu) y"
    by (rule Cons.IH [OF fun_upd_same]) (use Cons.prems(2) in \<open>simp only: c fold_simps prod.case fun_upd_upd\<close>)
  then show ?case
    unfolding c foldr.simps comp_def put_cell.simps
    by (intro reaches_read reaches_access(2) [of m emu v] assms(1) Cons.prems(1))
qed

lemma reaches_put_crash:
  assumes "shadow_wf (fVmcs emu)" and "m (fVmcb emu) = None"
  shows "reaches (At (foldr put_cell ((e, st) # cs) k), m, emu) (Crashed, m, emu)"
  unfolding foldr.simps comp_def put_cell.simps
  by (intro reaches_read assms(1), rule reaches_step) (simp add: assms(2))

lemma reaches_get_cells:
  assumes "shadow_wf (fVmcs emu)" and "m (fVmcb emu) = Some v"
    and "reaches (At k, m, emu\<lparr>fVmcs := shadow_writes (map (\<lambda>(e, ld). (e, ld v)) cs) (fVmcs emu)\<rparr>) y"
  shows "reaches (At (foldr get_cell cs k), m, emu) y"
  using assms
proof (induction cs arbitrary: emu)
  case Nil
  then show ?case by (simp add: shadow_writes_def)
next
  case (Cons c cs)
  obtain e ld where c: "c = (e, ld)" by force
  let ?e = "emu\<lparr>fVmcs := snd (shadow_write (fVmcs emu) e (ld v))\<rparr>"
  from Cons.prems c have "reaches (At (foldr get_cell cs k), m, ?e) y"
    by (intro Cons.IH) (simp_all add: shadow_wf_write shadow_writes_def)
  then show ?case
    unfolding c foldr.simps comp_def get_cell.simps
    by (intro reaches_access(1) [of m emu v] reaches_write Cons.prems(1,2))
qed

subsection \<open>The two translations\<close>

lemma fold_put_segments:
  "fold (\<lambda>(e, st). st (shadow_read s e)) (concat (map segment_cells kSegs)) v = fold (put_segment s) kSegs v"
proof -
  have "fold (\<lambda>(e, st). st (shadow_read s e)) (concat (map segment_cells xs)) v = fold (put_segment s) xs v" for xs
    by (induction xs arbitrary: v) (simp_all add: segment_cells_def put_segment_def Let_def)
  then show ?thesis .
qed

lemma fold_fill_cells:
  "fold (\<lambda>(e, st). st (shadow_read s e)) (concat (map segment_cells kSegs) @ table_cells @ register_cells) v =
     put_registers s (put_segments s v)"
  by (simp add: fold_put_segments put_segments_def put_registers_def table_cells_def register_cells_def Let_def
      del: concat.simps)

text \<open>The same accesses in a memory whose VMCB is named.\<close>

lemma reaches_store:
  "reaches (At k, m(fVmcb emu \<mapsto> st v), emu) y \<Longrightarrow> reaches (At (StoreVmcb st k), m(fVmcb emu \<mapsto> v), emu) y"
  by (rule reaches_access(2) [OF fun_upd_same]) (simp only: fun_upd_upd)

lemma reaches_intercepts:
  assumes "shadow_wf (fVmcs emu)"
    and "reaches (At k, m(fVmcb emu \<mapsto> put_intercepts (fVmcs emu) v), emu) y"
  shows "reaches (At (intercepts_prog (pin_controls (fVmcs emu)) (cpu_controls (fVmcs emu)) k), m(fVmcb emu \<mapsto> v), emu) y"
  using assms(2) unfolding intercepts_prog_def put_intercepts_def Let_def
  by (intro reaches_store reaches_read assms(1))

lemma reaches_nested:
  assumes "shadow_wf (fVmcs emu)"
    and "reaches (At k, m(fVmcb emu \<mapsto> put_nested_paging (fVmcs emu) v), emu) y"
  shows "reaches (At (nested_prog (secondary_controls (fVmcs emu)) k), m(fVmcb emu \<mapsto> v), emu) y"
proof (cases "secondary_controls (fVmcs emu) AND SEC_CTL_ENABLE_EPT \<noteq> 0")
  case True
  with assms(2) show ?thesis
    by (simp only: nested_prog_def put_nested_paging_def buildNptFromEpt_def Let_def if_True simp_thms if_False)
      (intro reaches_store reaches_read assms(1), simp)
next
  case False
  with assms(2) show ?thesis
    by (simp only: nested_prog_def put_nested_paging_def Let_def if_False) (intro reaches_store)
qed

lemma reaches_asid:
  assumes "shadow_wf (fVmcs emu)"
    and "reaches (At k, m(fVmcb emu \<mapsto> put_asid (fVmcs emu) v), emu) y"
  shows "reaches (At (asid_prog (secondary_controls (fVmcs emu)) k), m(fVmcb emu \<mapsto> v), emu) y"
proof (cases "secondary_controls (fVmcs emu) AND SEC_CTL_ENABLE_VPID \<noteq> 0")
  case True
  with assms(2) show ?thesis
    by (simp only: asid_prog_def put_asid_def Let_def if_True simp_thms) (intro reaches_store reaches_read assms(1))
next
  case False
  with assms(2) show ?thesis
    by (simp only: asid_prog_def put_asid_def Let_def if_False) (intro reaches_store)
qed

lemma reaches_event:
  assumes "shadow_wf (fVmcs emu)"
    and "reaches (At k, m(fVmcb emu \<mapsto> put_event (fVmcs emu) v), emu) y"
  shows "reaches (At (event_prog k), m(fVmcb emu \<mapsto> v), emu) y"
  unfolding event_prog_def
proof (rule reaches_read [OF assms(1)])
  let ?info = "ucast (vread (fVmcs emu) VMCS_VM_ENTRY_INTR_INFO) :: u32"
  show "reaches (At (let entryInfo = ?info
       in if entryInfo AND VMX_ENTRY_INTR_VALID \<noteq> 0 then
            (let svmType = svm_event_type (vmxEntryType entryInfo);
                 ev = (entryInfo AND VMX_ENTRY_INTR_DELIVER_EC \<noteq> 0)
             in ReadField (vmcs_enc VMCS_VM_ENTRY_EXCEPTION_ERROR) (\<lambda>y.
                  StoreVmcb (\<lambda>v. vmcb_set64 v VMCB_CTL_EVENTINJ
                    (eventinj_make (vmxEntryVector entryInfo) svmType ev (ucast y))) k))
          else StoreVmcb (\<lambda>v. vmcb_set64 v VMCB_CTL_EVENTINJ 0) k), m(fVmcb emu \<mapsto> v), emu) y"
  proof (cases "?info AND VMX_ENTRY_INTR_VALID \<noteq> 0")
    case True
    with assms(2) show ?thesis
      by (simp only: put_event_def Let_def if_True simp_thms) (intro reaches_store reaches_read assms(1))
  next
    case False
    with assms(2) show ?thesis
      by (simp only: put_event_def Let_def if_False) (intro reaches_store)
  qed
qed

lemma reaches_controls:
  assumes "shadow_wf (fVmcs emu)"
    and "reaches (At k, m(fVmcb emu \<mapsto> put_event (fVmcs emu) (put_asid (fVmcs emu)
           (put_nested_paging (fVmcs emu) (put_intercepts (fVmcs emu) v)))), emu) y"
  shows "reaches (At (controls_prog k), m(fVmcb emu \<mapsto> v), emu) y"
proof -
  let ?rest = "\<lambda>sec. intercepts_prog (pin_controls (fVmcs emu)) (cpu_controls (fVmcs emu))
      (nested_prog sec (asid_prog sec (event_prog k)))"
  have rest: "reaches (At (?rest (secondary_controls (fVmcs emu))), m(fVmcb emu \<mapsto> v), emu) y"
    by (intro reaches_intercepts reaches_nested reaches_asid reaches_event assms)
  show ?thesis
    unfolding controls_prog_def
  proof (intro reaches_read [OF assms(1)])
    show "reaches (At (let rest = (\<lambda>sec. intercepts_prog (ucast (vread (fVmcs emu) VMCS_PIN_EXEC_CONTROL))
             (ucast (vread (fVmcs emu) VMCS_CPU_EXEC_CONTROL)) (nested_prog sec (asid_prog sec (event_prog k))))
         in if ucast (vread (fVmcs emu) VMCS_CPU_EXEC_CONTROL) AND CPU_CTL_SECONDARY_CTLS \<noteq> 0
            then ReadField (vmcs_enc VMCS_SECONDARY_EXEC_CTL) (\<lambda>x. rest (ucast x)) else rest 0), m(fVmcb emu \<mapsto> v), emu) y"
    proof (cases "cpu_controls (fVmcs emu) AND CPU_CTL_SECONDARY_CTLS \<noteq> 0")
      case True
      with rest show ?thesis
        unfolding Let_def pin_controls_def cpu_controls_def secondary_controls_def
        by (simp only: if_True not_False_eq_True) (rule reaches_read [OF assms(1)])
    next
      case False
      with rest show ?thesis
        unfolding Let_def pin_controls_def cpu_controls_def secondary_controls_def
        by (simp only: if_False)
    qed
  qed
qed

lemma reaches_fill:
  assumes "shadow_wf (fVmcs emu)"
    and "reaches (At k, m(fVmcb emu \<mapsto> translateVmcsToVmcb (fVmcs emu) v), emu) y"
  shows "reaches (At (fill_prog k), m(fVmcb emu \<mapsto> v), emu) y"
proof -
  have "reaches (At (controls_prog k), m(fVmcb emu \<mapsto> put_registers (fVmcs emu) (put_segments (fVmcs emu) v)), emu) y"
    using assms(2) unfolding translateVmcsToVmcb_def by (rule reaches_controls [OF assms(1)])
  then show ?thesis
    unfolding fill_prog_def
    by (intro reaches_put_cells [OF assms(1) fun_upd_same]) (simp only: fold_fill_cells fun_upd_upd)
qed

text \<open>The exit: the cells of the VMCB the code reads are the writes of \<open>translateVmcbToVmcs\<close>.\<close>

lemma exit_cells_at:
  "map (\<lambda>(e, ld). (e, ld v)) (exit_register_cells @ concat (map exit_segment_cells kSegs)) =
     exit_registers v @ concat (map (exit_segment v) kSegs)"
proof -
  have "map (\<lambda>(e, ld). (e, ld v)) (concat (map exit_segment_cells xs)) = concat (map (exit_segment v) xs)" for xs
    by (induction xs) (simp_all add: exit_segment_cells_def exit_segment_def)
  then show ?thesis
    by (simp add: exit_register_cells_def exit_registers_def)
qed

lemma shadow_wf_shadow_writes: "shadow_wf s \<Longrightarrow> shadow_wf (shadow_writes kvs s)"
  by (simp add: shadow_writes_def shadow.ok_writes)

lemma reaches_exit:
  assumes "shadow_wf (fVmcs emu)" and v: "m (fVmcb emu) = Some v"
    and y: "reaches (At k, m, emu\<lparr>fVmcs := translateVmcbToVmcs v (fVmcs emu) f\<rparr>) y"
  shows "reaches (At (exit_prog f k), m, emu) y"
proof -
  let ?s = "shadow_writes (exit_registers v @ concat (map (exit_segment v) kSegs)) (fVmcs emu)"
  let ?r = "snd (shadow_write ?s (vmcs_enc VMCS_VM_EXIT_REASON)
    (ucast (exit_reason_num (svmExitToVmxReason (vmcb_ld v exit_code) (vmcb_ld v exit_info_1)))))"
  let ?e = "emu\<lparr>fVmcs := ?s\<rparr>" and ?e' = "emu\<lparr>fVmcs := ?r\<rparr>"
  have wf: "shadow_wf (fVmcs ?e)" "shadow_wf (fVmcs ?e')"
    using assms(1) by (simp_all add: shadow_wf_shadow_writes shadow_wf_write)
  have exit: "translateVmcbToVmcs v (fVmcs emu) f =
      (if f AND SVM_FEATURE_NRIPS \<noteq> 0 \<and> vmcb_get64 v VMCB_CTL_NRIP > vmcb_get64 v VMCB_RIP
       then snd (shadow_write ?r (vmcs_enc VMCS_VM_EXIT_INSTR_LEN) (vmcb_get64 v VMCB_CTL_NRIP - vmcb_get64 v VMCB_RIP))
       else ?r)"
    unfolding translateVmcbToVmcs_def shadow_writes_append fold_shadow_writes Let_def by (rule refl | simp)+
  have at: "m (fVmcb ?e) = Some v" "m (fVmcb ?e') = Some v"
    using v by simp_all
  show ?thesis
    unfolding exit_prog_def
  proof (rule reaches_get_cells [of emu m v, OF assms(1) v], unfold exit_cells_at,
      rule reaches_access(1) [of m ?e v, OF at(1)], rule reaches_access(1) [of m ?e v, OF at(1)],
      rule reaches_write [OF wf(1)])
    let ?k = "if f AND SVM_FEATURE_NRIPS \<noteq> 0 then
        LoadVmcb (\<lambda>v. vmcb_get64 v VMCB_CTL_NRIP) (\<lambda>nrip. LoadVmcb (\<lambda>v. vmcb_get64 v VMCB_RIP) (\<lambda>rip.
          if nrip > rip then WriteField (vmcs_enc VMCS_VM_EXIT_INSTR_LEN) (nrip - rip) k else k)) else k"
    have "reaches (At ?k, m, ?e') y"
      using y unfolding exit
      by (auto intro!: reaches_access(1) [of m ?e' v, OF at(2)] reaches_write [OF wf(2)])
    then show "reaches (At ?k, m, ?e\<lparr>fVmcs := snd (shadow_write (fVmcs ?e) (vmcs_enc VMCS_VM_EXIT_REASON)
        (ucast (exit_reason_num (svmExitToVmxReason (vmcb_ld v exit_code) (vmcb_ld v exit_info_1)))))\<rparr>) y"
      by simp
  qed
qed

subsection \<open>The fault\<close>

lemma reaches_exit_phase:
  assumes "shadow_wf (fVmcs emu)" and "m (fVmcb emu) = Some v"
    and "reaches (At k, m, exit_emulator (emu\<lparr>fGprs := h\<rparr>) (fGprs emu) v) y"
  shows "reaches (At (exit_phase k), m, emu) y"
  unfolding exit_phase_def
proof (rule reaches_access(1) [of m emu v, OF assms(2)], rule reaches_access(6), rule reaches_access(7), rule reaches_exit)
  let ?e = "emu\<lparr>fGuestRax := vmcb_get64 v VMCB_RAX\<rparr>"
  show "shadow_wf (fVmcs ?e)" "m (fVmcb ?e) = Some v"
    using assms by simp_all
  let ?s = "translateVmcbToVmcs v (fVmcs emu) (fSvmFeatures emu)"
  have "shadow_wf (setLaunched ?s True)"
    using assms(1) by (simp add: shadow_wf_setLaunched shadow_wf_translateVmcbToVmcs)
  then show "reaches (At (SetLaunched True (ReadField (vmcs_enc VMCS_VM_EXIT_REASON) (\<lambda>_. k))), m,
      ?e\<lparr>fVmcs := translateVmcbToVmcs v (fVmcs ?e) (fSvmFeatures ?e)\<rparr>) y"
    using assms(3) by (intro reaches_access(3) reaches_read) (simp_all add: exit_emulator_def)
qed

lemma exit_emulator_gprs: "exit_emulator (emu\<lparr>fGprs := h\<rparr>) g v = exit_emulator emu g v"
  by (simp add: exit_emulator_def)

lemma fill_crash:
  "shadow_wf (fVmcs emu) \<Longrightarrow> m (fVmcb emu) = None \<Longrightarrow> reaches (At (fill_prog k), m, emu) (Crashed, m, emu)"
  unfolding fill_prog_def kSegs_def list.map concat.simps segment_cells_def append_Cons by (rule reaches_put_crash)

lemma reaches_entry:
  assumes "shadow_wf (fVmcs emu)" and "fVmcb emu \<noteq> 0" and "m (fVmcb emu) = Some v"
    and "reaches (At (enter_prog sw (exit_phase k)), m(fVmcb emu \<mapsto> entry_page emu v), emu) y"
  shows "reaches (At (launch_prog sw k), m, emu) y"
proof -
  have "reaches (At (launch_prog sw k), m(fVmcb emu \<mapsto> v), emu) y"
    unfolding launch_prog_def
    by (intro reaches_test assms(1,2) reaches_fill reaches_access(5) reaches_store)
      (use assms(4) in \<open>simp only: entry_page_def\<close>)
  moreover have "m(fVmcb emu \<mapsto> v) = m"
    using assms(3) by (rule fun_upd_idem)
  ultimately show ?thesis by simp
qed

text \<open>A launch that runs alone is \<open>vmlaunchResume\<close>.\<close>

lemma launch_reaches:
  assumes "shadow_wf (fVmcs emu)"
  shows "case vmlaunchResume sw m emu of
     None \<Rightarrow> crashes (At (launch_prog sw k), m, emu)
   | Some (r, m', emu') \<Rightarrow> reaches (At (launch_prog sw k), m, emu) (At k, m', emu')"
proof -
  consider "fVmcb emu = 0" | "fVmcb emu \<noteq> 0" "m (fVmcb emu) = None" | v where "fVmcb emu \<noteq> 0" "m (fVmcb emu) = Some v"
    by fastforce
  then show ?thesis
  proof cases
    case 1
    then show ?thesis
      by (simp add: vmlaunch_no_vmcb launch_prog_def reaches_test)
  next
    case 2
    then have "reaches (At (launch_prog sw k), m, emu) (Crashed, m, emu)"
      unfolding launch_prog_def by (intro reaches_test fill_crash assms)
    with 2 show ?thesis by (simp add: vmlaunch_dangling crashesI)
  next
    case (3 v)
    note entry = reaches_entry [of emu m v, OF assms 3]
    let ?m = "m(fVmcb emu \<mapsto> entry_page emu v)"
    show ?thesis
    proof (cases sw)
      case None
      let ?v = "vmcb_st (entry_page emu v) exit_code VMEXIT_INVALID"
      have "reaches (At (enter_prog None (exit_phase k)), ?m, emu) (At k, m(fVmcb emu \<mapsto> ?v), exit_emulator emu (fGprs emu) ?v)"
        unfolding enter_prog_def option.case
        by (intro reaches_store reaches_exit_phase [OF assms fun_upd_same, where h = "fGprs emu"]) (simp add: exit_emulator_gprs fun_upd_def)
      with 3 None show ?thesis
        by (simp add: vmlaunch_disabled [of emu m v] entry)
    next
      case (Some f)
      obtain g m' where f: "f (fVmcbPA emu) (fGprs emu) ?m = (g, m')"
        by force
      let ?e = "emu\<lparr>fGprs := g\<rparr>"
      have run: "reaches (At (enter_prog sw (exit_phase k)), ?m, emu) y"
        if "reaches (At (exit_phase k), m', ?e) y" for y
        using that f by (intro reaches_step [of "(At (enter_prog sw (exit_phase k)), ?m, emu)"]) (simp add: enter_prog_def Some)
      show ?thesis
      proof (cases "m' (fVmcb emu)")
        case None
        then have "reaches (At (exit_phase k), m', ?e) (Crashed, m', ?e)"
          unfolding exit_phase_def by (intro reaches_step [of "(At (exit_phase k), m', ?e)", unfolded exit_phase_def]) simp
        from crashesI [OF entry [OF run [OF this]]] 3 Some None show ?thesis
          by (simp add: vmlaunch_enabled [of emu m v f g m', OF 3 f])
      next
        case (Some v')
        then have "reaches (At (exit_phase k), m', ?e) (At k, m', exit_emulator emu g v')"
          using assms by (intro reaches_exit_phase [of ?e m' v' k g]) (simp_all add: exit_emulator_gprs)
        from entry [OF run [OF this]] 3 \<open>sw = Some f\<close> Some show ?thesis
          by (simp add: vmlaunch_enabled [of emu m v f g m', OF 3 f])
      qed
    qed
  qed
qed

text \<open>A fault that runs alone is \<open>handleUD\<close>.\<close>

lemma fault_reaches:
  assumes "shadow_wf (fVmcs emu)"
  shows "case handleUD lib sw m emu st of
     None \<Rightarrow> crashes (At (fault_prog lib sw st), m, emu)
   | Some (b, m', emu', st') \<Rightarrow> reaches (At (fault_prog lib sw st), m, emu) (At (Resume b st'), m', emu')"
proof (cases "decodeVmx lib st")
  case None
  then show ?thesis by (simp add: handleUD_def fault_prog_def)
next
  case (Some d)
  show ?thesis
  proof (cases "dec_op d = VMXOP_VMLAUNCH \<or> dec_op d = VMXOP_VMRESUME")
    case True
    with Some launch_reaches [OF assms, where sw = sw and m = m and k = "Resume True (vm_succeed st (dec_length d))"] show ?thesis
      by (cases "vmlaunchResume sw m emu") (auto simp: handleUD_def fault_prog_def Let_def)
  next
    case False
    have "reaches (At (WriteField e x k), m, emu) (At k, m, snd (vmwrite emu e x))" for e x k
      by (rule reaches_write [OF assms]) (simp add: vmwrite_def split_def Let_def)
    moreover have "reaches (At (ReadField e k), m, emu) (At (k (vmread emu e)), m, emu)" for e k
      by (rule reaches_read [OF assms]) (simp add: vmread_def)
    ultimately show ?thesis
      using Some False
      by (cases "dec_op d") (auto simp: handleUD_def fault_prog_def Let_def vmxon_def vmxoff_def vmptrld_def vmclear_def
          intro: reaches_access(3) [OF reaches_refl] reaches_access(4) [OF reaches_refl] split: option.split)
  qed
qed

section \<open>Every fault ends\<close>

text \<open>
  \<open>fits p n\<close>: the program ends within \<open>n\<close> steps of its own, whatever the accesses give. A call of the
  store takes at most 522 steps, two for each of the 256 slots.
\<close>

primrec fits :: "prog \<Rightarrow> nat \<Rightarrow> bool" where
  "fits (ReadField e k) n \<longleftrightarrow> 522 \<le> n \<and> (\<forall>x. fits (k x) (n - 522))"
| "fits (WriteField e x k) n \<longleftrightarrow> 522 \<le> n \<and> fits k (n - 522)"
| "fits (SetLaunched b k) n \<longleftrightarrow> 1 \<le> n \<and> fits k (n - 1)"
| "fits (SetRoot b k) n \<longleftrightarrow> 1 \<le> n \<and> fits k (n - 1)"
| "fits (TestVmcb p k) n \<longleftrightarrow> 1 \<le> n \<and> fits p (n - 1) \<and> fits k (n - 1)"
| "fits (LoadVmcb ld k) n \<longleftrightarrow> 1 \<le> n \<and> (\<forall>x. fits (k x) (n - 1))"
| "fits (StoreVmcb st k) n \<longleftrightarrow> 1 \<le> n \<and> fits k (n - 1)"
| "fits (LoadRax k) n \<longleftrightarrow> 1 \<le> n \<and> (\<forall>x. fits (k x) (n - 1))"
| "fits (StoreRax x k) n \<longleftrightarrow> 1 \<le> n \<and> fits k (n - 1)"
| "fits (LoadFeatures k) n \<longleftrightarrow> 1 \<le> n \<and> (\<forall>x. fits (k x) (n - 1))"
| "fits (RunGuest switch k) n \<longleftrightarrow> 1 \<le> n \<and> fits k (n - 1)"
| "fits (Resume b st) n \<longleftrightarrow> True"

lemma fits_mono: "fits p n \<Longrightarrow> n \<le> n' \<Longrightarrow> fits p n'"
proof (induction p arbitrary: n n')
  case (ReadField e k)
  from ReadField.prems show ?case
    by (auto intro: ReadField.IH [OF rangeI, of _ "n - 522"])
next
  case (LoadVmcb ld k)
  from LoadVmcb.prems show ?case
    by (auto intro: LoadVmcb.IH [OF rangeI, of _ "n - 1"])
next
  case (LoadRax k)
  from LoadRax.prems show ?case
    by (auto intro: LoadRax.IH [OF rangeI, of _ "n - 1"])
next
  case (LoadFeatures k)
  from LoadFeatures.prems show ?case
    by (auto intro: LoadFeatures.IH [OF rangeI, of _ "n - 1"])
qed (simp_all, (meson diff_le_mono order_trans)+)

lemma fits_put_cells: "fits k n \<Longrightarrow> fits (foldr put_cell cs k) (n + 523 * length cs)"
  by (induction cs) (auto elim: fits_mono)

lemma fits_get_cells: "fits k n \<Longrightarrow> fits (foldr get_cell cs k) (n + 523 * length cs)"
  by (induction cs) (auto elim: fits_mono)

lemma fits_controls:
  assumes "fits k n"
  shows "fits (controls_prog k) (n + 6000)"
  using assms
  by (auto simp: controls_prog_def intercepts_prog_def nested_prog_def asid_prog_def event_prog_def Let_def
      elim!: fits_mono)

lemma fits_fill: "fits k n \<Longrightarrow> fits (fill_prog k) (n + 30000)"
  unfolding fill_prog_def
  by (rule fits_mono [OF fits_put_cells [OF fits_controls [of k n]]])
    (simp_all add: kSegs_def segment_cells_def table_cells_def register_cells_def)

lemma fits_exit:
  assumes "fits k n"
  shows "fits (exit_prog f k) (n + 24000)"
  unfolding exit_prog_def
  by (rule fits_mono [OF fits_get_cells [where n = "n + 2000"]])
    (use assms in \<open>auto simp: kSegs_def exit_register_cells_def exit_segment_cells_def elim!: fits_mono\<close>)

lemma fits_fault: "fits (fault_prog lib sw st) 60000"
proof -
  have 1: "fits (exit_phase (Resume b f)) 25000" for b f
    unfolding exit_phase_def
    by (auto intro!: fits_mono [OF fits_exit [of _ 523]])
  have "fits (enter_prog sw (exit_phase (Resume b f))) 25001" for b f
    using 1 by (simp add: enter_prog_def split: option.split)
  then have "fits (launch_prog sw (Resume b f)) 60000" for b f
    unfolding launch_prog_def by (auto intro!: fits_mono [OF fits_fill [of _ 25003]])
  then show ?thesis
    by (auto simp: fault_prog_def Let_def split: option.split vmx_opcode.split)
qed

text \<open>The places of a write behind the search, where no read ever is.\<close>

fun appends :: "pc \<Rightarrow> bool" where
  "appends Room = True"
| "appends PutEnc = True"
| "appends (EncAt i) = True"
| "appends PutVal = True"
| "appends (ValAt i) = True"
| "appends Bump = True"
| "appends (Raise i) = True"
| "appends c = False"

text \<open>The steps a call of the store has left, and what a processor has.\<close>

fun call_left :: "pc \<Rightarrow> nat" where
  "call_left (Test i) = 2 * (256 - i) + 9"
| "call_left (Cmp i) = 2 * (256 - i) + 8"
| "call_left (Hit i) = 2"
| "call_left Room = 8"
| "call_left PutEnc = 7"
| "call_left (EncAt i) = 6"
| "call_left PutVal = 5"
| "call_left (ValAt i) = 4"
| "call_left Bump = 3"
| "call_left (Raise i) = 2"
| "call_left q = 1"

fun steps_left :: "fault_pc \<Rightarrow> nat \<Rightarrow> bool" where
  "steps_left (At p) n \<longleftrightarrow> fits p n"
| "steps_left (Reading e q k) n \<longleftrightarrow>
     \<not> appends q \<and> (\<forall>b. q \<noteq> Done b) \<and> call_left q \<le> n \<and> (\<forall>x. fits (k x) (n - call_left q))"
| "steps_left (Writing e x q k) n \<longleftrightarrow> (\<forall>x. q \<noteq> Value x) \<and> call_left q \<le> n \<and> fits k (n - call_left q)"
| "steps_left Crashed n \<longleftrightarrow> True"

definition fixed_array :: "kmem \<times> vmx_emulator \<Rightarrow> bool" where
  "fixed_array s \<longleftrightarrow> length (slots (fVmcs (snd s))) = 256"

lemma steps_left_0: "steps_left q 0 \<Longrightarrow> q = Crashed \<or> (\<exists>b f. q = At (Resume b f))"
proof (cases q)
  case (At p)
  then show "steps_left q 0 \<Longrightarrow> q = Crashed \<or> (\<exists>b f. q = At (Resume b f))" by (cases p) simp_all
next
  case (Reading e c k)
  then show "steps_left q 0 \<Longrightarrow> q = Crashed \<or> (\<exists>b f. q = At (Resume b f))" by (cases c) simp_all
next
  case (Writing e x c k)
  then show "steps_left q 0 \<Longrightarrow> q = Crashed \<or> (\<exists>b f. q = At (Resume b f))" by (cases c) simp_all
qed simp

lemma read_left:
  assumes "length (slots s) = 256" and "\<not> appends q \<and> (\<forall>b. q \<noteq> Done b)"
    and "q \<noteq> Fault" and "\<forall>x. q \<noteq> Value x" and "read_step e (q, s) = (q', s')"
  shows "call_left q' < call_left q \<and> \<not> appends q' \<and> (\<forall>b. q' \<noteq> Done b) \<and> s' = s"
proof (cases q)
  case (Cmp i)
  with assms(1,5) show ?thesis by (cases "i < 256") (auto split: if_splits)
next
  case (Hit i)
  with assms(1,5) show ?thesis by (cases "i < 256") auto
next
  case (Done b)
  with assms(2) show ?thesis by blast
qed (use assms in \<open>auto split: if_splits\<close>)

lemma write_left:
  assumes "length (slots s) = 256" and "q \<noteq> Fault" and "\<forall>x. q \<noteq> Value x" and "\<forall>b. q \<noteq> Done b"
    and "write_step e x (q, s) = (q', s')"
  shows "call_left q' < call_left q \<and> (\<forall>x. q' \<noteq> Value x)"
proof (cases q)
  case (Cmp i)
  with assms(1,5) show ?thesis by (cases "i < 256") (auto split: if_splits)
next
  case (Hit i)
  with assms(1,5) show ?thesis by (cases "i < 256") auto
next
  case (EncAt i)
  with assms(1,5) show ?thesis by (cases "i < 256") auto
next
  case (ValAt i)
  with assms(1,5) show ?thesis by (cases "i < 256") auto
qed (use assms in \<open>auto split: if_splits\<close>)

lemma fixed_array_step: "fixed_array s \<Longrightarrow> fixed_array (snd (fault_step (q, s)))"
proof -
  obtain m emu where s: "s = (m, emu)" by force
  have same: "snd (read_step e (c, t)) = t" for e c t
    by (cases c) (simp_all add: at_slot_def)
  have len: "length (slots (snd (write_step e x (c, t)))) = length (slots t)" for e x c t
    by (cases c) (simp_all add: at_slot_def)
  assume ok: "fixed_array s"
  show ?thesis
  proof (cases q)
    case (At p)
    with ok s show ?thesis
      by (cases p) (auto simp: fixed_array_def setLaunched_def at_vmcb_def split: option.split prod.split)
  next
    case (Reading e c k)
    with ok s same [of e c "fVmcs emu"] show ?thesis
      by (cases c) (auto simp: fixed_array_def split: prod.split simp del: read_step.simps)
  next
    case (Writing e x c k)
    with ok s len [of e x c "fVmcs emu"] show ?thesis
      by (cases c) (auto simp: fixed_array_def split: prod.split simp del: write_step.simps)
  qed (use ok in simp)
qed

lemma fault_step_left:
  assumes "fixed_array s" and "steps_left q n" and "fault_step (q, s) = (q', s')"
  shows "steps_left q' (n - 1)"
proof -
  obtain m emu where s: "s = (m, emu)" by force
  show ?thesis
  proof (cases q)
    case (At p)
    with assms s show ?thesis
      by (cases p) (auto simp: at_vmcb_def split: option.splits prod.splits)
  next
    case (Reading e c k)
    show ?thesis
    proof (cases "c = Fault \<or> (\<exists>x. c = Value x)")
      case True
      with Reading assms s show ?thesis by auto
    next
      case False
      obtain c' t where step: "read_step e (c, fVmcs emu) = (c', t)" by force
      have left: "call_left c' < call_left c \<and> \<not> appends c' \<and> (\<forall>b. c' \<noteq> Done b) \<and> t = fVmcs emu"
        by (rule read_left [OF _ _ _ _ step]) (use assms Reading False s in \<open>auto simp: fixed_array_def\<close>)
      have "fault_step (Reading e c k, m, emu\<lparr>fVmcs := fVmcs emu\<rparr>) = (Reading e c' k, m, emu\<lparr>fVmcs := t\<rparr>)"
        using False step by (intro fault_step_call) auto
      with assms(3) Reading s have next_pc: "q' = Reading e c' k"
        by (simp del: fault_step.simps)
      have "fits (k x) (n - 1 - call_left c')" for x
        using assms(2) left Reading by (auto intro: fits_mono [of "k x" "n - call_left c"])
      with next_pc left assms(2) Reading show ?thesis by auto
    qed
  next
    case (Writing e x c k)
    show ?thesis
    proof (cases "c = Fault \<or> (\<exists>b. c = Done b)")
      case True
      with Writing assms s show ?thesis by auto
    next
      case False
      obtain c' t where step: "write_step e x (c, fVmcs emu) = (c', t)" by force
      have left: "call_left c' < call_left c \<and> (\<forall>x. c' \<noteq> Value x)"
        by (rule write_left [OF _ _ _ _ step]) (use assms Writing False s in \<open>auto simp: fixed_array_def\<close>)
      have "fault_step (Writing e x c k, m, emu\<lparr>fVmcs := fVmcs emu\<rparr>) = (Writing e x c' k, m, emu\<lparr>fVmcs := t\<rparr>)"
        using False step by (intro fault_step_call) auto
      with assms(3) Writing s have next_pc: "q' = Writing e x c' k"
        by (simp del: fault_step.simps)
      have "fits k (n - 1 - call_left c')"
        using assms(2) left Writing by (auto intro: fits_mono [of k "n - call_left c"])
      with next_pc left assms(2) Writing show ?thesis by auto
    qed
  next
    case Crashed
    with assms show ?thesis by simp
  qed
qed

text \<open>
  Under any schedule, whatever the others do to the store, a processor that was given 60000 steps of
  its own has resumed its instruction stream or crashed.
\<close>

lemma faults_end:
  assumes "fixed_array s" and "60000 \<le> count_list ts t"
    and "run_threads (\<lambda>_. fault_step) ts (\<lambda>u. At (fault_prog lib sw (st u)), s) = (pcs, s')"
  shows "pcs t = Crashed \<or> (\<exists>b f. pcs t = At (Resume b f))"
proof -
  have "steps_left (fst (run_threads (\<lambda>_. fault_step) ts (\<lambda>u. At (fault_prog lib sw (st u)), s)) t) (60000 - count_list ts t)"
    by (rule run_threads_left [where ok = fixed_array])
      (use fault_step_left fixed_array_step assms(1) fits_fault in simp_all)
  with assms(2,3) show ?thesis
    by (intro steps_left_0) simp
qed

end
