(* ===== verification/LaunchRaces.thy ===== *)
theory LaunchRaces
  imports LaunchSteps TranslateProps
begin

text \<open>
  \<open>VmxEmulator::handleUD\<close> on the one emulator of the plugin, executed by several processors at
  once, one shared access at a time as in \<^verbatim>\<open>LaunchSteps\<close>. Readers disturb nothing; as long
  as at most one processor adds fields to the shadow VMCS no schedule makes a fault leave the store or
  the mapped memory; and two launches lose the work of a guest.
\<close>

text \<open>The faults of all processors, each given by its trap frame, under a schedule.\<close>

abbreviation run_faults ::
  "hde_lib \<Rightarrow> world_switch option \<Rightarrow> (nat \<Rightarrow> amdv_saved_state64) \<Rightarrow> nat list \<Rightarrow> kmem \<times> vmx_emulator
    \<Rightarrow> (nat \<Rightarrow> fault_pc) \<times> kmem \<times> vmx_emulator" where
  "run_faults lib sw st ts s \<equiv> run_threads (\<lambda>_. fault_step) ts (\<lambda>u. At (fault_prog lib sw (st u)), s)"

section \<open>A fault beside readers\<close>

definition reads_only :: "hde_lib \<Rightarrow> amdv_saved_state64 \<Rightarrow> bool" where
  "reads_only lib st =
     (case decodeVmx lib st of
        None \<Rightarrow> True
      | Some d \<Rightarrow> dec_op d \<in> {VMXOP_VMREAD, VMXOP_VMPTRST, VMXOP_INVEPT, VMXOP_INVVPID})"

fun quiet_prog :: "prog \<Rightarrow> bool" where
  "quiet_prog (ReadField e k) = (\<forall>x. \<exists>b st. k x = Resume b st)"
| "quiet_prog (Resume b st) = True"
| "quiet_prog p = False"

fun quiet :: "fault_pc \<Rightarrow> bool" where
  "quiet (At p) = quiet_prog p"
| "quiet (Reading e c k) = (\<forall>x. \<exists>b st. k x = Resume b st)"
| "quiet (Writing e x c k) = False"
| "quiet Crashed = True"

lemma reads_only_quiet: "reads_only lib st \<Longrightarrow> quiet (At (fault_prog lib sw st))"
  by (auto simp: reads_only_def fault_prog_def Let_def split: option.splits)

lemma read_step_same: "snd (read_step e (c, s)) = s"
  by (cases c) (simp_all add: at_slot_def)

lemma quiet_step:
  assumes "quiet p"
  shows "quiet (fst (fault_step (p, s))) \<and> snd (fault_step (p, s)) = s"
proof (cases p)
  case (At q)
  with assms show ?thesis by (cases q; cases s) auto
next
  case (Reading e c k)
  obtain b st where "k x = Resume (b x) (st x)" for x
    using assms Reading by (auto dest!: choice)
  with assms Reading read_step_same [of e c "fVmcs (snd s)"] show ?thesis
    by (cases s; cases c) (auto simp del: read_step.simps split: prod.split)
qed (use assms in simp_all)

text \<open>A stopped fault is where the run of the lone fault ends, however long it is.\<close>

lemma lone_outcome:
  assumes "reaches x y" and "fault_step y = y" and "(fault_step ^^ n) x = z" and "fault_step z = z"
  shows "z = y"
proof -
  obtain k where k: "(fault_step ^^ k) x = y"
    using assms(1) by (auto simp: reaches_def)
  from run_steps_stay [OF k assms(2), of "max k n"] run_steps_stay [OF assms(3,4), of "max k n"]
  show ?thesis by simp
qed

text \<open>
  C11: a fault beside readers is atomic. While the other processors take any faults that only read
  (VMREAD, VMPTRST, the TLB hints, or no VMX instruction at all), in any number and at any points of
  the schedule, a processor that takes any fault on a well-formed shadow VMCS, executed one shared
  access at a time, has ended after 60000 steps of its own with exactly the result, registers, memory
  and emulator of \<open>handleUD\<close> run alone.
\<close>

theorem fault_beside_readers_is_atomic:
  assumes "\<forall>u. u \<noteq> t \<longrightarrow> reads_only lib (st u)" and "shadow_wf (fVmcs emu)" and "60000 \<le> count_list ts t"
    and "run_faults lib sw st ts (m, emu) = (pcs, m', emu')"
  shows "case handleUD lib sw m emu (st t) of
      None \<Rightarrow> pcs t = Crashed
    | Some (b, s, e, f) \<Rightarrow> pcs t = At (Resume b f) \<and> m' = s \<and> emu' = e"
proof -
  let ?x = "(At (fault_prog lib sw (st t)), m, emu)"
  have mine: "(pcs t, m', emu') = (fault_step ^^ count_list ts t) ?x"
    using run_threads_beside [of t quiet "\<lambda>_. fault_step" "\<lambda>u. At (fault_prog lib sw (st u))" ts "(m, emu)"]
      quiet_step reads_only_quiet assms(1,4) by simp
  have "fixed_array (m, emu)"
    using assms(2) by (simp add: fixed_array_def shadow_wf_def MaxFields_def)
  from faults_end [OF this assms(3,4)] have stop: "fault_step (pcs t, m', emu') = (pcs t, m', emu')"
    by auto
  note same = lone_outcome [OF _ _ mine [symmetric] stop]
  show ?thesis
  proof (cases "handleUD lib sw m emu (st t)")
    case None
    with fault_reaches [OF assms(2), where lib = lib and sw = sw and m = m and st = "st t"] obtain s where "reaches ?x (Crashed, s)"
      by (auto simp: crashes_def)
    from same [OF this] None show ?thesis by simp
  next
    case (Some r)
    obtain b s e f where r: "r = (b, s, e, f)" by (cases r) auto
    with Some fault_reaches [OF assms(2), where lib = lib and sw = sw and m = m and st = "st t"] have "reaches ?x (At (Resume b f), s, e)" by simp
    from same [OF this] Some r show ?thesis by simp
  qed
qed

text \<open>A VMLAUNCH at the address of the sample frame and a VMREAD everywhere else.\<close>

definition sample_mixed :: hde_lib where
  "sample_mixed =
    \<lparr>hde64_disasm = (\<lambda>a. (3, if a = 0x1000 then sample_hs 0x01 0xC2 3 0 2 else sample_hs 0x78 0xC2 3 0 2)),
     F_ERROR = 0x1000\<rparr>"

definition sample_frames :: "nat \<Rightarrow> amdv_saved_state64" where
  "sample_frames u = (if u = 0 then sample_frame else vm_succeed sample_frame 3)"

lemma decode_sample_mixed:
  "decodeVmx sample_mixed (sample_frames 0) = Some (new_decoded\<lparr>dec_op := VMXOP_VMLAUNCH, dec_length := 3\<rparr>)"
  "u \<noteq> 0 \<Longrightarrow> reads_only sample_mixed (sample_frames u)"
  by (simp_all add: reads_only_def decodeVmx_def sample_mixed_def sample_defs classify_def new_decoded_def
      vm_succeed_def sample_frames_def Let_def)

lemma launch_sample:
  obtains m emu where "handleUD sample_mixed None one_page bound_emulator (sample_frames 0)
      = Some (True, m, emu, vm_succeed sample_frame 3)" "isLaunched (fVmcs emu)"
  using vmlaunch_disabled [of bound_emulator one_page "\<lambda>_. 0"] decode_sample_mixed(1)
  by (simp add: bound_emulator_simps handleUD_def new_decoded_def exit_emulator_def isLaunched_def setLaunched_def
      sample_frames_def)

lemma count_list_replicate_same: "count_list (replicate n x) x = n"
  by (induction n) simp_all

text \<open>The launch of processor 0, with a step of a reader before, in and after it.\<close>

definition sample_schedule :: "nat list" where
  "sample_schedule = 1 # replicate 30000 0 @ 2 # replicate 30000 0 @ [1]"

lemma sample_schedule_steps: "60000 \<le> count_list sample_schedule 0"
  by (simp add: sample_schedule_def count_list_replicate_same)

theorem fault_beside_readers_is_atomic_witness:
  "\<exists>pcs m emu. run_faults sample_mixed None sample_frames sample_schedule (one_page, bound_emulator) = (pcs, m, emu)
    \<and> pcs 0 = At (Resume True (vm_succeed sample_frame 3)) \<and> isLaunched (fVmcs emu)"
proof -
  obtain pcs m emu where run: "run_faults sample_mixed None sample_frames sample_schedule (one_page, bound_emulator) = (pcs, m, emu)"
    by (metis prod_cases3)
  have readers: "\<forall>u. u \<noteq> 0 \<longrightarrow> reads_only sample_mixed (sample_frames u)" and wf: "shadow_wf (fVmcs bound_emulator)"
    by (simp_all add: decode_sample_mixed bound_emulator_simps shadow_wf_new)
  obtain m1 emu1 where "handleUD sample_mixed None one_page bound_emulator (sample_frames 0)
      = Some (True, m1, emu1, vm_succeed sample_frame 3)" "isLaunched (fVmcs emu1)"
    by (rule launch_sample)
  with fault_beside_readers_is_atomic [OF readers wf sample_schedule_steps run] run show ?thesis
    by auto
qed

section \<open>Any schedule of faults\<close>

text \<open>
  A fault adds no field to the store \<open>s\<close> when what it writes is there already: the encoding of a
  VMWRITE, the 42 fields the exit of a launch sets.
\<close>

definition adds_no_field :: "hde_lib \<Rightarrow> shadow_vmcs \<Rightarrow> amdv_saved_state64 \<Rightarrow> bool" where
  "adds_no_field lib s st =
     (case decodeVmx lib st of
        None \<Rightarrow> True
      | Some d \<Rightarrow>
          if dec_op d = VMXOP_VMWRITE then shadow_map s (dec_field d) \<noteq> None
          else dec_op d \<in> {VMXOP_VMLAUNCH, VMXOP_VMRESUME} \<longrightarrow> set exit_encodings \<subseteq> dom (shadow_map s))"

text \<open>What the rest of a fault may do: write fields of \<open>F\<close> only, touch the VMCB only when one is bound.\<close>

primrec writes_in :: "u32 set \<Rightarrow> prog \<Rightarrow> bool" where
  "writes_in F (ReadField e k) \<longleftrightarrow> (\<forall>x. writes_in F (k x))"
| "writes_in F (WriteField e x k) \<longleftrightarrow> e \<in> F \<and> writes_in F k"
| "writes_in F (SetLaunched b k) \<longleftrightarrow> writes_in F k"
| "writes_in F (SetRoot b k) \<longleftrightarrow> writes_in F k"
| "writes_in F (TestVmcb p k) \<longleftrightarrow> writes_in F p \<and> writes_in F k"
| "writes_in F (LoadVmcb ld k) \<longleftrightarrow> (\<forall>x. writes_in F (k x))"
| "writes_in F (StoreVmcb st k) \<longleftrightarrow> writes_in F k"
| "writes_in F (LoadRax k) \<longleftrightarrow> (\<forall>x. writes_in F (k x))"
| "writes_in F (StoreRax x k) \<longleftrightarrow> writes_in F k"
| "writes_in F (LoadFeatures k) \<longleftrightarrow> (\<forall>x. writes_in F (k x))"
| "writes_in F (RunGuest f k) \<longleftrightarrow> writes_in F k"
| "writes_in F (Resume b st) \<longleftrightarrow> True"

primrec bound_only :: "world_switch option \<Rightarrow> u64 \<Rightarrow> prog \<Rightarrow> bool" where
  "bound_only sw p (ReadField e k) \<longleftrightarrow> (\<forall>x. bound_only sw p (k x))"
| "bound_only sw p (WriteField e x k) \<longleftrightarrow> bound_only sw p k"
| "bound_only sw p (SetLaunched b k) \<longleftrightarrow> bound_only sw p k"
| "bound_only sw p (SetRoot b k) \<longleftrightarrow> bound_only sw p k"
| "bound_only sw p (TestVmcb q k) \<longleftrightarrow> bound_only sw p q \<and> (p \<noteq> 0 \<longrightarrow> bound_only sw p k)"
| "bound_only sw p (LoadVmcb ld k) \<longleftrightarrow> p \<noteq> 0 \<and> (\<forall>x. bound_only sw p (k x))"
| "bound_only sw p (StoreVmcb st k) \<longleftrightarrow> p \<noteq> 0 \<and> bound_only sw p k"
| "bound_only sw p (LoadRax k) \<longleftrightarrow> (\<forall>x. bound_only sw p (k x))"
| "bound_only sw p (StoreRax x k) \<longleftrightarrow> bound_only sw p k"
| "bound_only sw p (LoadFeatures k) \<longleftrightarrow> (\<forall>x. bound_only sw p (k x))"
| "bound_only sw p (RunGuest f k) \<longleftrightarrow> p \<noteq> 0 \<and> sw = Some f \<and> bound_only sw p k"
| "bound_only sw p (Resume b st) \<longleftrightarrow> True"

lemma writes_in_put_cells: "writes_in F k \<Longrightarrow> writes_in F (foldr put_cell cs k)"
  by (induction cs) auto

lemma writes_in_get_cells: "fst ` set cs \<subseteq> F \<Longrightarrow> writes_in F k \<Longrightarrow> writes_in F (foldr get_cell cs k)"
  by (induction cs) auto

lemma bound_only_put_cells: "p \<noteq> 0 \<Longrightarrow> bound_only sw p k \<Longrightarrow> bound_only sw p (foldr put_cell cs k)"
  by (induction cs) auto

lemma bound_only_get_cells: "p \<noteq> 0 \<Longrightarrow> bound_only sw p k \<Longrightarrow> bound_only sw p (foldr get_cell cs k)"
  by (induction cs) auto

lemmas controls_defs = controls_prog_def intercepts_prog_def nested_prog_def asid_prog_def event_prog_def Let_def

lemma fill_fits:
  "writes_in F k \<Longrightarrow> writes_in F (fill_prog k)"
  "p \<noteq> 0 \<Longrightarrow> bound_only sw p k \<Longrightarrow> bound_only sw p (fill_prog k)"
  unfolding fill_prog_def
  by (intro writes_in_put_cells, simp add: controls_defs) (intro bound_only_put_cells, simp, simp add: controls_defs)

lemma fst_exit_cells:
  "fst ` set (exit_register_cells @ concat (map exit_segment_cells kSegs)) \<union> {0x4402, 0x440C} = set exit_encodings"
  by (simp add: exit_register_cells_def exit_segment_cells_def kSegs_def exit_encodings_def vmcs_enc.simps insert_commute)

lemma writes_in_exit:
  assumes "set exit_encodings \<subseteq> F" and "writes_in F k"
  shows "writes_in F (exit_prog f k)"
proof -
  have "fst ` set (exit_register_cells @ concat (map exit_segment_cells kSegs)) \<subseteq> F" "0x4402 \<in> F" "0x440C \<in> F"
    using assms(1) unfolding fst_exit_cells [symmetric] by blast+
  with assms(2) show ?thesis
    unfolding exit_prog_def by (intro writes_in_get_cells) (simp_all add: vmcs_enc.simps)
qed

lemma bound_only_exit: "p \<noteq> 0 \<Longrightarrow> bound_only sw p k \<Longrightarrow> bound_only sw p (exit_prog f k)"
  unfolding exit_prog_def by (intro bound_only_get_cells) simp_all

lemma writes_in_launch: "set exit_encodings \<subseteq> F \<Longrightarrow> writes_in F (launch_prog sw (Resume b st))"
  by (auto simp: launch_prog_def enter_prog_def exit_phase_def intro!: fill_fits(1) writes_in_exit split: option.split)

lemma bound_only_launch: "bound_only sw p (launch_prog sw (Resume b st))"
  by (auto simp: launch_prog_def enter_prog_def exit_phase_def intro!: fill_fits(2) bound_only_exit split: option.split)

lemma writes_in_fault: "adds_no_field lib s st \<Longrightarrow> writes_in (dom (shadow_map s)) (fault_prog lib sw st)"
  by (auto simp: adds_no_field_def fault_prog_def Let_def intro!: writes_in_launch split: option.split vmx_opcode.split)

lemma bound_only_fault: "bound_only sw p (fault_prog lib sw st)"
  by (auto simp: fault_prog_def Let_def bound_only_launch split: option.split vmx_opcode.split)

text \<open>
  What holds of a processor under any schedule: what its call of the store has found, and, unless it is
  the one that may add fields, that it only writes what is there.
\<close>

fun store_ok :: "bool \<Rightarrow> u32 set \<Rightarrow> fault_pc \<Rightarrow> shadow_vmcs \<Rightarrow> bool" where
  "store_ok adds F (At p) s \<longleftrightarrow> adds \<or> writes_in F p"
| "store_ok adds F (Reading e c k) s \<longleftrightarrow> search_inv e c s \<and> (adds \<or> (\<forall>x. writes_in F (k x)))"
| "store_ok adds F (Writing e x c k) s \<longleftrightarrow> write_inv e x c s
     \<and> (adds \<or> e \<in> F \<and> \<not> appends c \<and> writes_in F k)"
| "store_ok adds F Crashed s = False"

fun page_ok :: "world_switch option \<Rightarrow> u64 \<Rightarrow> fault_pc \<Rightarrow> bool" where
  "page_ok sw p (At q) = bound_only sw p q"
| "page_ok sw p (Reading e c k) = (\<forall>x. bound_only sw p (k x))"
| "page_ok sw p (Writing e x c k) = bound_only sw p k"
| "page_ok sw p Crashed = False"

text \<open>How one step of a processor changes the store under the others.\<close>

definition same_fields :: "shadow_vmcs \<Rightarrow> shadow_vmcs \<Rightarrow> bool" where
  "same_fields s s' \<longleftrightarrow> count s' = count s \<and> (\<forall>j. enc (slots s' ! j) = enc (slots s ! j))
     \<and> slots s' ! count s = slots s ! count s"

lemma write_inv_same: "same_fields s s' \<Longrightarrow> write_inv e v c s \<Longrightarrow> write_inv e v c s'"
  by (cases c) (auto simp: same_fields_def absent_below_def)

lemma same_fields_refl: "same_fields s s"
  by (simp add: same_fields_def)

lemma same_fields_hit:
  "i < count s \<Longrightarrow> same_fields s (s\<lparr>slots := (slots s)[i := (slots s ! i)\<lparr>val := v\<rparr>]\<rparr>)"
  by (cases "i < length (slots s)") (auto simp: same_fields_def nth_list_update list_update_beyond)

lemma same_fields_setLaunched: "same_fields s (setLaunched s b)"
  by (simp add: same_fields_def setLaunched_def)

lemma same_fields_grows: "same_fields s s' \<Longrightarrow> grows s s'"
  by (simp add: same_fields_def grows_def)

lemma reads_only_adds: "reads_only lib st \<Longrightarrow> adds_no_field lib s st"
  by (auto simp: reads_only_def adds_no_field_def split: option.splits)

lemma present_not_absent:
  "shadow_wf s \<Longrightarrow> e \<in> dom (shadow_map s) \<Longrightarrow> absent_below e i s \<Longrightarrow> i < count s"
  using search_miss(1) [of e i s] find_slot_map [of s e] by fastforce

lemma dom_shadow_map_slots: "shadow_wf s \<Longrightarrow> e \<in> dom (shadow_map s) \<longleftrightarrow> (\<exists>j < count s. enc (slots s ! j) = e)"
  by (cases "find_slot s e 0") (auto simp: domIff find_slot_map find_slot_None_iff find_slot_Some_iff)

lemma grows_dom: "shadow_wf s \<Longrightarrow> shadow_wf s' \<Longrightarrow> grows s s' \<Longrightarrow> dom (shadow_map s) \<subseteq> dom (shadow_map s')"
  unfolding subset_iff by (auto simp: dom_shadow_map_slots grows_def simp del: domIff intro: less_le_trans)

text \<open>A writer of a field that is there changes no encoding and reaches no slot behind the last.\<close>

lemma present_write:
  assumes wf: "shadow_wf s" and e: "e \<in> dom (shadow_map s)" and inv: "write_inv e v c s"
    and c: "\<not> appends c" and step: "write_step e v (c, s) = (c', s')"
  shows "same_fields s s' \<and> \<not> appends c'"
proof (cases c)
  case (Test i)
  with inv present_not_absent [OF wf e] step show ?thesis by (auto simp: same_fields_refl)
next
  case (Cmp i)
  with inv wf step show ?thesis by (auto simp: same_fields_refl shadow_wf_def split: if_splits)
next
  case (Hit i)
  with inv wf step same_fields_hit [of i s v] show ?thesis by (auto simp: shadow_wf_def)
qed (use c step in \<open>auto simp: same_fields_refl\<close>)

lemma store_ok_step:
  assumes wf: "shadow_wf (fVmcs emu)" and F: "F \<subseteq> dom (shadow_map (fVmcs emu))"
    and ok: "store_ok adds F q (fVmcs emu)" and step: "fault_step (q, m, emu) = (q', m', emu')"
  shows "shadow_wf (fVmcs emu') \<and> grows (fVmcs emu) (fVmcs emu') \<and> (q' \<noteq> Crashed \<longrightarrow> store_ok adds F q' (fVmcs emu'))
    \<and> (adds \<or> same_fields (fVmcs emu) (fVmcs emu'))"
proof (cases q)
  case (At p)
  note launched = shadow_wf_setLaunched [OF wf] same_fields_setLaunched same_fields_grows [OF same_fields_setLaunched]
  show ?thesis
    using assms At
    by (cases p) (auto simp: at_vmcb_def absent_below_def grows_refl same_fields_refl launched
        split: option.splits prod.splits)
next
  case (Reading e c k)
  show ?thesis
  proof (cases "\<exists>x. c = Value x")
    case True
    with Reading assms show ?thesis by (auto simp: grows_refl same_fields_refl)
  next
    case False
    with Reading ok have c: "c \<noteq> Fault" "search_inv e c (fVmcs emu)" by auto
    obtain c' t where read: "read_step e (c, fVmcs emu) = (c', t)" by force
    with read_step_inv [OF wf c(2)] have "t = fVmcs emu" "search_inv e c' (fVmcs emu)" by auto
    moreover have "(q', m', emu') = (Reading e c' k, m, emu\<lparr>fVmcs := t\<rparr>)"
      using fault_step_call(1) [OF read c(1), of k m emu] False step Reading by (simp del: fault_step.simps)
    ultimately show ?thesis
      using wf ok Reading by (simp add: grows_refl same_fields_refl)
  qed
next
  case (Writing e x c k)
  show ?thesis
  proof (cases "\<exists>b. c = Done b")
    case True
    with Writing assms show ?thesis by (auto simp: grows_refl same_fields_refl)
  next
    case False
    with Writing ok have c: "c \<noteq> Fault" "write_inv e x c (fVmcs emu)" by auto
    obtain c' t where wr: "write_step e x (c, fVmcs emu) = (c', t)" by force
    with write_step_inv [OF wf c(2)] have t: "shadow_wf t" "write_inv e x c' t" "grows (fVmcs emu) t" by auto
    have "(q', m', emu') = (Writing e x c' k, m, emu\<lparr>fVmcs := t\<rparr>)"
      using fault_step_call(2) [OF wr c(1), of k m emu] False step Writing by (simp del: fault_step.simps)
    moreover have "same_fields (fVmcs emu) t \<and> \<not> appends c'" if "\<not> adds"
      using present_write [OF wf _ c(2) _ wr] that ok F Writing by auto
    ultimately show ?thesis
      using t ok Writing by auto
  qed
qed (use ok in simp)

lemma store_ok_other:
  assumes "store_ok adds F q s" and "grows s s'" and "\<not> adds \<or> same_fields s s'"
  shows "store_ok adds F q s'"
proof (cases q)
  case (Writing e x c k)
  have "write_inv e x c s'"
  proof (cases adds)
    case True
    with assms Writing write_inv_same [of s s' e x c] show ?thesis by simp
  next
    case False
    with assms Writing search_inv_grows [OF assms(2), of e c] show ?thesis by (cases c) auto
  qed
  with assms(1) Writing show ?thesis by simp
qed (use assms search_inv_grows [OF assms(2)] in auto)

lemma page_step:
  assumes "page_ok sw p q" and "fVmcb emu = p" and "p = 0 \<or> m p \<noteq> None" and "keeps_mapped sw p"
    and "store_ok adds F q (fVmcs emu)" and "fault_step (q, m, emu) = (q', m', emu')"
  shows "page_ok sw p q' \<and> fVmcb emu' = p \<and> (p = 0 \<or> m' p \<noteq> None) \<and> (sw = None \<longrightarrow> (\<forall>a. a \<noteq> p \<longrightarrow> m' a = m a))"
proof (cases q)
  case (At r)
  show ?thesis
  proof (cases "\<exists>f k. r = RunGuest f k")
    case True
    then obtain f k where r: "r = RunGuest f k" by blast
    obtain g m1 where f: "f (fVmcbPA emu) (fGprs emu) m = (g, m1)" by force
    have "p \<noteq> 0" "sw = Some f" "bound_only sw p k" "m p \<noteq> None"
      using assms(1,3) At r by auto
    moreover from this have "snd (f (fVmcbPA emu) (fGprs emu) m) p \<noteq> None"
      using assms(4) by (simp add: keeps_mapped_def)
    ultimately show ?thesis
      using assms(2,6) At r f by auto
  next
    case False
    with At assms show ?thesis
      by (cases r) (auto simp: at_vmcb_def split: option.splits if_splits)
  qed
next
  case (Reading e c k)
  with assms show ?thesis
    by (cases c) (auto split: prod.splits simp del: read_step.simps)
next
  case (Writing e x c k)
  with assms show ?thesis
    by (cases c) (auto split: prod.splits simp del: write_step.simps)
qed (use assms in simp)

definition faults_inv ::
  "world_switch option \<Rightarrow> u64 \<Rightarrow> kmem \<Rightarrow> nat \<Rightarrow> u32 set \<Rightarrow> (nat \<Rightarrow> fault_pc) \<times> kmem \<times> vmx_emulator \<Rightarrow> bool" where
  "faults_inv sw p m0 w F st \<longleftrightarrow>
     emu_inv p (snd st) \<and> keeps_mapped sw p \<and> F \<subseteq> dom (shadow_map (fVmcs (snd (snd st))))
     \<and> (\<forall>u. page_ok sw p (fst st u) \<and> store_ok (u = w) F (fst st u) (fVmcs (snd (snd st))))
     \<and> (sw = None \<longrightarrow> (\<forall>q. q \<noteq> p \<longrightarrow> fst (snd st) q = m0 q))"

interpretation racing_faults: shared_calls "\<lambda>_. fault_step" "faults_inv sw p m0 w F" for sw p m0 w F
proof
  fix pcs :: "nat \<Rightarrow> fault_pc" and s t q s'
  assume inv: "faults_inv sw p m0 w F (pcs, s)" and step: "fault_step (pcs t, s) = (q, s')"
  obtain m emu m' emu' where s: "s = (m, emu)" "s' = (m', emu')" by (cases s; cases s') auto
  have here: "shadow_wf (fVmcs emu)" "fVmcb emu = p" "p = 0 \<or> m p \<noteq> None" "keeps_mapped sw p"
      "F \<subseteq> dom (shadow_map (fVmcs emu))" "page_ok sw p (pcs t)" "store_ok (t = w) F (pcs t) (fVmcs emu)"
    using inv by (auto simp: faults_inv_def emu_inv_def s)
  note st = step [unfolded s]
  have page: "page_ok sw p q" "fVmcb emu' = p" "p = 0 \<or> m' p \<noteq> None" "sw = None \<longrightarrow> (\<forall>a. a \<noteq> p \<longrightarrow> m' a = m a)"
    using page_step [OF here(6,2,3,4,7) st] by simp_all
  then have "q \<noteq> Crashed" by auto
  with store_ok_step [OF here(1,5,7) st] have store: "shadow_wf (fVmcs emu')" "grows (fVmcs emu) (fVmcs emu')"
      "store_ok (t = w) F q (fVmcs emu')" "t = w \<or> same_fields (fVmcs emu) (fVmcs emu')" by auto
  have others: "store_ok (u = w) F (pcs u) (fVmcs emu')" if "u \<noteq> t" for u
    by (rule store_ok_other [OF _ store(2)]) (use inv store(4) that in \<open>auto simp: faults_inv_def s\<close>)
  have "F \<subseteq> dom (shadow_map (fVmcs emu'))"
    using here(5) grows_dom [OF here(1) store(1,2)] by simp
  with inv page store others show "faults_inv sw p m0 w F (pcs(t := q), s')"
    by (simp add: faults_inv_def emu_inv_def s)
qed

text \<open>
  C10: races of faults under one condition. Any number of processors take any faults, launches
  included, on the one emulator, executed one shared access at a time under any schedule. If all of
  them but at most one (\<open>w\<close>) write only fields the shadow VMCS holds already, then none crashes: no
  access leaves the 256 slots or the mapped memory; the shadow VMCS stays well formed and loses no
  field, the binding stays, without guest entry no page but the VMCB changes, and a processor that was
  given 60000 steps has resumed its instruction stream. Two processors that both add fields break
  this: \<open>StoreRaces\<close> has the schedules.
\<close>

theorem racing_faults_safe:
  assumes "emu_inv p (m, emu)" and "keeps_mapped sw p" and "\<forall>u. u \<noteq> w \<longrightarrow> adds_no_field lib (fVmcs emu) (st u)"
    and "run_faults lib sw st ts (m, emu) = (pcs, m', emu')"
  shows "pcs t \<noteq> Crashed \<and> shadow_wf (fVmcs emu') \<and> fVmcb emu' = p
    \<and> dom (shadow_map (fVmcs emu)) \<subseteq> dom (shadow_map (fVmcs emu'))
    \<and> (60000 \<le> count_list ts t \<longrightarrow> (\<exists>b f. pcs t = At (Resume b f)))
    \<and> (sw = None \<longrightarrow> (\<forall>q. q \<noteq> p \<longrightarrow> m' q = m q))"
proof -
  let ?F = "dom (shadow_map (fVmcs emu))"
  have "faults_inv sw p m w ?F (\<lambda>u. At (fault_prog lib sw (st u)), m, emu)"
    using assms(1-3) writes_in_fault by (auto simp: faults_inv_def bound_only_fault)
  from racing_faults.run_keeps [OF this, of ts] assms(4) have inv: "faults_inv sw p m w ?F (pcs, m', emu')"
    by simp
  then have ok: "pcs t \<noteq> Crashed"
    using page_ok.simps(4) [of sw p] unfolding faults_inv_def by (metis fst_conv)
  have "fixed_array (m, emu)"
    using assms(1) by (simp add: emu_inv_def fixed_array_def shadow_wf_def MaxFields_def)
  from faults_end [OF this _ assms(4), of t] ok inv show ?thesis
    by (auto simp: faults_inv_def emu_inv_def)
qed

theorem racing_faults_safe_witness:
  "\<exists>pcs m emu b f. run_faults sample_mixed None sample_frames sample_schedule (one_page, bound_emulator) = (pcs, m, emu)
    \<and> pcs 0 = At (Resume b f) \<and> pcs 1 \<noteq> Crashed \<and> shadow_wf (fVmcs emu)"
proof -
  obtain pcs m emu where run: "run_faults sample_mixed None sample_frames sample_schedule (one_page, bound_emulator) = (pcs, m, emu)"
    by (metis prod_cases3)
  have inv: "emu_inv 0x1000 (one_page, bound_emulator)" and keeps: "keeps_mapped None 0x1000"
    by (simp_all add: emu_inv_def bound_emulator_simps shadow_wf_new keeps_mapped_def)
  have adds: "\<forall>u. u \<noteq> 0 \<longrightarrow> adds_no_field sample_mixed (fVmcs bound_emulator) (sample_frames u)"
    by (simp add: decode_sample_mixed(2) reads_only_adds)
  from racing_faults_safe [OF inv keeps adds run, of 0] racing_faults_safe [OF inv keeps adds run, of 1]
    sample_schedule_steps run
  show ?thesis by blast
qed

section \<open>Two launches\<close>

lemma exit_cells_of_entry:
  "vmcb_ld (entry_page emu v) exit_code = (vmcb_ld v exit_code :: u64)"
  "vmcb_ld (entry_page emu v) exit_info_1 = (vmcb_ld v exit_info_1 :: u64)"
proof -
  have same: "translateVmcsToVmcb (fVmcs emu) v a = v a" if "0x70 \<le> a" "a < 0x80" for a
    by (rule translate_untouched) (use that in \<open>auto simp: translated_ranges_def layout\<close>)
  show "vmcb_ld (entry_page emu v) exit_code = (vmcb_ld v exit_code :: u64)"
    "vmcb_ld (entry_page emu v) exit_info_1 = (vmcb_ld v exit_info_1 :: u64)"
    by (simp_all add: entry_page_def page_simps) (auto intro!: load_le_cong same)
qed

text \<open>
  C37: two launches at once lose the work of a guest. Whatever the guest did between its entry and
  its exit: if another processor launches before the exit is read, the exit is reported with the
  reason of the real one, and the general registers are those after the run, while RIP, RSP, the
  control registers, the segments and RAX are those of before the entry. The next entry runs the
  guest from its old RIP with its new registers.
\<close>

theorem racing_launch_undoes_run:
  assumes "launches lib (st 0)" and "launches lib (st 1)"
    and "fVmcb emu \<noteq> 0" and "m (fVmcb emu) = Some v" and "shadow_wf (fVmcs emu)" and "exit_room (fVmcs emu)"
    and "switch (fVmcbPA emu) (fGprs emu) (m(fVmcb emu \<mapsto> entry_page emu v)) = (g, m1)"
    and "m1 (fVmcb emu) = Some v1"
  shows "\<exists>ts pcs m' emu' f.
      run_faults lib (Some switch) st ts (m, emu) = (pcs, m', emu')
    \<and> pcs 0 = At (Resume True f)
    \<and> vread (fVmcs emu') VMCS_VM_EXIT_REASON = vmx_reason (load_le v1 0x070) (load_le v1 0x078)
    \<and> vmcs_guest (fVmcs emu') = (vmcs_guest (fVmcs emu))
        \<lparr>gv_segs := map canon_seg (gv_segs (vmcs_guest (fVmcs emu))),
         gv_efer := gv_efer (vmcs_guest (fVmcs emu)) AND NOT EFER_SVME\<rparr>
    \<and> fGuestRax emu' = fGuestRax emu \<and> fGprs emu' = g"
proof -
  obtain d0 d1 where d: "decodeVmx lib (st 0) = Some d0" "decodeVmx lib (st 1) = Some d1"
    and op: "dec_op d0 = VMXOP_VMLAUNCH \<or> dec_op d0 = VMXOP_VMRESUME" "dec_op d1 = VMXOP_VMLAUNCH \<or> dec_op d1 = VMXOP_VMRESUME"
    using assms(1,2) by (auto simp: launches_def split: option.splits)
  let ?k = "\<lambda>u d. Resume True (vm_succeed (st u) (dec_length d))"
  let ?p = "\<lambda>u. At (fault_prog lib (Some switch) (st u))"
  have prog: "fault_prog lib (Some switch) (st 0) = launch_prog (Some switch) (?k 0 d0)"
    "fault_prog lib (Some switch) (st 1) = launch_prog (Some switch) (?k 1 d1)"
    using d op by (auto simp: fault_prog_def)
  let ?g = "emu\<lparr>fGprs := g\<rparr>" and ?e = "exit_emulator emu g (entry_page emu v1)"
  let ?m = "m1(fVmcb emu \<mapsto> entry_page emu v1)"
  have "reaches (?p 0, m, emu) (At (exit_phase (?k 0 d0)), m1, ?g)"
    unfolding prog
    by (rule reaches_entry [of emu m v, OF assms(5,3,4)], rule reaches_step) (simp add: enter_prog_def assms(7))
  then obtain a where a: "(fault_step ^^ a) (?p 0, m, emu) = (At (exit_phase (?k 0 d0)), m1, ?g)"
    by (auto simp: reaches_def)
  have "entry_page ?g v1 = entry_page emu v1"
    by (simp add: entry_page_def)
  then have "reaches (?p 1, m1, ?g) (At (enter_prog (Some switch) (exit_phase (?k 1 d1))), ?m, ?g)"
    unfolding prog
    using reaches_entry [of ?g m1 v1 "Some switch" "?k 1 d1"] assms(3,5,8) by simp
  then obtain b where b: "(fault_step ^^ b) (?p 1, m1, ?g) = (At (enter_prog (Some switch) (exit_phase (?k 1 d1))), ?m, ?g)"
    by (auto simp: reaches_def)
  have "reaches (At (exit_phase (?k 0 d0)), ?m, ?g) (At (?k 0 d0), ?m, ?e)"
    using reaches_exit_phase [of ?g ?m "entry_page emu v1" "?k 0 d0" g "(At (?k 0 d0), ?m, ?e)"] assms(5)
    by (simp add: exit_emulator_gprs)
  then obtain c where c: "(fault_step ^^ c) (At (exit_phase (?k 0 d0)), ?m, ?g) = (At (?k 0 d0), ?m, ?e)"
    by (auto simp: reaches_def)
  let ?ts = "replicate a 0 @ replicate b 1 @ replicate c 0"
  obtain pcs where run: "run_faults lib (Some switch) st ?ts (m, emu) = (pcs, ?m, ?e)" "pcs 0 = At (?k 0 d0)"
    by (simp add: run_threads_append run_threads_alone a b [unfolded One_nat_def] c)
  have "vread (fVmcs ?e) VMCS_VM_EXIT_REASON = vmx_reason (load_le v1 0x070) (load_le v1 0x078)"
    using exit_read_registers(9) [OF assms(5,6), of "entry_page emu v1" "fSvmFeatures emu"]
    by (simp add: exit_emulator_def exit_cells_of_entry vmx_reason_code) (simp add: vmcb_ld_def layout)
  moreover have "fGuestRax ?e = fGuestRax emu" "fGprs ?e = g"
    by (simp_all add: exit_emulator_def rax_entry_page)
  ultimately show ?thesis
    using run exit_guest_of_entry [OF assms(5,6) refl, of g v1] by blast
qed

theorem racing_launch_undoes_run_witness:
  "\<exists>ts pcs m emu f. run_faults sample_vmlaunch (Some halting_switch) (\<lambda>_. sample_frame) ts (one_page, bound_emulator) = (pcs, m, emu)
    \<and> pcs 0 = At (Resume True f) \<and> vread (fVmcs emu) VMCS_VM_EXIT_REASON = 12"
proof -
  let ?e = "entry_page bound_emulator (\<lambda>_. 0)"
  let ?v = "vmcb_st ?e exit_code VMEXIT_HLT"
  let ?m = "map_option (\<lambda>v. vmcb_st v exit_code VMEXIT_HLT) \<circ> one_page(0x1000 \<mapsto> ?e)"
  have l: "launches sample_vmlaunch sample_frame"
    by (simp add: launches_def decode_sample_vmlaunch)
  have code: "load_le ?v 0x070 = (0x78 :: u64)"
    by (simp add: vmcb_access_defs layout load_store_same VMEXIT_HLT_def)
  have reason: "vmx_reason 0x78 i = 12" for i
    by (simp add: vmx_reason_def)
  show ?thesis
    using racing_launch_undoes_run [where st = "\<lambda>_. sample_frame", OF l l, of bound_emulator one_page "\<lambda>_. 0" halting_switch zero_gprs ?m ?v]
    by (simp add: bound_emulator_simps shadow_wf_new exit_room_new halting_switch_def code reason) blast
qed

end
