(* ===== verification/Resume.thy ===== *)
theory Resume
  imports TranslateProps
begin

text \<open>
  An exit followed by the next entry: \<open>translateVmcbToVmcs\<close> and then \<open>translateVmcsToVmcb\<close> on the store
  it filled, which is what happens on every VMRESUME of a guest hypervisor that only reads the exit.
\<close>

definition reentered :: "page \<Rightarrow> shadow_vmcs \<Rightarrow> u32 \<Rightarrow> page \<Rightarrow> page" where
  "reentered v s f v2 = translateVmcsToVmcb (translateVmcbToVmcs v s f) v2"

lemma reentered_guest:
  assumes "shadow_wf s" and "exit_room s"
  shows "vmcb_guest (reentered v s f v2) =
    (vmcb_guest v)\<lparr>gv_segs := map canon_seg (gv_segs (vmcb_guest v)),
       gv_efer := vmcb_get64 v VMCB_EFER OR EFER_SVME,
       gv_gdtr := gv_gdtr (vmcs_guest s), gv_idtr := gv_idtr (vmcs_guest s),
       gv_pat := gv_pat (vmcs_guest s)\<rparr>"
proof -
  have "(x AND NOT EFER_SVME) OR EFER_SVME = x OR EFER_SVME" for x :: u64
    by (rule bit_word_eqI) (auto simp: bit_simps)
  then show ?thesis
    by (simp add: reentered_def translate_guest_view exit_guest_view [OF assms] exit_read_registers [OF assms])
qed

lemma map_canon_iff: "map canon_seg gs = gs \<longleftrightarrow> (\<forall>g \<in> set gs. canon_seg g = g)"
  by (induction gs) auto

text \<open>
  C12: an exit followed by a resume is a round trip of the guest, exactly when the guest stayed within
  what the shadow VMCS can carry. With room for the exit fields, the guest that is entered again is the
  guest that left, for any page it is entered through, if and only if it still has the GDTR, IDTR and
  PAT of the shadow VMCS, its segments' attributes are in canonical form, and \<open>EFER.SVME\<close> was set in
  the VMCB; whatever else it had done to its registers and segments survives.
\<close>

theorem resume_roundtrip:
  assumes "shadow_wf s" and "exit_room s"
  shows "vmcb_guest (translateVmcsToVmcb (translateVmcbToVmcs v s f) v2) = vmcb_guest v \<longleftrightarrow>
    gv_gdtr (vmcb_guest v) = gv_gdtr (vmcs_guest s) \<and> gv_idtr (vmcb_guest v) = gv_idtr (vmcs_guest s)
    \<and> gv_pat (vmcb_guest v) = gv_pat (vmcs_guest s) \<and> bit (vmcb_get64 v VMCB_EFER) 12
    \<and> (\<forall>g \<in> set (gv_segs (vmcb_guest v)). canon_seg g = g)"
proof -
  have efer: "x OR EFER_SVME = x \<longleftrightarrow> bit x 12" for x :: u64
  proof
    assume "x OR EFER_SVME = x"
    then have "bit (x OR EFER_SVME) 12 = bit x 12" by simp
    then show "bit x 12" by (simp add: EFER_SVME_def bit_simps)
  next
    assume "bit x 12"
    then show "x OR EFER_SVME = x"
      by (intro bit_word_eqI) (auto simp: EFER_SVME_def bit_simps)
  qed
  have "gv_efer (vmcb_guest v) = vmcb_get64 v VMCB_EFER"
    by (simp add: vmcb_guest_cells)
  with reentered_guest [OF assms, of v f v2, unfolded reentered_def] show ?thesis
    by (cases "vmcb_guest v") (auto simp: efer map_canon_iff)
qed

theorem resume_roundtrip_witness:
  "vmcb_guest (translateVmcsToVmcb (translateVmcbToVmcs (translateVmcsToVmcb new_shadow (\<lambda>_. 0)) new_shadow 0) (\<lambda>_. 0))
     = vmcb_guest (translateVmcsToVmcb new_shadow (\<lambda>_. 0))"
proof -
  let ?v = "translateVmcsToVmcb new_shadow (\<lambda>_. 0)"
  have read: "shadow_read new_shadow e = 0" for e
    by (simp add: shadow_read_def find_slot.simps new_shadow_def)
  have guest: "vmcb_guest ?v = (vmcs_guest new_shadow)\<lparr>gv_efer := EFER_SVME\<rparr>"
    by (simp add: translate_guest_view read)
  have "gv_efer (vmcb_guest ?v) = EFER_SVME"
    by (simp add: guest)
  then have "bit (vmcb_get64 ?v VMCB_EFER) 12"
    by (simp add: vmcb_guest_cells EFER_SVME_def bit_simps)
  moreover have "vmxArToSvmAttrib 0 = 0"
    by (simp add: vmxArToSvmAttrib_def)
  then have "\<forall>g \<in> set (gv_segs (vmcb_guest ?v)). canon_seg g = g"
    by (auto simp: guest vmcs_guest_fields vmcs_seg_def read canon_seg_def)
  ultimately show ?thesis
    by (subst resume_roundtrip [OF shadow_wf_new exit_room_new]) (simp add: guest)
qed

section \<open>What a resume repeats\<close>

text \<open>
  C38: every resume injects again. The exit never touches the VM-entry interruption information, so an
  event that was injected by one entry is injected by the next as well, bit for bit, whatever the
  guest did in between and however the exit came about; hardware clears the valid bit on every exit.
\<close>

theorem event_injected_again:
  assumes "shadow_wf s"
  shows "vmcb_get64 (translateVmcsToVmcb (translateVmcbToVmcs v' s f) v2) VMCB_CTL_EVENTINJ
      = vmcb_get64 (translateVmcsToVmcb s v) VMCB_CTL_EVENTINJ
    \<and> (bit (vmcb_get64 (translateVmcsToVmcb (translateVmcbToVmcs v' s f) v2) VMCB_CTL_EVENTINJ) 31
         \<longleftrightarrow> bit (vread s VMCS_VM_ENTRY_INTR_INFO) 31)"
proof -
  have same: "vread (translateVmcbToVmcs v' s f) x = vread s x"
    if "x \<in> {VMCS_VM_ENTRY_INTR_INFO, VMCS_VM_ENTRY_EXCEPTION_ERROR}" for x
    using that assms by (intro exit_read_other) (auto simp: exit_fields_def kSegs_def)
  note same [of VMCS_VM_ENTRY_INTR_INFO, simplified] same [of VMCS_VM_ENTRY_EXCEPTION_ERROR, simplified]
  then have "vmcb_get64 (translateVmcsToVmcb (translateVmcbToVmcs v' s f) v2) VMCB_CTL_EVENTINJ
      = vmcb_get64 (translateVmcsToVmcb s v) VMCB_CTL_EVENTINJ"
    by (simp only: translateVmcsToVmcb_def put_event_load)
  moreover have "bit (vmcb_get64 (translateVmcsToVmcb s v) VMCB_CTL_EVENTINJ) 31 \<longleftrightarrow> bit (vread s VMCS_VM_ENTRY_INTR_INFO) 31"
    by (simp add: translateVmcsToVmcb_def put_event_load Let_def bit_eventinj_make svm_event_type_small bit_simps)
  ultimately show ?thesis by simp
qed

theorem event_injected_again_witness:
  "vmcb_get64 (translateVmcsToVmcb (translateVmcbToVmcs (\<lambda>_. 0)
      (snd (shadow_write new_shadow (vmcs_enc VMCS_VM_ENTRY_INTR_INFO) 0x80000030)) 0) (\<lambda>_. 0)) VMCB_CTL_EVENTINJ
   = 0x80000030"
proof -
  let ?s = "snd (shadow_write new_shadow (vmcs_enc VMCS_VM_ENTRY_INTR_INFO) 0x80000030)"
  have wf: "shadow_wf ?s"
    by (rule shadow_wf_write [OF shadow_wf_new])
  have "vread ?s VMCS_VM_ENTRY_INTR_INFO = 0x80000030"
    by (simp add: shadow_write_def shadow_read_def find_slot.simps new_shadow_def MaxFields_def)
  then have "vmcb_get64 (translateVmcsToVmcb ?s (\<lambda>_. 0)) VMCB_CTL_EVENTINJ = 0x80000030"
    by (simp add: translateVmcsToVmcb_def put_event_load Let_def eventinj_make_def svm_event_type_def
        vmxEntryVector_def vmxEntryType_def EVENTINJ_VALID_def EVENTINJ_TYPE_INTR_def flag_def)
  with event_injected_again [OF wf, of "\<lambda>_. 0" 0 "\<lambda>_. 0" "\<lambda>_. 0"] show ?thesis by simp
qed

end
