(* ===== verification/VmxSession.thy ===== *)
theory VmxSession
  imports VmxProgram
begin

text \<open>
  Whole sessions of a guest hypervisor, launches included: what every fault does to the shadow VMCS,
  as calls of the abstract store, and the abstract machine any session implements.
\<close>

section \<open>The calls a fault makes\<close>

text \<open>An exit that left \<open>v\<close> in the VMCB: the fields it reports, then the launch state.\<close>

definition exit_calls :: "u32 \<Rightarrow> page \<Rightarrow> store_call list" where
  "exit_calls features v = map (\<lambda>(e, x). CallWrite e x) (exit_writes v features) @ [CallSetLaunched True]"

text \<open>
  A launch with a VMCB makes the calls of its exit, for the page the world-switch left; one without a
  VMCB makes none. Every other fault asks what it asks on its own.
\<close>

definition calls_of ::
  "hde_lib \<Rightarrow> world_switch option \<Rightarrow> amdv_saved_state64 \<Rightarrow> kmem \<times> vmx_emulator \<Rightarrow> store_call list" where
  "calls_of lib sw st s =
     (if launches lib st then
        if fVmcb (snd s) = 0 then []
        else case emu_run lib sw st s of
          None \<Rightarrow> []
        | Some (m', _) \<Rightarrow> exit_calls (fSvmFeatures (snd s)) (the (m' (fVmcb (snd s))))
      else asked lib st)"

primrec session_calls ::
  "hde_lib \<Rightarrow> world_switch option \<Rightarrow> amdv_saved_state64 list \<Rightarrow> kmem \<times> vmx_emulator \<Rightarrow> store_call list" where
  "session_calls lib sw [] s = []"
| "session_calls lib sw (st # frames) s =
     calls_of lib sw st s @
     (case emu_run lib sw st s of None \<Rightarrow> [] | Some s' \<Rightarrow> session_calls lib sw frames s')"

lemma fold_exit_calls:
  "fold store_step (exit_calls f v) s = setLaunched (translateVmcbToVmcs v s f) True"
proof -
  have "fold store_step (map (\<lambda>(e, x). CallWrite e x) kvs) s = shadow_writes kvs s" for kvs s
    by (induction kvs arbitrary: s) (auto simp: shadow_writes_def)
  then show ?thesis
    by (simp add: exit_calls_def translateVmcbToVmcs_writes)
qed

lemma launch_calls:
  assumes "vmlaunchResume sw m emu = Some (r, m', emu')" and "fVmcb emu \<noteq> 0"
  shows "fVmcs emu' = fold store_step (exit_calls (fSvmFeatures emu) (the (m' (fVmcb emu)))) (fVmcs emu)"
proof -
  obtain v where v: "m (fVmcb emu) = Some v"
    using assms vmlaunch_dangling [of emu m sw] by fastforce
  have e: "fVmcs (exit_emulator emu g v') = fold store_step (exit_calls (fSvmFeatures emu) v') (fVmcs emu)" for g v'
    by (simp add: exit_emulator_def fold_exit_calls)
  show ?thesis
  proof (cases sw)
    case None
    with assms vmlaunch_disabled [where m = m, OF assms(2) v] show ?thesis
      by (auto simp: e)
  next
    case (Some f)
    obtain g k where "f (fVmcbPA emu) (fGprs emu) (m(fVmcb emu \<mapsto> entry_page emu v)) = (g, k)" by force
    with assms Some vmlaunch_enabled [where m = m, OF assms(2) v, of f g k] show ?thesis
      by (auto simp: e split: option.splits)
  qed
qed

lemma calls_of_step:
  assumes "emu_run lib sw st (m, emu) = Some (m', emu')"
  shows "fVmcs emu' = fold store_step (calls_of lib sw st (m, emu)) (fVmcs emu)"
proof (cases "launches lib st")
  case False
  from emu_run_asked [OF this, of sw m emu] obtain x where
    "emu_run lib sw st (m, emu) = Some (m, emu\<lparr>fVmcs := fold store_step (asked lib st) (fVmcs emu), fVmxRoot := x\<rparr>)"
    by blast
  with False assms show ?thesis
    by (auto simp: calls_of_def)
next
  case True
  then obtain d where d: "decodeVmx lib st = Some d" "dec_op d \<in> {VMXOP_VMLAUNCH, VMXOP_VMRESUME}"
    by (auto simp: launches_def split: option.splits)
  with assms obtain r where l: "vmlaunchResume sw m emu = Some (r, m', emu')"
    by (auto simp: emu_run_def handleUD_def split: option.splits)
  show ?thesis
  proof (cases "fVmcb emu = 0")
    case True
    with l d \<open>launches lib st\<close> show ?thesis
      by (simp add: vmlaunch_no_vmcb calls_of_def)
  next
    case False
    with launch_calls [OF l False] assms \<open>launches lib st\<close> show ?thesis
      by (simp add: calls_of_def)
  qed
qed

text \<open>
  C8: the emulator is the abstract VMCS machine through whole sessions, launches included. From any
  reachable emulator, any sequence of faults runs through without a kernel fault, and the contents
  and the launch state of the shadow VMCS end exactly where the specification (a map of at most 256
  fields) is taken by the calls of the faults in order: the writes and loads the instructions ask
  for, and for every launch the fields its exit reports; every VMREAD delivers the specification's
  value.
\<close>

theorem whole_session_refines_map:
  assumes "emu_inv p (m, emu)" and "keeps_mapped sw p"
  shows "\<exists>m' emu'. run_calls (emu_run lib sw) frames (m, emu) = Some (m', emu') \<and> emu_inv p (m', emu')
    \<and> store_abs (fVmcs emu') = fold spec_step (session_calls lib sw frames (m, emu)) (store_abs (fVmcs emu))
    \<and> vmread emu' e = (case fst (store_abs (fVmcs emu')) e of None \<Rightarrow> 0 | Some v \<Rightarrow> v)"
proof -
  have "\<exists>m' emu'. run_calls (emu_run lib sw) frames (m, emu) = Some (m', emu') \<and> emu_inv p (m', emu')
    \<and> store_abs (fVmcs emu') = fold spec_step (session_calls lib sw frames (m, emu)) (store_abs (fVmcs emu))"
    using assms(1)
  proof (induction frames arbitrary: m emu)
    case Nil
    then show ?case by simp
  next
    case (Cons st frames)
    obtain m1 emu1 where step: "emu_run lib sw st (m, emu) = Some (m1, emu1)" and inv: "emu_inv p (m1, emu1)"
      using fault_total [OF Cons.prems assms(2), of lib st] by (auto simp: emu_run_def)
    have "shadow_wf (fVmcs emu)"
      using Cons.prems by (simp add: emu_inv_def)
    from store_steps_sim [OF this] have
      "store_abs (fVmcs emu1) = fold spec_step (calls_of lib sw st (m, emu)) (store_abs (fVmcs emu))"
      by (simp add: calls_of_step [OF step])
    with Cons.IH [OF inv] step show ?case by simp
  qed
  then show ?thesis
    by (auto simp: vmread_def shadow_read_map store_abs_def emu_inv_def)
qed

theorem whole_session_refines_map_witness:
  "\<exists>m' emu'. run_calls (emu_run sample_vmlaunch (Some halting_switch)) [sample_frame] (one_page, bound_emulator)
       = Some (m', emu')
     \<and> isLaunched (fVmcs emu') \<and> fVmcb emu' = 0x1000"
proof -
  let ?sw = "Some halting_switch"
  have inv: "emu_inv 0x1000 (one_page, bound_emulator)" and keeps: "keeps_mapped ?sw 0x1000"
    by (simp_all add: emu_inv_def bound_emulator_simps shadow_wf_new keeps_mapped_def halting_switch_def)
  obtain m1 emu1 where one: "emu_run sample_vmlaunch ?sw sample_frame (one_page, bound_emulator) = Some (m1, emu1)"
    using fault_total [OF inv keeps, of sample_vmlaunch sample_frame] by (auto simp: emu_run_def)
  have "launches sample_vmlaunch sample_frame" "fVmcb bound_emulator \<noteq> 0"
    by (simp_all add: launches_def decode_sample_vmlaunch new_decoded_def bound_emulator_simps)
  then obtain cs where calls:
    "session_calls sample_vmlaunch ?sw [sample_frame] (one_page, bound_emulator) = cs @ [CallSetLaunched True]"
    using one by (simp add: calls_of_def exit_calls_def)
  obtain m' emu' where run: "run_calls (emu_run sample_vmlaunch ?sw) [sample_frame] (one_page, bound_emulator) = Some (m', emu')"
      and inv': "emu_inv 0x1000 (m', emu')"
      and abs: "store_abs (fVmcs emu') = fold spec_step (cs @ [CallSetLaunched True]) (store_abs (fVmcs bound_emulator))"
    using whole_session_refines_map [OF inv keeps, of sample_vmlaunch "[sample_frame]"] unfolding calls by blast
  have "snd (fold spec_step (cs @ [CallSetLaunched True]) a)" for a
    by (cases "fold spec_step cs a") simp
  then have "snd (store_abs (fVmcs emu'))"
    unfolding abs .
  with run inv' show ?thesis
    by (auto simp: store_abs_def emu_inv_def)
qed

end
