(* ===== verification/KmodInfo.thy ===== *)
theory KmodInfo
  imports AmdvPrelude
begin

text \<open>
  The file \<^verbatim>\<open>src/kmod_info.c\<close>, which is all macros: which names and strings the kernel
  extension is linked with. The theory models the part of the C preprocessor the file uses (object-like
  and function-like macros, \<open>#\<close> and \<open>##\<close>, whose operands are not expanded, and rescanning) and runs
  the file's macros through it. The SDK macro \<open>KMOD_EXPLICIT_DECL\<close> is a parameter.
\<close>

section \<open>Macro expansion\<close>

text \<open>
  An invocation with its arguments, a string literal, or a name; a dotted sequence of tokens such as a
  bundle identifier or a version is a name here, with its spelling.
\<close>

datatype pp = Name string | Lit string | Invoke string "pp list"

text \<open>Replacement lists: a parameter by position, \<open># a\<close>, \<open>a ## text ## b\<close>, a name, an invocation.\<close>

datatype body =
    Param nat
  | Stringized nat
  | Pasted nat string nat
  | Word string
  | Invoked string "body list"

record macros =
  obj_macros :: "string \<rightharpoonup> pp"
  fun_macros :: "string \<rightharpoonup> body"

fun commas :: "string list \<Rightarrow> string" where
  "commas [] = []"
| "commas [x] = x"
| "commas (x # xs) = x @ '', '' @ commas xs"

fun spelling :: "pp \<Rightarrow> string" where
  "spelling (Name x) = x"
| "spelling (Lit s) = CHR 0x22 # s @ [CHR 0x22]"
| "spelling (Invoke f args) = f @ ''('' @ commas (map spelling args) @ '')''"

text \<open>\<open>raw\<close> are the arguments as written, \<open>args\<close> the same after macro expansion.\<close>

fun substitute :: "pp list \<Rightarrow> pp list \<Rightarrow> body \<Rightarrow> pp" where
  "substitute raw args (Param i) = args ! i"
| "substitute raw args (Stringized i) = Lit (spelling (raw ! i))"
| "substitute raw args (Pasted i s j) = Name (spelling (raw ! i) @ s @ spelling (raw ! j))"
| "substitute raw args (Word x) = Name x"
| "substitute raw args (Invoked f bs) = Invoke f (map (substitute raw args) bs)"

text \<open>
  Expansion and rescanning, at most \<open>n\<close> replacements deep; none of the macros of the file refers to
  itself, and the theorems hold for every large enough \<open>n\<close>.
\<close>

primrec expand :: "nat \<Rightarrow> macros \<Rightarrow> pp \<Rightarrow> pp" where
  "expand 0 ms e = e"
| "expand (Suc n) ms e =
     (case e of
        Lit s \<Rightarrow> Lit s
      | Name x \<Rightarrow> (case obj_macros ms x of None \<Rightarrow> Name x | Some r \<Rightarrow> expand n ms r)
      | Invoke f args \<Rightarrow>
          (case fun_macros ms f of
             None \<Rightarrow> Invoke f (map (expand n ms) args)
           | Some b \<Rightarrow> expand n ms (substitute args (map (expand n ms) args) b)))"

section \<open>The file\<close>

definition file_macros :: "string \<rightharpoonup> body" where
  "file_macros =
     [''Stringify'' \<mapsto> Stringized 0,
      ''xStringify'' \<mapsto> Invoked ''Stringify'' [Param 0],
      ''ADDPR_CAT'' \<mapsto> Pasted 0 ''_'' 1,
      ''ADDPR_EVAL'' \<mapsto> Invoked ''ADDPR_CAT'' [Param 0, Param 1],
      ''ADDPR_SYM'' \<mapsto> Invoked ''ADDPR_EVAL'' [Word ''PRODUCT_NAME'', Param 0]]"

definition decl_macro :: "string \<rightharpoonup> body" where
  "decl_macro =
     [''KMOD_DECL_EXPANDED'' \<mapsto>
        Invoked ''KMOD_EXPLICIT_DECL'' [Param 0, Param 1, Param 2, Param 3]]"

text \<open>The checks that stop the compilation with \<open>#error\<close>.\<close>

definition kmod_defined :: "(string \<rightharpoonup> pp) \<Rightarrow> bool" where
  "kmod_defined defs \<longleftrightarrow>
     defs ''PRODUCT_NAME'' \<noteq> None \<and> defs ''BUNDLE_ID'' \<noteq> None \<and> defs ''MODULE_VERSION'' \<noteq> None"

record kmod_link =
  kmod_info :: pp
  realmain :: pp
  antimain :: pp
  kext_apple_cc :: pp

text \<open>
  The object-like macros are the compiler's own and the build's \<open>-D\<close> options, of which \<open>#error\<close>
  demands three. The SDK contributes further function-like macros.
\<close>

definition compile_kmod :: "nat \<Rightarrow> (string \<rightharpoonup> body) \<Rightarrow> (string \<rightharpoonup> pp) \<Rightarrow> kmod_link option" where
  "compile_kmod n sdk defs =
     (if \<not> kmod_defined defs then None
      else let ex = expand n \<lparr>obj_macros = defs, fun_macros = sdk ++ file_macros ++ decl_macro\<rparr> in
        Some \<lparr>kmod_info = ex (Invoke ''KMOD_DECL_EXPANDED''
                [Name ''BUNDLE_ID'', Invoke ''xStringify'' [Name ''MODULE_VERSION''],
                 Name ''_start'', Name ''_stop'']),
              realmain = ex (Invoke ''ADDPR_SYM'' [Name ''kern_start'']),
              antimain = ex (Invoke ''ADDPR_SYM'' [Name ''kern_stop'']),
              kext_apple_cc = ex (Name ''__APPLE_CC__'')\<rparr>)"

section \<open>The names that are linked\<close>

text \<open>
  What \<open><mach/kmod.h>\<close> documents of its macro: the first argument is stringized, the others are used
  as they are.
\<close>

definition kmod_sdk :: "(string \<rightharpoonup> body) \<Rightarrow> bool" where
  "kmod_sdk sdk \<longleftrightarrow>
     sdk ''KMOD_EXPLICIT_DECL'' = Some (Invoked ''kmod_info_t'' [Stringized 0, Param 1, Param 2, Param 3])
     \<and> sdk ''kmod_info_t'' = None"

text \<open>The build and the compiler define each name as plain text, and no other name the file uses.\<close>

definition plain_defs :: "(string \<rightharpoonup> pp) \<Rightarrow> string \<Rightarrow> string \<Rightarrow> string \<Rightarrow> string \<Rightarrow> bool" where
  "plain_defs defs product bundle version cc \<longleftrightarrow>
     defs ''PRODUCT_NAME'' = Some (Name product) \<and> defs ''BUNDLE_ID'' = Some (Name bundle)
     \<and> defs ''MODULE_VERSION'' = Some (Name version) \<and> defs ''__APPLE_CC__'' = Some (Name cc) \<and> defs cc = None
     \<and> defs product = None \<and> defs bundle = None \<and> defs version = None
     \<and> defs ''kern_start'' = None \<and> defs ''kern_stop'' = None \<and> defs ''_start'' = None \<and> defs ''_stop'' = None
     \<and> defs (product @ ''_kern_start'') = None \<and> defs (product @ ''_kern_stop'') = None"

lemma file_macro_simps:
  "(sdk ++ file_macros ++ decl_macro) ''Stringify'' = Some (Stringized 0)"
  "(sdk ++ file_macros ++ decl_macro) ''xStringify'' = Some (Invoked ''Stringify'' [Param 0])"
  "(sdk ++ file_macros ++ decl_macro) ''ADDPR_CAT'' = Some (Pasted 0 ''_'' 1)"
  "(sdk ++ file_macros ++ decl_macro) ''ADDPR_EVAL'' = Some (Invoked ''ADDPR_CAT'' [Param 0, Param 1])"
  "(sdk ++ file_macros ++ decl_macro) ''ADDPR_SYM'' = Some (Invoked ''ADDPR_EVAL'' [Word ''PRODUCT_NAME'', Param 0])"
  "(sdk ++ file_macros ++ decl_macro) ''KMOD_DECL_EXPANDED'' =
     Some (Invoked ''KMOD_EXPLICIT_DECL'' [Param 0, Param 1, Param 2, Param 3])"
  "(sdk ++ file_macros ++ decl_macro) ''KMOD_EXPLICIT_DECL'' = sdk ''KMOD_EXPLICIT_DECL''"
  "(sdk ++ file_macros ++ decl_macro) ''kmod_info_t'' = sdk ''kmod_info_t''"
  by (simp_all add: file_macros_def decl_macro_def map_add_def)

lemma expand_Lit [simp]: "expand n ms (Lit s) = Lit s"
  by (cases n) simp_all

lemma expand_plain: "obj_macros ms x = None \<Longrightarrow> expand n ms (Name x) = Name x"
  by (cases n) simp_all

text \<open>
  C39: the extension is linked under the names the build asked for. For every deep enough expansion,
  the bundle identifier goes into \<open>kmod_info\<close> as the text of \<open>BUNDLE_ID\<close> (not the name of the macro),
  the version as the text of \<open>MODULE_VERSION\<close>, and the entry points are Lilu's, prefixed with the
  product name; without the extra macro layer the literal text \<open>BUNDLE_ID\<close> would go in instead. A
  build that leaves one of the three names out gets no object file.
\<close>

theorem kmod_links_the_plugin:
  assumes "kmod_sdk sdk" and "plain_defs defs product bundle version cc"
  shows "compile_kmod (n + 8) sdk defs = Some
      \<lparr>kmod_info = Invoke ''kmod_info_t'' [Lit bundle, Lit version, Name ''_start'', Name ''_stop''],
       realmain = Name (product @ ''_kern_start''), antimain = Name (product @ ''_kern_stop''),
       kext_apple_cc = Name cc\<rparr>
    \<and> expand (n + 8) \<lparr>obj_macros = defs, fun_macros = sdk ++ file_macros ++ decl_macro\<rparr>
        (Invoke ''KMOD_EXPLICIT_DECL'' [Name ''BUNDLE_ID'', Lit version, Name ''_start'', Name ''_stop'']) =
      Invoke ''kmod_info_t'' [Lit ''BUNDLE_ID'', Lit version, Name ''_start'', Name ''_stop'']
    \<and> (\<forall>x \<in> {''PRODUCT_NAME'', ''BUNDLE_ID'', ''MODULE_VERSION''}. compile_kmod m sdk (defs(x := None)) = None)"
proof -
  have n: "n + 8 = Suc (Suc (Suc (Suc (Suc (Suc (Suc (Suc n)))))))" by simp
  have d: "defs ''PRODUCT_NAME'' = Some (Name product)" "defs ''BUNDLE_ID'' = Some (Name bundle)"
      "defs ''MODULE_VERSION'' = Some (Name version)" "defs product = None" "defs bundle = None" "defs version = None"
      "defs ''kern_start'' = None" "defs ''kern_stop'' = None" "defs ''_start'' = None" "defs ''_stop'' = None"
      "defs (product @ ''_kern_start'') = None" "defs (product @ ''_kern_stop'') = None"
      "defs ''__APPLE_CC__'' = Some (Name cc)" "defs cc = None"
    using assms(2) by (simp_all add: plain_defs_def)
  have k: "sdk ''KMOD_EXPLICIT_DECL'' = Some (Invoked ''kmod_info_t'' [Stringized 0, Param 1, Param 2, Param 3])"
      "sdk ''kmod_info_t'' = None"
    using assms(1) by (simp_all add: kmod_sdk_def)
  show ?thesis
    unfolding n compile_kmod_def kmod_defined_def by (simp add: file_macro_simps d k expand_plain Let_def)
qed

theorem kmod_links_the_plugin_witness:
  "compile_kmod 8 [''KMOD_EXPLICIT_DECL'' \<mapsto> Invoked ''kmod_info_t'' [Stringized 0, Param 1, Param 2, Param 3]]
     [''PRODUCT_NAME'' \<mapsto> Name ''AMDV'', ''BUNDLE_ID'' \<mapsto> Name ''org.hackintosh.AMDV'', ''MODULE_VERSION'' \<mapsto> Name ''0.1.0'',
      ''__APPLE_CC__'' \<mapsto> Name ''6000'']
   = Some \<lparr>kmod_info = Invoke ''kmod_info_t'' [Lit ''org.hackintosh.AMDV'', Lit ''0.1.0'', Name ''_start'', Name ''_stop''],
       realmain = Name ''AMDV_kern_start'', antimain = Name ''AMDV_kern_stop'',
       kext_apple_cc = Name ''6000''\<rparr>"
  using kmod_links_the_plugin [of "[''KMOD_EXPLICIT_DECL'' \<mapsto> Invoked ''kmod_info_t'' [Stringized 0, Param 1, Param 2, Param 3]]"
      "[''PRODUCT_NAME'' \<mapsto> Name ''AMDV'', ''BUNDLE_ID'' \<mapsto> Name ''org.hackintosh.AMDV'', ''MODULE_VERSION'' \<mapsto> Name ''0.1.0'',
        ''__APPLE_CC__'' \<mapsto> Name ''6000'']"
      "''AMDV''" "''org.hackintosh.AMDV''" "''0.1.0''" "''6000''" 0]
  by (simp add: kmod_sdk_def plain_defs_def)

end
