(* ===== verification/Spec2Isabelle.thy ===== *)
theory Spec2Isabelle
  imports ShadowProps TranslateProps EptNpt VmcbLayout VmxEmuProps VmxProgram WorldSwitchProps
    SvmBackendProps SvmCheck HvAmdProps PluginLife MultiCpu StoreRaces LaunchRaces Resume VmxSession KmodInfo
begin

text \<open>
  A verification of AMDV, a Lilu kernel extension that lets a macOS hypervisor written for Intel VMX
  run on AMD SVM. The VMX instructions of the guest hypervisor fault on an AMD processor; the
  extension decodes the faulting instruction, keeps a shadow of the VMCS the hypervisor programs,
  and enters the guest through an AMD VMCB filled from that shadow. All paths are under
  \<^verbatim>\<open>src/\<close> of the repository; the implementation is in its \<^verbatim>\<open>src\<close> directory.


  The parts and how they interact.

  \<^item> A fault reaches \<open>VmxEmulator::handleUD\<close>, which decodes it (\<open>decodeVmx\<close>, over the saved registers of
    \<^verbatim>\<open>kern_trap.hpp\<close>) and reads or writes the shadow VMCS, or launches the guest.
  \<^item> A launch translates shadow VMCS to VMCB, hands over to the assembly world-switch, and translates
    the VMCB of the exit back into the shadow VMCS.
  \<^item> \<open>SvmBackend\<close> detects SVM, owns the VMCB and the host save area, and switches \<open>EFER.SVME\<close>.
  \<^item> \<open>HypervisorAMD\<close> brings the backend up when Lilu's patcher is ready, routes the kernel's availability
    gate, sets its latch on request, and binds the emulator to the VMCB of the backend.


  Theories, in the order of the code, and the definitions that model it.

  \<^item> \<^verbatim>\<open>AmdvPrelude\<close>: word types, bit flags, little-endian bytes, fold lemmas, and the locale
    \<open>safe_calls\<close> (no sequence of calls faults under an invariant every call keeps).
    \<^verbatim>\<open>Interleave\<close>: schedules of the steps of several processors, and the locale
    \<open>shared_calls\<close> (an invariant every step keeps holds under every schedule).
  \<^item> \<^verbatim>\<open>VmxModel\<close>: \<^verbatim>\<open>kern_vmx.hpp\<close>; field encodings, control bits, exit
    reasons and opcode classes.
  \<^item> \<^verbatim>\<open>ShadowVmcs\<close>, \<^verbatim>\<open>ShadowProps\<close>: the class \<open>ShadowVMCS\<close>
    (\<^verbatim>\<open>kern_vmx.hpp\<close>, \<^verbatim>\<open>kern_vmcs_vmcb.cpp\<close>); a record of the slot array,
    the count and the launch flag, with the linear search as coded; the locale \<open>encoding_store\<close>.
  \<^item> \<^verbatim>\<open>StoreRaces\<close>: the two methods of \<open>ShadowVMCS\<close> again, one access to
    the shared members per step, for calls of several processors under any schedule.
  \<^item> \<^verbatim>\<open>SvmHw\<close>, \<^verbatim>\<open>VmcbLayout\<close>: \<^verbatim>\<open>SVM.h\<close>; the VMCB is the page
    of bytes it is, struct offsets are computed from the declared member sizes; the locale
    \<open>byte_cells\<close>.
  \<^item> \<^verbatim>\<open>Translate\<close>, \<^verbatim>\<open>TranslateProps\<close>: \<^verbatim>\<open>kern_vmcs_vmcb.cpp\<close>;
    \<open>translateVmcsToVmcb\<close> and \<open>translateVmcbToVmcs\<close> block by block, the exit-code map and the
    access-rights conversions. What they are held against is stated in numbers from the processor
    manuals and shares no table with them: \<open>vmcs_guest\<close> and \<open>vmcb_guest\<close> (the guest a VMCS and a VMCB
    describe), \<open>vmx_reason\<close>, \<open>exit_encodings\<close>, and for the decoder \<open>x86_gpr\<close>.
    \<^verbatim>\<open>Resume\<close>: an exit followed by the next entry.
  \<^item> \<^verbatim>\<open>EptNpt\<close>: \<open>eptEntryToNpt\<close>; \<^verbatim>\<open>TrapFrame\<close>: \<^verbatim>\<open>kern_trap.hpp\<close>.
  \<^item> \<^verbatim>\<open>VmxEmu\<close>, \<^verbatim>\<open>VmxEmuProps\<close>, \<^verbatim>\<open>VmxProgram\<close>,
    \<^verbatim>\<open>VmxSession\<close>: \<^verbatim>\<open>kern_vmx_emu.cpp\<close>, \<^verbatim>\<open>kern_vmx_emu.hpp\<close>;
    one fault, any reachable state, whole programs of the guest hypervisor, and sessions with launches.
    \<^verbatim>\<open>LaunchSteps\<close>: the same code and the two translations again as programs of
    single accesses to the emulator, the store and the VMCB; a program that runs alone is \<open>handleUD\<close>.
    \<^verbatim>\<open>LaunchRaces\<close>: such programs of several processors on the one emulator.
  \<^item> \<^verbatim>\<open>WorldSwitch\<close>, \<^verbatim>\<open>WorldSwitchProps\<close>: \<^verbatim>\<open>svm_switch.S\<close>,
    instruction by instruction, and the instruction wrappers of \<^verbatim>\<open>SVM.h\<close>.
  \<^item> \<^verbatim>\<open>SvmBackend\<close>, \<^verbatim>\<open>SvmBackendProps\<close>: \<^verbatim>\<open>kern_svm.cpp\<close>,
    \<^verbatim>\<open>kern_svm.hpp\<close>; pointers to live buffers are explicit, so that a use of a dead one is a
    fault.
  \<^item> \<^verbatim>\<open>HvAmd\<close>, \<^verbatim>\<open>HvAmdProps\<close>, \<^verbatim>\<open>PluginLife\<close>:
    \<^verbatim>\<open>kern_hv_amd.cpp\<close>, \<^verbatim>\<open>kern_hv_amd.hpp\<close> and the entry point in
    \<^verbatim>\<open>kern_start.cpp\<close>.
  \<^item> \<^verbatim>\<open>MultiCpu\<close>: the backend and the world-switch on a machine with several processors.
  \<^item> \<^verbatim>\<open>KmodInfo\<close>: \<^verbatim>\<open>kmod_info.c\<close>; its macros run through the part of the
    C preprocessor they use.
  \<^item> \<^verbatim>\<open>SvmCheck\<close>: the user-space probe \<^verbatim>\<open>tests/svmcheck.c\<close>.


  What the theorems show.

  \<^item> Store: the slot array is a partial map with 256 entries after any sequence of calls, its search
    ends within 257 tests inside the array, the first 256 encodings win, and the named fields fit.
    Its methods are atomic when they run alone and linearizable with one writer and any number of
    readers; two writers lose a field or drive the count past the array.
  \<^item> Translation: the VMCB describes exactly the guest of the shadow VMCS, no other byte changes, the
    exit is reported as specified when the store has room for it (\<open>exit_room\<close>; on a full one it is
    lost), and the page layout the three views share is well typed. An exit and the next entry are a
    round trip of the guest but for a stated list of registers, and the entry repeats the event of
    the one before.
  \<^item> Emulator: what is decoded, what a consumed fault changes, that no reachable state faults, that
    VMX code runs through one fault per instruction, and that through whole sessions, launches
    included, the emulator is the abstract VMCS machine. With several processors every fault ends, a
    fault beside readers is what it is alone, no schedule makes one crash while at most one
    processor adds fields to the store, and two launches at once lose the work of a guest.
  \<^item> World-switch: the assembly keeps its calling convention around any guest and implements the
    guest entry the emulator takes as a parameter; the theorems also show what it loses.
  \<^item> Backend and plugin: who is detected, what enabling and disabling change, that every buffer is
    given back over the whole life of the plugin, what each failure leaves behind, and under which
    names the extension is linked.


  Bounds. The store holds 256 fields and the VMCB 4096 bytes, as in the code. Machine integers have
  the width of the code and wrap. The only step counts are \<open>n\<close> of \<open>run_traps\<close>, which the theorem on it
  sets to the number of instructions, \<open>n\<close> of \<open>search_loop\<close>, which its theorem sets to one more than the
  number of fields, the schedules of \<open>run_threads\<close>, which its theorems quantify over, and \<open>n\<close> of
  \<open>expand\<close>, for which 8 is enough: no chain of macros in the file is longer. A fault ends within 60000
  steps of its processor: a launch makes 55 reads and 42 writes of the store, each of at most 522
  steps, and about a hundred other accesses (\<open>fits_fault\<close>). Every other function is total by
  its recursion.

  Parameters and what is assumed of them. \<open>hde64_disasm\<close> (the length disassembler of Lilu) is any function.
  \<open>IOBufferMemoryDescriptor\<close> answers requests in any way, but hands out only pages that are not mapped
  (\<open>fresh_io\<close>). MSRs are separate cells that read back (\<open>msr_laws\<close>). The patcher of Lilu is any record
  of answers; the latch it resolves is mapped (\<open>latch_mapped\<close>). A processor with SVM answers VMLOAD,
  VMSAVE and the guest's run in any way, but a guest changes no word of the host's stack frame
  (\<open>guest_isolated\<close>). A world-switch taken as a parameter keeps mapped pages mapped
  (\<open>keeps_mapped\<close>).

  The SDK macro \<open>KMOD_EXPLICIT_DECL\<close> stringizes its first argument only (\<open>kmod_sdk\<close>), and the build
  defines names as plain text (\<open>plain_defs\<close>).

  Not modelled. Log output. \<^verbatim>\<open>Info.plist\<close>, the build file and the hardware test
  script: data, build rules and log collection. Lilu's decision whether to start the plugin, which
  reads the configuration that is modelled. Memory weaker than sequential consistency, and the
  optimisations of a compiler: every access of the source to a shared member is one step, in the
  order of the source, and the world-switch, whose instructions \<^verbatim>\<open>WorldSwitch\<close> has, is
  one step of the processor that runs it.
  \<^verbatim>\<open>MultiCpu\<close> interleaves whole calls on a fixed processor each. In the world-switch,
  the fault of VMLOAD, VMRUN and VMSAVE on a VMCB address that is not page-aligned (the backend hands
  out pages), and a stack that overlaps kernel pages: the two are separate memories there. The EPT walk,
  which the code does not have: \<open>buildNptFromEpt\<close> is the constant 0 there and here. The text layout of
  what \<^verbatim>\<open>svmcheck\<close> prints.
\<close>

end
